(* ===== verification/HL_Base.thy ===== *)
theory HL_Base
  imports Main "HOL-Library.Word" "HOL-Library.AList" "HOL-Library.Code_Target_Nat"
begin

text \<open>
  Shared vocabulary of the development: Go's bytes, slices, strings, errors and panics, the
  big-endian codecs of \<^verbatim>\<open>encoding/binary\<close>, Go maps as association lists, and the offset-based
  \<^verbatim>\<open>readFrom\<close> helper of \<^verbatim>\<open>hotline/read_helper.go\<close> with the loops of \<^verbatim>\<open>io.ReadAll\<close> and
  \<^verbatim>\<open>io.Copy\<close> that drive it.
\<close>

unbundle bit_operations_syntax

section \<open>Bytes, slices, strings\<close>

text \<open>
  A Go \<^verbatim>\<open>[]byte\<close> or \<^verbatim>\<open>string\<close> is a list of 8-bit words.  Where the code tells a nil slice from an
  empty one the type is \<open>slice\<close>, with \<open>None\<close> for nil; \<open>sl\<close> reads it as every length or copy of
  Go does (a nil slice has length 0).  A fixed-size array \<^verbatim>\<open>[n]byte\<close> is an \<open>8 * n\<close>-bit word read
  big-endian, a representation with exactly as many values.
\<close>

type_synonym byte = "8 word"
type_synonym bytes = "byte list"
type_synonym slice = "bytes option"

definition sl :: "slice \<Rightarrow> bytes" where
  "sl s = (case s of None \<Rightarrow> [] | Some b \<Rightarrow> b)"

lemma sl_simps [simp]: "sl None = []" "sl (Some b) = b"
  by (simp_all add: sl_def)

text \<open>A string literal of the source, as its ASCII bytes.\<close>

definition go_str :: "string \<Rightarrow> bytes" where
  "go_str s = map of_char s"

lemma length_go_str [simp]: "length (go_str s) = length s"
  by (simp add: go_str_def)

lemma go_str_append [simp]: "go_str (s @ t) = go_str s @ go_str t"
  by (simp add: go_str_def)

lemma go_str_Nil [simp]: "go_str [] = []"
  by (simp add: go_str_def)

lemma go_str_eq_Nil [simp]: "go_str s = [] \<longleftrightarrow> s = []"
  by (simp add: go_str_def)

section \<open>Errors and panics\<close>

datatype go_error =
    Msg string
  | EOF
  | UnexpectedEOF
  | TooLong
  | AdvanceTooFar
  | NoProgress
  | NotExist

datatype 'a outcome = Ok 'a | Err go_error | Panic

fun obind :: "'a outcome \<Rightarrow> ('a \<Rightarrow> 'b outcome) \<Rightarrow> 'b outcome" where
  "obind (Ok x) f = f x"
| "obind (Err e) f = Err e"
| "obind Panic f = Panic"

lemma obind_Ok_iff: "obind x f = Ok y \<longleftrightarrow> (\<exists>a. x = Ok a \<and> f a = Ok y)"
  by (cases x) auto

lemma obind_Panic_iff: "obind x f = Panic \<longleftrightarrow> x = Panic \<or> (\<exists>a. x = Ok a \<and> f a = Panic)"
  by (cases x) auto

section \<open>Slicing\<close>

text \<open>
  \<open>slice_at p i j\<close> is Go's \<^verbatim>\<open>p[i:j]\<close> on a slice whose capacity is its length, as it is for every
  buffer the code makes with \<^verbatim>\<open>make\<close>: it panics unless \<open>i \<le> j \<le> len(p)\<close>.
\<close>

definition slice_at :: "bytes \<Rightarrow> nat \<Rightarrow> nat \<Rightarrow> bytes outcome" where
  "slice_at p i j = (if i \<le> j \<and> j \<le> length p then Ok (take (j - i) (drop i p)) else Panic)"

lemma slice_at_Ok [simp]:
  "i \<le> j \<Longrightarrow> j \<le> length p \<Longrightarrow> slice_at p i j = Ok (take (j - i) (drop i p))"
  by (simp add: slice_at_def)

lemma slice_at_Ok_iff: "slice_at p i j = Ok b \<longleftrightarrow> i \<le> j \<and> j \<le> length p \<and> b = take (j - i) (drop i p)"
  by (auto simp: slice_at_def)

lemma slice_at_Panic_iff: "slice_at p i j = Panic \<longleftrightarrow> \<not> (i \<le> j \<and> j \<le> length p)"
  by (auto simp: slice_at_def)

text \<open>\<open>get_at p i\<close> is Go's \<^verbatim>\<open>p[i]\<close>; \<open>copy_into d s\<close> is the array \<open>d\<close> after \<^verbatim>\<open>copy(d[:], s)\<close>.\<close>

definition get_at :: "bytes \<Rightarrow> nat \<Rightarrow> byte outcome" where
  "get_at p i = (if i < length p then Ok (p ! i) else Panic)"

definition copy_into :: "bytes \<Rightarrow> bytes \<Rightarrow> bytes" where
  "copy_into d s = take (length d) s @ drop (length s) d"

lemma length_copy_into [simp]: "length (copy_into d s) = length d"
  by (simp add: copy_into_def)

section \<open>Big-endian integers (\<^verbatim>\<open>encoding/binary\<close>)\<close>

definition be_bytes :: "nat \<Rightarrow> 'a::len word \<Rightarrow> bytes" where
  "be_bytes n w = map (\<lambda>i. ucast (drop_bit (8 * i) w)) (rev [0..<n])"

definition be_word :: "bytes \<Rightarrow> 'a::len word" where
  "be_word bs = foldl (\<lambda>w b. push_bit 8 w OR ucast b) 0 bs"

abbreviation be16 :: "16 word \<Rightarrow> bytes" where "be16 \<equiv> be_bytes 2"
abbreviation be32 :: "32 word \<Rightarrow> bytes" where "be32 \<equiv> be_bytes 4"
abbreviation be64 :: "64 word \<Rightarrow> bytes" where "be64 \<equiv> be_bytes 8"

text \<open>\<open>uint16(n)\<close>, \<open>uint32(n)\<close> and \<open>uint8(n)\<close> of a Go length: the conversion keeps the low bits.\<close>

abbreviation u16 :: "nat \<Rightarrow> 16 word" where "u16 n \<equiv> word_of_nat n"
abbreviation u32 :: "nat \<Rightarrow> 32 word" where "u32 n \<equiv> word_of_nat n"
abbreviation u8 :: "nat \<Rightarrow> byte" where "u8 n \<equiv> word_of_nat n"

lemma length_be_bytes [simp]: "length (be_bytes n w) = n"
  by (simp add: be_bytes_def)

lemma be_bytes_0 [simp]: "be_bytes 0 w = []"
  by (simp add: be_bytes_def)

lemma be_bytes_eq_Nil [simp]: "be_bytes n w = [] \<longleftrightarrow> n = 0"
  by (simp add: be_bytes_def)

lemma be_bytes_Suc: "be_bytes (Suc n) w = ucast (drop_bit (8 * n) w) # be_bytes n w"
  by (simp add: be_bytes_def)

lemma be_word_foldl:
  "foldl (\<lambda>w b. push_bit 8 w OR ucast b) a bs = push_bit (8 * length bs) a OR be_word bs"
  for a :: "'a::len word"
proof (induction bs arbitrary: a)
  case Nil
  then show ?case by (simp add: be_word_def)
next
  case (Cons b bs)
  have "be_word (b # bs) = push_bit (8 * length bs) (ucast b) OR (be_word bs :: 'a word)"
    using Cons[of "ucast b"] by (simp add: be_word_def)
  moreover have "foldl (\<lambda>w b. push_bit 8 w OR ucast b) a (b # bs) =
      push_bit (8 * length bs) (push_bit 8 a OR ucast b) OR be_word bs"
    using Cons by simp
  ultimately show ?case
    by (simp add: ac_simps)
qed

lemma be_word_Nil [simp]: "be_word [] = 0"
  by (simp add: be_word_def)

lemma be_word_Cons: "be_word (b # bs) = push_bit (8 * length bs) (ucast b) OR be_word bs"
  using be_word_foldl[of "ucast b" bs] by (simp add: be_word_def)

lemma bit_be_word_high: "8 * length bs \<le> k \<Longrightarrow> \<not> bit (be_word bs :: 'a::len word) k"
  by (induction bs) (auto simp: be_word_Cons bit_simps dest: bit_imp_le_length)

lemma bit_be_word_be_bytes:
  "bit (be_word (be_bytes n w) :: 'a::len word) k \<longleftrightarrow> k < 8 * n \<and> bit (w :: 'a word) k"
proof (induction n)
  case 0
  then show ?case by simp
next
  case (Suc n)
  show ?case
    by (auto simp: be_bytes_Suc be_word_Cons bit_simps Suc.IH dest: bit_imp_le_length)
qed

lemma be_word_be_bytes: "LENGTH('a::len) \<le> 8 * n \<Longrightarrow> be_word (be_bytes n w) = (w :: 'a word)"
  by (rule bit_word_eqI) (auto simp: bit_be_word_be_bytes)

lemma be_bytes_be_word:
  "length bs = n \<Longrightarrow> 8 * n \<le> LENGTH('a::len) \<Longrightarrow> be_bytes n (be_word bs :: 'a word) = bs"
proof (induction bs arbitrary: n)
  case Nil
  then show ?case by simp
next
  case (Cons b bs)
  then obtain m where n: "n = Suc m" "length bs = m" by (cases n) auto
  have hd: "ucast (drop_bit (8 * m) (be_word (b # bs) :: 'a word)) = b"
    using Cons.prems n by (intro bit_word_eqI) (auto simp: be_word_Cons bit_simps bit_be_word_high)
  have low: "be_bytes m (be_word (b # bs) :: 'a word) = be_bytes m (be_word bs :: 'a word)"
    unfolding be_bytes_def
    using n by (intro map_cong refl bit_word_eqI) (auto simp: be_word_Cons bit_simps)
  show ?case using Cons n hd low by (simp add: be_bytes_Suc)
qed

lemma be_word_simps [simp]:
  "be_word (be16 w) = w" "be_word (be32 v) = v" "be_word (be64 x) = x"
  "be_word (be_bytes 16 y) = (y :: 128 word)" "be_word (be_bytes 32 z) = (z :: 256 word)"
  "be_word (be_bytes 34 u) = (u :: 272 word)"
  by (simp_all add: be_word_be_bytes)

lemma be_bytes_simps [simp]:
  "length bs = 2 \<Longrightarrow> be16 (be_word bs) = bs"
  "length bs = 4 \<Longrightarrow> be32 (be_word bs) = bs"
  "length bs = 8 \<Longrightarrow> be64 (be_word bs) = bs"
  by (simp_all add: be_bytes_be_word)

lemma be_bytes_inj: "LENGTH('a::len) \<le> 8 * n \<Longrightarrow> be_bytes n v = be_bytes n (w :: 'a word) \<longleftrightarrow> v = w"
  by (metis be_word_be_bytes)

lemma unat_u16: "n < 65536 \<Longrightarrow> unat (u16 n) = n"
  by (simp add: unat_of_nat)

lemma unat_u32: "n < 4294967296 \<Longrightarrow> unat (u32 n) = n"
  by (simp add: unat_of_nat)

lemma unat_u8: "n < 256 \<Longrightarrow> unat (u8 n) = n"
  by (simp add: unat_of_nat)

lemma unat_16_less: "unat (w :: 16 word) < 65536"
  by (rule order_less_le_trans [OF unsigned_less]) simp

lemma unat_32_less: "unat (w :: 32 word) < 4294967296"
  by (rule order_less_le_trans [OF unsigned_less]) simp

lemma unat_8_less: "unat (w :: byte) < 256"
  by (rule order_less_le_trans [OF unsigned_less]) simp

section \<open>Readers\<close>

text \<open>
  A network connection or file being read is the list of byte sequences its successive \<^verbatim>\<open>Read\<close>
  calls have to offer, none of them empty.  \<open>read_once k\<close> is one \<^verbatim>\<open>Read\<close> into \<open>k\<close> bytes,
  \<open>read_full n\<close> is \<^verbatim>\<open>io.ReadFull\<close> of \<open>n\<close> bytes (\<^verbatim>\<open>binary.Read\<close> of a fixed-size value is the
  same call): it fails with EOF when nothing was there and with ErrUnexpectedEOF when too little
  was.
\<close>

fun read_once :: "nat \<Rightarrow> bytes list \<Rightarrow> (bytes \<times> bytes list) option" where
  "read_once k [] = None"
| "read_once k (c # cs) = Some (take k c, if k < length c then drop k c # cs else cs)"

fun read_full :: "nat \<Rightarrow> bytes list \<Rightarrow> (bytes \<times> bytes list) outcome" where
  "read_full n [] = (if n = 0 then Ok ([], []) else Err EOF)"
| "read_full n (c # cs) =
     (if n = 0 then Ok ([], c # cs)
      else if n < length c then Ok (take n c, drop n c # cs)
      else case read_full (n - length c) cs of
          Ok (b, rest) \<Rightarrow> Ok (c @ b, rest)
        | Err e \<Rightarrow> Err (if c = [] then e else UnexpectedEOF)
        | Panic \<Rightarrow> Panic)"

lemma read_full_Ok:
  "n \<le> length (concat cs) \<Longrightarrow>
   \<exists>rest. read_full n cs = Ok (take n (concat cs), rest) \<and> concat rest = drop n (concat cs)"
proof (induction n cs rule: read_full.induct)
  case (2 n c cs)
  consider "n = 0" | "n \<noteq> 0" "n < length c" | "n \<noteq> 0" "length c \<le> n" by linarith
  then show ?case
  proof cases
    case 3
    then have "n - length c \<le> length (concat cs)" using "2.prems" by simp
    with 3 obtain rest where "read_full (n - length c) cs = Ok (take (n - length c) (concat cs), rest)"
      "concat rest = drop (n - length c) (concat cs)"
      using "2.IH" by auto
    with 3 show ?thesis by simp
  qed auto
qed auto

lemma read_full_append:
  "concat cs = b @ r \<Longrightarrow> length b = n \<Longrightarrow> \<exists>rest. read_full n cs = Ok (b, rest) \<and> concat rest = r"
  using read_full_Ok[of n cs] by auto

lemma read_full_no_panic: "read_full n cs \<noteq> Panic"
  by (induction n cs rule: read_full.induct) (auto split: outcome.splits)

lemma read_full_short: "length (concat cs) < n \<Longrightarrow> \<exists>e. read_full n cs = Err e"
proof (induction n cs rule: read_full.induct)
  case (2 n c cs)
  then have "\<exists>e. read_full (n - length c) cs = Err e" by auto
  with "2.prems" show ?case by auto
qed auto

section \<open>Go maps\<close>

text \<open>
  A Go map is an association list with distinct keys: \<open>map_of\<close> is the lookup with its comma-ok
  form, \<open>mput\<close> the assignment \<^verbatim>\<open>m[k] = v\<close>, \<open>mdel\<close> the built-in \<^verbatim>\<open>delete\<close>.  Go does not fix the
  order of a \<^verbatim>\<open>range\<close> over a map: the model takes the order of the list, and no theorem relies on
  it where the code does not sort.
\<close>

type_synonym ('k, 'v) gmap = "('k \<times> 'v) list"

abbreviation mput :: "'k \<Rightarrow> 'v \<Rightarrow> ('k, 'v) gmap \<Rightarrow> ('k, 'v) gmap" where
  "mput \<equiv> AList.update"

abbreviation mdel :: "'k \<Rightarrow> ('k, 'v) gmap \<Rightarrow> ('k, 'v) gmap" where
  "mdel \<equiv> AList.delete"

definition wf_map :: "('k, 'v) gmap \<Rightarrow> bool" where
  "wf_map m \<longleftrightarrow> distinct (map fst m)"

named_theorems gmap \<open>lookups and well-formedness of Go maps after an operation\<close>

lemma wf_map_Nil [simp, gmap]: "wf_map []"
  by (simp add: wf_map_def)

lemma wf_map_mput [simp, gmap]: "wf_map m \<Longrightarrow> wf_map (mput k v m)"
  by (simp add: wf_map_def distinct_update)

lemma wf_map_mdel [simp, gmap]: "wf_map m \<Longrightarrow> wf_map (mdel k m)"
  by (simp add: wf_map_def distinct_delete)

lemma map_of_mput [simp, gmap]: "map_of (mput k v m) = (map_of m)(k \<mapsto> v)"
  by (rule update_conv')

lemma map_of_mdel [simp, gmap]: "map_of (mdel k m) = (map_of m)(k := None)"
  by (rule delete_conv')

lemma wf_map_map_of: "wf_map m \<Longrightarrow> (k, v) \<in> set m \<longleftrightarrow> map_of m k = Some v"
  by (auto simp: wf_map_def intro: map_of_is_SomeI dest: map_of_SomeD)

lemma set_mput: "wf_map m \<Longrightarrow> set (mput k v m) = {(k, v)} \<union> {p \<in> set m. fst p \<noteq> k}"
  by (auto simp: wf_map_map_of wf_map_mput split: if_splits)

lemma set_mdel: "set (mdel k m) = {p \<in> set m. fst p \<noteq> k}"
  by (auto simp: AList.delete_eq)

section \<open>\<^verbatim>\<open>readFrom\<close> and the loops over a reader\<close>

text \<open>
  One \<^verbatim>\<open>Read(p)\<close> with \<open>len(p) = n\<close>: the bytes copied into \<open>p\<close>, the error, the new offset.
\<close>

definition readFrom :: "nat \<Rightarrow> nat \<Rightarrow> bytes \<Rightarrow> (bytes \<times> go_error option) \<times> nat" where
  "readFrom n off dat =
     (if length dat \<le> off then (([], Some EOF), off)
      else let b = take n (drop off dat) in ((b, None), off + length b))"

text \<open>
  \<^verbatim>\<open>io.ReadAll\<close> and \<^verbatim>\<open>io.Copy\<close> call \<^verbatim>\<open>Read\<close> until it reports the end of the data.  The \<open>k\<close>-th
  call offers a buffer of \<open>Suc (sz k)\<close> bytes: never an empty one, otherwise of any size.
\<close>

function drain :: "(nat \<Rightarrow> nat) \<Rightarrow> nat \<Rightarrow> nat \<Rightarrow> bytes \<Rightarrow> bytes \<times> nat" where
  "drain sz k off dat =
     (case readFrom (Suc (sz k)) off dat of
        ((b, Some e), off') \<Rightarrow> ([], off')
      | ((b, None), off') \<Rightarrow> (let (r, o') = drain sz (Suc k) off' dat in (b @ r, o')))"
  by pat_completeness auto
termination
  by (relation "measure (\<lambda>(sz, k, off, dat). length dat - off)")
    (auto simp: readFrom_def Let_def split: if_splits)

declare drain.simps [simp del]

lemma drain_eq: "drain sz k off dat = (drop off dat, max off (length dat))"
proof (induction sz k off dat rule: drain.induct)
  case (1 sz k off dat)
  show ?case
  proof (cases "length dat \<le> off")
    case True
    then show ?thesis by (simp add: drain.simps[of sz k off dat] readFrom_def)
  next
    case False
    define b where "b = take (Suc (sz k)) (drop off dat)"
    have rf: "readFrom (Suc (sz k)) off dat = ((b, None), off + length b)"
      using False by (simp add: readFrom_def Let_def b_def)
    have ih: "drain sz (Suc k) (off + length b) dat =
        (drop (off + length b) dat, max (off + length b) (length dat))"
      using "1.IH"[OF rf[symmetric]] by simp
    have le: "off + length b \<le> length dat"
      using False by (simp add: b_def)
    have "b @ drop (off + length b) dat = b @ drop (length b) (drop off dat)"
      by (simp add: add.commute)
    also have "\<dots> = drop off dat"
      unfolding b_def by (metis append_eq_conv_conj append_take_drop_id)
    finally have app: "b @ drop (off + length b) dat = drop off dat" .
    show ?thesis
      using False le by (simp add: drain.simps[of sz k off dat] rf ih app)
  qed
qed

end
