(* ===== verification/HL_Access.thy ===== *)
theory HL_Access
  imports HL_Base
begin

text \<open>
  \<^verbatim>\<open>hotline/access.go\<close>: the 64-bit map of an account's privileges and its two YAML forms.
\<close>

section \<open>Privileges\<close>

abbreviation (input) AccessDeleteFile :: nat where "AccessDeleteFile \<equiv> 0"
abbreviation (input) AccessUploadFile :: nat where "AccessUploadFile \<equiv> 1"
abbreviation (input) AccessDownloadFile :: nat where "AccessDownloadFile \<equiv> 2"
abbreviation (input) AccessRenameFile :: nat where "AccessRenameFile \<equiv> 3"
abbreviation (input) AccessMoveFile :: nat where "AccessMoveFile \<equiv> 4"
abbreviation (input) AccessCreateFolder :: nat where "AccessCreateFolder \<equiv> 5"
abbreviation (input) AccessDeleteFolder :: nat where "AccessDeleteFolder \<equiv> 6"
abbreviation (input) AccessRenameFolder :: nat where "AccessRenameFolder \<equiv> 7"
abbreviation (input) AccessMoveFolder :: nat where "AccessMoveFolder \<equiv> 8"
abbreviation (input) AccessReadChat :: nat where "AccessReadChat \<equiv> 9"
abbreviation (input) AccessSendChat :: nat where "AccessSendChat \<equiv> 10"
abbreviation (input) AccessOpenChat :: nat where "AccessOpenChat \<equiv> 11"
abbreviation (input) AccessCloseChat :: nat where "AccessCloseChat \<equiv> 12"
abbreviation (input) AccessShowInList :: nat where "AccessShowInList \<equiv> 13"
abbreviation (input) AccessCreateUser :: nat where "AccessCreateUser \<equiv> 14"
abbreviation (input) AccessDeleteUser :: nat where "AccessDeleteUser \<equiv> 15"
abbreviation (input) AccessOpenUser :: nat where "AccessOpenUser \<equiv> 16"
abbreviation (input) AccessModifyUser :: nat where "AccessModifyUser \<equiv> 17"
abbreviation (input) AccessChangeOwnPass :: nat where "AccessChangeOwnPass \<equiv> 18"
abbreviation (input) AccessNewsReadArt :: nat where "AccessNewsReadArt \<equiv> 20"
abbreviation (input) AccessNewsPostArt :: nat where "AccessNewsPostArt \<equiv> 21"
abbreviation (input) AccessDisconUser :: nat where "AccessDisconUser \<equiv> 22"
abbreviation (input) AccessCannotBeDiscon :: nat where "AccessCannotBeDiscon \<equiv> 23"
abbreviation (input) AccessGetClientInfo :: nat where "AccessGetClientInfo \<equiv> 24"
abbreviation (input) AccessUploadAnywhere :: nat where "AccessUploadAnywhere \<equiv> 25"
abbreviation (input) AccessAnyName :: nat where "AccessAnyName \<equiv> 26"
abbreviation (input) AccessNoAgreement :: nat where "AccessNoAgreement \<equiv> 27"
abbreviation (input) AccessSetFileComment :: nat where "AccessSetFileComment \<equiv> 28"
abbreviation (input) AccessSetFolderComment :: nat where "AccessSetFolderComment \<equiv> 29"
abbreviation (input) AccessViewDropBoxes :: nat where "AccessViewDropBoxes \<equiv> 30"
abbreviation (input) AccessMakeAlias :: nat where "AccessMakeAlias \<equiv> 31"
abbreviation (input) AccessBroadcast :: nat where "AccessBroadcast \<equiv> 32"
abbreviation (input) AccessNewsDeleteArt :: nat where "AccessNewsDeleteArt \<equiv> 33"
abbreviation (input) AccessNewsCreateCat :: nat where "AccessNewsCreateCat \<equiv> 34"
abbreviation (input) AccessNewsDeleteCat :: nat where "AccessNewsDeleteCat \<equiv> 35"
abbreviation (input) AccessNewsCreateFldr :: nat where "AccessNewsCreateFldr \<equiv> 36"
abbreviation (input) AccessNewsDeleteFldr :: nat where "AccessNewsDeleteFldr \<equiv> 37"
abbreviation (input) AccessUploadFolder :: nat where "AccessUploadFolder \<equiv> 38"
abbreviation (input) AccessDownloadFolder :: nat where "AccessDownloadFolder \<equiv> 39"
abbreviation (input) AccessSendPrivMsg :: nat where "AccessSendPrivMsg \<equiv> 40"

section \<open>The bitmap\<close>

text \<open>
  \<^verbatim>\<open>[8]byte\<close>, read big-endian as a 64-bit word.  Both operations address byte \<open>i / 8\<close>, where an
  index of 64 or more would be out of range: the code only passes the constants above and loop
  indices below 64.
\<close>

type_synonym AccessBitmap = "64 word"

definition AccessBitmap_Set :: "nat \<Rightarrow> AccessBitmap \<Rightarrow> AccessBitmap" where
  "AccessBitmap_Set i bits =
     (let bs = be64 bits in be_word (bs[i div 8 := bs ! (i div 8) OR push_bit (7 - i mod 8) 1]))"

definition AccessBitmap_IsSet :: "AccessBitmap \<Rightarrow> nat \<Rightarrow> bool" where
  "AccessBitmap_IsSet bits i \<longleftrightarrow> be64 bits ! (i div 8) AND push_bit (7 - i mod 8) 1 \<noteq> 0"

text \<open>\<^verbatim>\<open>copy(bits[:], data)\<close>, as the account handlers do with the bitmap a client sends.\<close>

definition copy_access :: "AccessBitmap \<Rightarrow> bytes \<Rightarrow> AccessBitmap" where
  "copy_access bits d = be_word (copy_into (be64 bits) d)"

lemma be64_nth: "k < 8 \<Longrightarrow> be64 b ! k = ucast (drop_bit (8 * (7 - k)) b)"
  by (simp add: be_bytes_def rev_nth)

lemma bit_be64_nth: "k < 8 \<Longrightarrow> j < 8 \<Longrightarrow> bit (be64 b ! k) j \<longleftrightarrow> bit b (8 * (7 - k) + j)"
  by (simp add: be64_nth bit_simps)

lemma and_bit_neq_0: "(x :: byte) AND push_bit j 1 \<noteq> 0 \<longleftrightarrow> bit x j"
  by (simp add: and_exp_eq_0_iff_not_bit)

lemma IsSet_bit_byte: "AccessBitmap_IsSet b i \<longleftrightarrow> bit (be64 b ! (i div 8)) (7 - i mod 8)"
  unfolding AccessBitmap_IsSet_def by (rule and_bit_neq_0)

lemma IsSet_bit: "i < 64 \<Longrightarrow> AccessBitmap_IsSet b i \<longleftrightarrow> bit b (63 - i)"
proof -
  assume i: "i < 64"
  have "8 * (7 - i div 8) + (7 - i mod 8) = 63 - i"
    using i by presburger
  moreover have "i div 8 < 8" using i by presburger
  ultimately show ?thesis
    unfolding IsSet_bit_byte by (subst bit_be64_nth) auto
qed

lemma be64_inj: "be64 a = be64 b \<longleftrightarrow> a = b"
  by (simp add: be_bytes_inj)

lemma be64_Set: "be64 (AccessBitmap_Set i b) =
    (be64 b)[i div 8 := be64 b ! (i div 8) OR push_bit (7 - i mod 8) 1]"
  by (simp add: AccessBitmap_Set_def Let_def)

lemma IsSet_Set: "i < 64 \<Longrightarrow> j < 64 \<Longrightarrow>
    AccessBitmap_IsSet (AccessBitmap_Set i b) j \<longleftrightarrow> j = i \<or> AccessBitmap_IsSet b j"
proof -
  assume ij: "i < 64" "j < 64"
  have lt: "i div 8 < 8" using ij by presburger
  show ?thesis
  proof (cases "j div 8 = i div 8")
    case True
    have "j mod 8 = i mod 8 \<longleftrightarrow> j = i"
      using True by (metis div_mult_mod_eq)
    moreover have "i mod 8 < 8" "j mod 8 < 8" by simp_all
    ultimately have "7 - i mod 8 = 7 - j mod 8 \<longleftrightarrow> j = i" by arith
    then show ?thesis
      unfolding IsSet_bit_byte be64_Set
      using lt by (auto simp: True bit_or_iff bit_exp_iff)
  next
    case False
    then have "j \<noteq> i" by auto
    then show ?thesis using False by (simp add: IsSet_bit_byte be64_Set)
  qed
qed

lemma access_eqI: "(\<And>i. i < 64 \<Longrightarrow> AccessBitmap_IsSet a i = AccessBitmap_IsSet b i) \<Longrightarrow> a = b"
proof (rule bit_word_eqI)
  fix n assume eq: "\<And>i. i < 64 \<Longrightarrow> AccessBitmap_IsSet a i = AccessBitmap_IsSet b i"
    and n: "n < LENGTH(64)"
  then show "bit a n = bit b n"
    using eq[of "63 - n"] by (simp add: IsSet_bit)
qed

lemma IsSet_0 [simp]: "i < 64 \<Longrightarrow> \<not> AccessBitmap_IsSet 0 i"
  by (simp add: IsSet_bit)

section \<open>YAML forms\<close>

text \<open>
  What the YAML library hands to \<^verbatim>\<open>UnmarshalYAML\<close> as an \<^verbatim>\<open>interface{}\<close>: a sequence, a mapping with
  string keys, or something else.
\<close>

datatype yaml_scalar = YInt int | YBool bool | YStr bytes | YNull

datatype yaml_node = YSeq "yaml_scalar list" | YMap "(string \<times> yaml_scalar) list" | YOther

definition accessMap :: "(string \<times> nat) list" where
  "accessMap =
    [(''DeleteFile'', AccessDeleteFile),
     (''UploadFile'', AccessUploadFile),
     (''DownloadFile'', AccessDownloadFile),
     (''RenameFile'', AccessRenameFile),
     (''MoveFile'', AccessMoveFile),
     (''CreateFolder'', AccessCreateFolder),
     (''DeleteFolder'', AccessDeleteFolder),
     (''RenameFolder'', AccessRenameFolder),
     (''MoveFolder'', AccessMoveFolder),
     (''ReadChat'', AccessReadChat),
     (''SendChat'', AccessSendChat),
     (''OpenChat'', AccessOpenChat),
     (''CloseChat'', AccessCloseChat),
     (''ShowInList'', AccessShowInList),
     (''CreateUser'', AccessCreateUser),
     (''DeleteUser'', AccessDeleteUser),
     (''OpenUser'', AccessOpenUser),
     (''ModifyUser'', AccessModifyUser),
     (''ChangeOwnPass'', AccessChangeOwnPass),
     (''NewsReadArt'', AccessNewsReadArt),
     (''NewsPostArt'', AccessNewsPostArt),
     (''DisconnectUser'', AccessDisconUser),
     (''CannotBeDisconnected'', AccessCannotBeDiscon),
     (''GetClientInfo'', AccessGetClientInfo),
     (''UploadAnywhere'', AccessUploadAnywhere),
     (''AnyName'', AccessAnyName),
     (''NoAgreement'', AccessNoAgreement),
     (''SetFileComment'', AccessSetFileComment),
     (''SetFolderComment'', AccessSetFolderComment),
     (''ViewDropBoxes'', AccessViewDropBoxes),
     (''MakeAlias'', AccessMakeAlias),
     (''Broadcast'', AccessBroadcast),
     (''NewsDeleteArt'', AccessNewsDeleteArt),
     (''NewsCreateCat'', AccessNewsCreateCat),
     (''NewsDeleteCat'', AccessNewsDeleteCat),
     (''NewsCreateFldr'', AccessNewsCreateFldr),
     (''NewsDeleteFldr'', AccessNewsDeleteFldr),
     (''SendPrivMsg'', AccessSendPrivMsg),
     (''UploadFolder'', AccessUploadFolder),
     (''DownloadFolder'', AccessDownloadFolder)]"

text \<open>The old format: \<^verbatim>\<open>bits[i] = byte(v.(int))\<close> for each element; it panics past the eighth or at
  an element that is not an integer.\<close>

fun set_bytes :: "nat \<Rightarrow> yaml_scalar list \<Rightarrow> bytes \<Rightarrow> bytes outcome" where
  "set_bytes i [] bs = Ok bs"
| "set_bytes i (v # vs) bs =
     (case v of
        YInt n \<Rightarrow> if i < length bs then set_bytes (Suc i) vs (bs[i := word_of_int n]) else Panic
      | _ \<Rightarrow> Panic)"

definition AccessBitmap_UnmarshalYAML :: "yaml_node \<Rightarrow> AccessBitmap \<Rightarrow> AccessBitmap outcome" where
  "AccessBitmap_UnmarshalYAML flags bits =
     (case flags of
        YSeq vs \<Rightarrow> obind (set_bytes 0 vs (be64 bits)) (\<lambda>bs. Ok (be_word bs))
      | YMap m \<Rightarrow> Ok (fold (\<lambda>(key, accessBit) b.
            if map_of m key = Some (YBool True) then AccessBitmap_Set accessBit b else b)
          accessMap bits)
      | YOther \<Rightarrow> Ok bits)"

text \<open>The fields \<^verbatim>\<open>MarshalYAML\<close> fills, with the privilege each one shows.\<close>

definition accessFlags :: "(string \<times> nat) list" where
  "accessFlags =
    [(''DownloadFile'', AccessDownloadFile),
     (''DownloadFolder'', AccessDownloadFolder),
     (''UploadFolder'', AccessUploadFolder),
     (''DeleteFile'', AccessDeleteFile),
     (''UploadFile'', AccessUploadFile),
     (''RenameFile'', AccessRenameFile),
     (''MoveFile'', AccessMoveFile),
     (''CreateFolder'', AccessCreateFolder),
     (''DeleteFolder'', AccessDeleteFolder),
     (''RenameFolder'', AccessRenameFolder),
     (''MoveFolder'', AccessMoveFolder),
     (''ReadChat'', AccessReadChat),
     (''SendChat'', AccessSendChat),
     (''OpenChat'', AccessOpenChat),
     (''CloseChat'', AccessCloseChat),
     (''ShowInList'', AccessShowInList),
     (''CreateUser'', AccessCreateUser),
     (''DeleteUser'', AccessDeleteUser),
     (''OpenUser'', AccessOpenUser),
     (''ModifyUser'', AccessModifyUser),
     (''ChangeOwnPass'', AccessChangeOwnPass),
     (''NewsReadArt'', AccessNewsReadArt),
     (''NewsPostArt'', AccessNewsPostArt),
     (''DisconnectUser'', AccessDisconUser),
     (''CannotBeDisconnected'', AccessCannotBeDiscon),
     (''GetClientInfo'', AccessGetClientInfo),
     (''UploadAnywhere'', AccessUploadAnywhere),
     (''AnyName'', AccessAnyName),
     (''NoAgreement'', AccessNoAgreement),
     (''SetFileComment'', AccessSetFileComment),
     (''SetFolderComment'', AccessSetFolderComment),
     (''ViewDropBoxes'', AccessViewDropBoxes),
     (''MakeAlias'', AccessMakeAlias),
     (''Broadcast'', AccessBroadcast),
     (''NewsDeleteArt'', AccessNewsDeleteArt),
     (''NewsCreateCat'', AccessNewsCreateCat),
     (''NewsDeleteCat'', AccessNewsDeleteCat),
     (''NewsCreateFldr'', AccessNewsCreateFldr),
     (''NewsDeleteFldr'', AccessNewsDeleteFldr),
     (''SendPrivMsg'', AccessSendPrivMsg)]"

definition AccessBitmap_MarshalYAML :: "AccessBitmap \<Rightarrow> (string \<times> bool) list" where
  "AccessBitmap_MarshalYAML bits = map (\<lambda>(key, i). (key, AccessBitmap_IsSet bits i)) accessFlags"

definition yaml_of_flags :: "(string \<times> bool) list \<Rightarrow> yaml_node" where
  "yaml_of_flags fs = YMap (map (\<lambda>(k, v). (k, YBool v)) fs)"

definition named_access :: "nat set" where
  "named_access = snd ` set accessMap"

lemma accessMap_ok: "\<forall>p \<in> set accessMap. snd p < 64 \<and> map_of accessFlags (fst p) = Some (snd p)"
  by (simp add: accessMap_def accessFlags_def)

lemma map_of_marshal: "map_of (map (\<lambda>(k, v). (k, YBool v)) (map (\<lambda>(key, i). (key, f i)) xs)) k =
    map_option (\<lambda>i. YBool (f i)) (map_of xs k)"
  by (induction xs) auto

lemma IsSet_fold_Set:
  "\<forall>p \<in> set xs. snd p < 64 \<Longrightarrow> j < 64 \<Longrightarrow>
   AccessBitmap_IsSet (fold (\<lambda>(key, i) b. if P key then AccessBitmap_Set i b else b) xs b0) j \<longleftrightarrow>
   AccessBitmap_IsSet b0 j \<or> (\<exists>(key, i) \<in> set xs. P key \<and> i = j)"
  by (induction xs arbitrary: b0) (auto simp: IsSet_Set split: if_splits)

text \<open>C30: writing an account's privileges to YAML and reading them back keeps every privilege the
  file format names and sets no other.\<close>

theorem access_yaml_roundtrip:
  "\<exists>b. AccessBitmap_UnmarshalYAML (yaml_of_flags (AccessBitmap_MarshalYAML bits)) 0 = Ok b \<and>
    (\<forall>i < 64. AccessBitmap_IsSet b i \<longleftrightarrow> AccessBitmap_IsSet bits i \<and> i \<in> named_access)"
proof -
  let ?m = "map (\<lambda>(k, v). (k, YBool v)) (AccessBitmap_MarshalYAML bits)"
  let ?P = "\<lambda>key. map_of ?m key = Some (YBool True)"
  let ?b = "fold (\<lambda>(key, i) b. if ?P key then AccessBitmap_Set i b else b) accessMap 0"
  have unmarshal: "AccessBitmap_UnmarshalYAML (yaml_of_flags (AccessBitmap_MarshalYAML bits)) 0 = Ok ?b"
    by (simp add: AccessBitmap_UnmarshalYAML_def yaml_of_flags_def)
  have P: "?P (fst p) \<longleftrightarrow> AccessBitmap_IsSet bits (snd p)" if "p \<in> set accessMap" for p
    unfolding AccessBitmap_MarshalYAML_def map_of_marshal using accessMap_ok that by auto
  have "AccessBitmap_IsSet ?b i \<longleftrightarrow> AccessBitmap_IsSet bits i \<and> i \<in> named_access" if "i < 64" for i
  proof -
    have "AccessBitmap_IsSet ?b i \<longleftrightarrow> (\<exists>p \<in> set accessMap. ?P (fst p) \<and> snd p = i)"
      using IsSet_fold_Set[of accessMap i ?P 0] accessMap_ok that by (simp add: split_beta)
    also have "\<dots> \<longleftrightarrow> AccessBitmap_IsSet bits i \<and> i \<in> named_access"
      unfolding named_access_def using P by auto
    finally show ?thesis .
  qed
  with unmarshal show ?thesis by blast
qed

theorem access_yaml_roundtrip_witness:
  "\<exists>b. AccessBitmap_UnmarshalYAML (yaml_of_flags (AccessBitmap_MarshalYAML
      (AccessBitmap_Set AccessReadChat 0))) 0 = Ok b \<and>
    AccessBitmap_IsSet b AccessReadChat \<and> \<not> AccessBitmap_IsSet b AccessSendChat"
proof -
  have n: "9 \<in> named_access" by (simp add: named_access_def accessMap_def)
  show ?thesis
    using access_yaml_roundtrip[of "AccessBitmap_Set 9 0"] n
    by (auto simp: IsSet_Set)
qed

end
