(* ===== verification/HL_Scanner.thy ===== *)
theory HL_Scanner
  imports HL_Base
begin

text \<open>
  \<^verbatim>\<open>bufio.Scanner\<close> of the Go standard library, as far as the code uses it: \<^verbatim>\<open>NewScanner\<close>,
  \<^verbatim>\<open>Split\<close>, \<^verbatim>\<open>Scan\<close>, \<^verbatim>\<open>Bytes\<close>/\<^verbatim>\<open>Text\<close> and \<^verbatim>\<open>Err\<close>.  Every parser of the protocol runs over it: the
  transactions of a connection, the fields of a transaction, the segments of file and news
  paths.  The buffer starts at 4096 bytes, doubles up to 65536 and is compacted as in the
  library; a split function sees the unread part of the buffer and its capacity, because Go
  lets a slice expression reach past the length up to the capacity.

  The locale \<open>frames\<close> states what a split function promises for complete frames that lie in the
  buffer, \<open>stream_frames\<close> adds what it promises for an incomplete one.  The lemmas proved inside
  say that scanning returns exactly the frames of the input, for a stream whatever the sizes of
  the network reads.
\<close>

section \<open>The scanner\<close>

text \<open>
  \<open>sc_src\<close> is the reader: the byte sequences its successive \<^verbatim>\<open>Read\<close> calls have to offer.
  \<open>sc_buf\<close> is \<^verbatim>\<open>s.buf[s.start:s.end]\<close>, \<open>sc_cap\<close> is \<^verbatim>\<open>len(s.buf)\<close>.
\<close>

record scanner =
  sc_src :: "bytes list"
  sc_buf :: bytes
  sc_start :: nat
  sc_cap :: nat
  sc_err :: "go_error option"
  sc_tok :: slice
  sc_empties :: nat

text \<open>
  A split function takes the unread bytes and their capacity and returns the advance and the
  token.  None of the code's split functions looks at \<^verbatim>\<open>atEOF\<close>, which is left out.
\<close>

type_synonym split_func = "bytes \<Rightarrow> nat \<Rightarrow> (nat \<times> slice) outcome"

definition startBufSize :: nat where "startBufSize = 4096"
definition MaxScanTokenSize :: nat where "MaxScanTokenSize = 65536"
definition maxConsecutiveEmptyReads :: nat where "maxConsecutiveEmptyReads = 100"

definition NewScanner :: "bytes list \<Rightarrow> scanner" where
  "NewScanner src = \<lparr>sc_src = src, sc_buf = [], sc_start = 0, sc_cap = 0, sc_err = None,
     sc_tok = None, sc_empties = 0\<rparr>"

text \<open>\<^verbatim>\<open>bytes.NewReader(b)\<close> offers all of \<open>b\<close> to the first read, then EOF.\<close>

definition bytes_reader :: "bytes \<Rightarrow> bytes list" where
  "bytes_reader b = (if b = [] then [] else [b])"

definition setErr :: "go_error \<Rightarrow> scanner \<Rightarrow> scanner" where
  "setErr e s = (if sc_err s = None \<or> sc_err s = Some EOF then s\<lparr>sc_err := Some e\<rparr> else s)"

datatype attempt = Token scanner | Stop scanner | More scanner | Boom

text \<open>The first half of an iteration of \<^verbatim>\<open>Scan\<close>: try to split a token off the buffer.\<close>

definition try_split :: "split_func \<Rightarrow> scanner \<Rightarrow> attempt" where
  "try_split split s =
     (if sc_buf s = [] \<and> sc_err s = None then More s
      else case split (sc_buf s) (sc_cap s - sc_start s) of
        Panic \<Rightarrow> Boom
      | Err e \<Rightarrow> Stop (setErr e s)
      | Ok (adv, tok) \<Rightarrow>
          if length (sc_buf s) < adv then Stop (setErr AdvanceTooFar s)
          else
            let s1 = s\<lparr>sc_buf := drop adv (sc_buf s), sc_start := sc_start s + adv, sc_tok := tok\<rparr>
            in case tok of
                 None \<Rightarrow> More s1
               | Some _ \<Rightarrow>
                   if sc_err s = None \<or> 0 < adv then Token (s1\<lparr>sc_empties := 0\<rparr>)
                   else if maxConsecutiveEmptyReads < Suc (sc_empties s) then Boom
                   else Token (s1\<lparr>sc_empties := Suc (sc_empties s)\<rparr>))"

text \<open>Make room: compact the buffer, then double it if it is full (\<open>None\<close>: token too long).\<close>

definition compact :: "scanner \<Rightarrow> scanner" where
  "compact s =
     (if 0 < sc_start s \<and>
         (sc_start s + length (sc_buf s) = sc_cap s \<or> sc_cap s div 2 < sc_start s)
      then s\<lparr>sc_start := 0\<rparr> else s)"

definition make_room :: "scanner \<Rightarrow> scanner option" where
  "make_room s0 =
     (let s = compact s0 in
      if sc_start s + length (sc_buf s) = sc_cap s then
        if MaxScanTokenSize \<le> sc_cap s then None
        else Some (s\<lparr>sc_start := 0,
               sc_cap := min (if sc_cap s = 0 then startBufSize else 2 * sc_cap s) MaxScanTokenSize\<rparr>)
      else Some s)"

text \<open>One successful read into \<open>k\<close> bytes of free space; empty reads are retried.\<close>

fun read_some :: "nat \<Rightarrow> bytes list \<Rightarrow> nat \<Rightarrow> bytes \<times> go_error option \<times> bytes list" where
  "read_some loop [] k = ([], Some EOF, [])"
| "read_some loop ([] # cs) k =
     (if maxConsecutiveEmptyReads < Suc loop then ([], Some NoProgress, cs)
      else read_some (Suc loop) cs k)"
| "read_some loop (c # cs) k = (take k c, None, if k < length c then drop k c # cs else cs)"

definition fill :: "scanner \<Rightarrow> scanner" where
  "fill s =
     (case read_some 0 (sc_src s) (sc_cap s - (sc_start s + length (sc_buf s))) of
        (b, None, src) \<Rightarrow> s\<lparr>sc_buf := sc_buf s @ b, sc_src := src, sc_empties := 0\<rparr>
      | (b, Some e, src) \<Rightarrow> setErr e (s\<lparr>sc_src := src\<rparr>))"

lemma read_some_size:
  "0 < k \<Longrightarrow> read_some loop src k = (b, None, src') \<Longrightarrow>
   length (concat src') < length (concat src)"
proof (induction loop src k rule: read_some.induct)
  case (2 loop cs k)
  then show ?case by (auto split: if_splits)
next
  case (3 loop x xs cs k)
  then show ?case by (cases k) (auto split: if_splits)
qed auto

text \<open>
  \<^verbatim>\<open>Scan\<close>.  The guard \<open>end < cap\<close> before the read holds in every reachable state; the slice
  expression of the library would be out of range without it.
\<close>

function scan :: "split_func \<Rightarrow> scanner \<Rightarrow> (bool \<times> scanner) outcome" where
  "scan split s =
     (case try_split split s of
        Boom \<Rightarrow> Panic
      | Token s1 \<Rightarrow> Ok (True, s1)
      | Stop s1 \<Rightarrow> Ok (False, s1)
      | More s1 \<Rightarrow>
          if sc_err s1 \<noteq> None then Ok (False, s1\<lparr>sc_start := 0, sc_buf := []\<rparr>)
          else case make_room s1 of
            None \<Rightarrow> Ok (False, setErr TooLong (compact s1))
          | Some s2 \<Rightarrow>
              if sc_start s2 + length (sc_buf s2) < sc_cap s2 then scan split (fill s2) else Panic)"
  by pat_completeness auto
termination
proof (relation "measure (\<lambda>(split, s). if sc_err s = None then Suc (length (concat (sc_src s))) else 0)")
  show "wf (measure (\<lambda>(split :: split_func, s). if sc_err s = None then Suc (length (concat (sc_src s))) else 0))"
    by simp
next
  fix split :: split_func and s s1 s2
  assume a: "try_split split s = More s1" "\<not> sc_err s1 \<noteq> None" "make_room s1 = Some s2"
    "sc_start s2 + length (sc_buf s2) < sc_cap s2"
  have err: "sc_err s = None" and src1: "sc_src s1 = sc_src s"
    using a(1,2) by (auto simp: try_split_def Let_def split: if_splits outcome.splits option.splits)
  have src2: "sc_src s2 = sc_src s" and err2: "sc_err s2 = None"
    using a(2,3) src1 by (auto simp: make_room_def compact_def Let_def split: if_splits)
  define k where "k = sc_cap s2 - (sc_start s2 + length (sc_buf s2))"
  have "0 < k" using a(4) by (simp add: k_def)
  then have "sc_err (fill s2) = None \<Longrightarrow> length (concat (sc_src (fill s2))) < length (concat (sc_src s))"
    using src2 err2 read_some_size[of k 0 "sc_src s2"]
    by (auto simp: fill_def setErr_def k_def[symmetric] split: prod.splits option.splits if_splits)
  then show "((split, fill s2), (split, s)) \<in>
      measure (\<lambda>(split, s). if sc_err s = None then Suc (length (concat (sc_src s))) else 0)"
    using err by simp
qed

declare scan.simps [simp del]

text \<open>\<^verbatim>\<open>scanner.Bytes()\<close> and \<^verbatim>\<open>scanner.Err()\<close>.\<close>

definition scan_bytes :: "scanner \<Rightarrow> bytes" where
  "scan_bytes s = sl (sc_tok s)"

definition scan_error :: "scanner \<Rightarrow> go_error option" where
  "scan_error s = (if sc_err s = Some EOF then None else sc_err s)"

text \<open>\<^verbatim>\<open>for scanner.Scan() { ... }\<close>: the tokens of at most \<open>n\<close> calls, and the scanner after them.\<close>

fun scan_tokens :: "nat \<Rightarrow> split_func \<Rightarrow> scanner \<Rightarrow> (bytes list \<times> scanner) outcome" where
  "scan_tokens 0 split s = Ok ([], s)"
| "scan_tokens (Suc n) split s =
     obind (scan split s) (\<lambda>(more, s1).
       if more then obind (scan_tokens n split s1) (\<lambda>(ts, s2). Ok (scan_bytes s1 # ts, s2))
       else Ok ([], s1))"

section \<open>Well-formed scanners\<close>

text \<open>
  The bytes a scanner has still to deliver, and the invariant of every state between two calls
  of \<^verbatim>\<open>Scan\<close> on a reader that never returns an empty read.
\<close>

definition pending :: "scanner \<Rightarrow> bytes" where
  "pending s = sc_buf s @ concat (sc_src s)"

definition sc_ok :: "scanner \<Rightarrow> bool" where
  "sc_ok s \<longleftrightarrow> sc_start s + length (sc_buf s) \<le> sc_cap s \<and> sc_cap s \<le> MaxScanTokenSize \<and>
     sc_err s = None \<and> [] \<notin> set (sc_src s)"

lemma sc_ok_new [simp]: "[] \<notin> set src \<Longrightarrow> sc_ok (NewScanner src)"
  by (simp add: sc_ok_def NewScanner_def)

lemma pending_new [simp]: "pending (NewScanner src) = concat src"
  by (simp add: pending_def NewScanner_def)

lemma bytes_reader_simps [simp]: "concat (bytes_reader b) = b" "[] \<notin> set (bytes_reader b)"
  by (simp_all add: bytes_reader_def)

lemma make_room_ok:
  assumes "sc_ok s" "length (sc_buf s) < MaxScanTokenSize"
  obtains s2 where "make_room s = Some s2" "sc_ok s2" "sc_buf s2 = sc_buf s"
    "sc_src s2 = sc_src s" "sc_start s2 + length (sc_buf s2) < sc_cap s2"
proof -
  have cap: "sc_cap s \<le> 65536" "sc_start s + length (sc_buf s) \<le> sc_cap s"
    using assms by (auto simp: sc_ok_def MaxScanTokenSize_def)
  define c where "c = compact s"
  have c: "sc_buf c = sc_buf s" "sc_src c = sc_src s" "sc_err c = sc_err s" "sc_cap c = sc_cap s"
    "sc_start c + length (sc_buf c) \<le> sc_cap c"
    "sc_start c + length (sc_buf c) = sc_cap c \<longrightarrow> sc_start c = 0"
    using cap by (auto simp: c_def compact_def)
  show thesis
  proof (cases "sc_start c + length (sc_buf c) = sc_cap c")
    case True
    then have "sc_cap c < 65536"
      using c assms(2) by (simp add: MaxScanTokenSize_def)
    with True c assms(1) show thesis
      by (intro that[of "c\<lparr>sc_start := 0,
          sc_cap := min (if sc_cap c = 0 then startBufSize else 2 * sc_cap c) MaxScanTokenSize\<rparr>"])
        (auto simp: make_room_def c_def[symmetric] Let_def sc_ok_def MaxScanTokenSize_def
          startBufSize_def)
  next
    case False
    with c assms(1) show thesis
      by (intro that[of c])
        (auto simp: make_room_def c_def[symmetric] Let_def sc_ok_def MaxScanTokenSize_def)
  qed
qed

lemma make_room_shape:
  assumes "sc_ok s" "make_room s = Some s2"
  shows "sc_ok s2" "sc_buf s2 = sc_buf s" "sc_src s2 = sc_src s"
    "sc_start s2 + length (sc_buf s2) < sc_cap s2"
  using assms
  by (auto simp: make_room_def compact_def Let_def sc_ok_def MaxScanTokenSize_def startBufSize_def
      split: if_splits)

lemma fill_ok:
  assumes "sc_ok s" "sc_start s + length (sc_buf s) < sc_cap s" "sc_src s \<noteq> []"
  shows "sc_ok (fill s)" "pending (fill s) = pending s" "sc_cap (fill s) = sc_cap s"
    "sc_start (fill s) = sc_start s" "length (sc_buf s) < length (sc_buf (fill s))"
    "sc_src (fill s) = (let c = hd (sc_src s);
       k = sc_cap s - (sc_start s + length (sc_buf s))
     in if k < length c then drop k c # tl (sc_src s) else tl (sc_src s))"
    "sc_buf (fill s) = sc_buf s @ take (sc_cap s - (sc_start s + length (sc_buf s))) (hd (sc_src s))"
proof -
  obtain c cs where src: "sc_src s = c # cs" using assms(3) by (cases "sc_src s") auto
  then obtain x xs where cx: "c = x # xs" using assms(1) by (cases c) (auto simp: sc_ok_def)
  define k where "k = sc_cap s - (sc_start s + length (sc_buf s))"
  have k: "0 < k" "k + (sc_start s + length (sc_buf s)) = sc_cap s"
    using assms(2) by (auto simp: k_def)
  have fill: "fill s = s\<lparr>sc_buf := sc_buf s @ take k c,
      sc_src := (if k < length c then drop k c # cs else cs), sc_empties := 0\<rparr>"
    using src cx by (simp add: fill_def k_def)
  show "sc_ok (fill s)" "sc_cap (fill s) = sc_cap s" "sc_start (fill s) = sc_start s"
    using assms(1) src k by (auto simp: fill sc_ok_def)
  show "pending (fill s) = pending s"
    using src by (simp add: fill pending_def)
  show "length (sc_buf s) < length (sc_buf (fill s))"
    using cx k(1) by (simp add: fill)
  show "sc_src (fill s) = (let c = hd (sc_src s);
       k = sc_cap s - (sc_start s + length (sc_buf s))
     in if k < length c then drop k c # tl (sc_src s) else tl (sc_src s))"
    using src by (simp add: fill k_def[symmetric])
  show "sc_buf (fill s) = sc_buf s @ take (sc_cap s - (sc_start s + length (sc_buf s))) (hd (sc_src s))"
    using src by (simp add: fill k_def[symmetric])
qed

lemma longer_front:
  "b @ c = t @ r \<Longrightarrow> length t \<le> length b \<Longrightarrow> \<exists>r'. b = t @ r' \<and> r = r' @ c"
  by (auto simp: append_eq_append_conv2)

lemma shorter_front:
  "b @ c = t @ r \<Longrightarrow> length b < length t \<Longrightarrow> \<exists>y. t = b @ y \<and> y \<noteq> []"
  by (auto simp: append_eq_append_conv2)

text \<open>
  A parser over bytes in memory: \<open>holds s d\<close> says that \<open>d\<close> is what is left, either in the buffer
  of a scanner that has begun or in the reader of a fresh one, small enough for the first buffer.
\<close>

definition holds :: "scanner \<Rightarrow> bytes \<Rightarrow> bool" where
  "holds s d \<longleftrightarrow> sc_ok s \<and> (sc_buf s = d \<and> sc_src s = [] \<or>
     s = NewScanner (bytes_reader d) \<and> length d \<le> startBufSize)"

lemma holds_new: "length d \<le> startBufSize \<Longrightarrow> holds (NewScanner (bytes_reader d)) d"
  by (simp add: holds_def)

section \<open>Split functions that deliver frames\<close>

text \<open>
  What a split function promises when a whole frame lies at the front of the buffer: it returns
  the frame's payload and advances past it.
\<close>

locale frames =
  fixes split :: split_func
    and frame :: "bytes \<Rightarrow> bool"
    and payload :: "bytes \<Rightarrow> bytes"
  assumes frame_nonempty: "frame t \<Longrightarrow> t \<noteq> []"
    and split_frame: "frame t \<Longrightarrow> length (t @ r) \<le> cap \<Longrightarrow>
      split (t @ r) cap = Ok (length t, Some (payload t))"
    and split_empty: "split [] cap = Ok (0, None)"
begin

lemma scan_buffered:
  assumes "sc_ok s" "frame t" "sc_buf s = t @ r"
  shows "\<exists>s'. scan split s = Ok (True, s') \<and> sc_ok s' \<and> scan_bytes s' = payload t \<and>
    sc_buf s' = r \<and> sc_src s' = sc_src s \<and> sc_cap s' = sc_cap s"
proof -
  have "length (t @ r) \<le> sc_cap s - sc_start s"
    using assms(1,3) by (auto simp: sc_ok_def)
  then have "split (sc_buf s) (sc_cap s - sc_start s) = Ok (length t, Some (payload t))"
    using assms(2,3) split_frame by simp
  moreover have "sc_buf s \<noteq> []" "sc_err s = None"
    using assms frame_nonempty by (auto simp: sc_ok_def)
  ultimately show ?thesis
    using assms(1,3)
    by (subst scan.simps) (auto simp: try_split_def Let_def sc_ok_def scan_bytes_def)
qed

text \<open>At the end of the input \<^verbatim>\<open>Scan\<close> returns false, with no token and no error to report.\<close>

lemma scan_end:
  assumes "sc_ok s" "pending s = []"
  shows "\<exists>s'. scan split s = Ok (False, s') \<and> sc_tok s' = None \<and> scan_error s' = None"
proof -
  have s: "sc_buf s = []" "sc_src s = []" "sc_err s = None"
    using assms by (cases "sc_src s"; force simp: pending_def sc_ok_def)+
  obtain s2 where s2: "make_room s = Some s2" "sc_ok s2" "sc_buf s2 = []" "sc_src s2 = []"
    "sc_start s2 + length (sc_buf s2) < sc_cap s2"
    using make_room_ok[OF assms(1)] s by (metis MaxScanTokenSize_def list.size(3) zero_less_numeral)
  define f where "f = fill s2"
  have f: "sc_buf f = []" "sc_err f = Some EOF" "sc_src f = []"
    using s2 by (auto simp: f_def fill_def setErr_def sc_ok_def)
  have "scan split f = Ok (False, f\<lparr>sc_tok := None, sc_start := 0, sc_buf := []\<rparr>)"
    using f split_empty by (subst scan.simps) (simp add: try_split_def Let_def)
  then have "scan split s = Ok (False, f\<lparr>sc_tok := None, sc_start := 0, sc_buf := []\<rparr>)"
    using s s2 by (subst scan.simps) (simp add: try_split_def f_def)
  then show ?thesis using f by (simp add: scan_error_def)
qed

lemma scan_holds:
  assumes "holds s (t @ r)" "frame t"
  shows "\<exists>s'. scan split s = Ok (True, s') \<and> holds s' r \<and> scan_bytes s' = payload t"
proof -
  have ok: "sc_ok s" using assms(1) by (simp add: holds_def)
  show ?thesis
  proof (cases "sc_buf s = t @ r \<and> sc_src s = []")
    case True
    then show ?thesis using scan_buffered[OF ok assms(2)] by (auto simp: holds_def)
  next
    case False
    then have new: "s = NewScanner (bytes_reader (t @ r))" "length (t @ r) \<le> 4096"
      using assms(1) by (auto simp: holds_def startBufSize_def)
    then have s: "sc_buf s = []" "sc_src s = [t @ r]" "sc_cap s = 0" "sc_start s = 0" "sc_err s = None"
      using frame_nonempty[OF assms(2)] by (auto simp: NewScanner_def bytes_reader_def)
    obtain s2 where s2: "make_room s = Some s2" "sc_ok s2" "sc_buf s2 = []" "sc_src s2 = [t @ r]"
      "sc_start s2 + length (sc_buf s2) < sc_cap s2"
      using make_room_ok[OF ok] s by (metis MaxScanTokenSize_def list.size(3) zero_less_numeral)
    have cap2: "sc_cap s2 = 4096" "sc_start s2 = 0"
      using s2(1) s by (auto simp: make_room_def compact_def Let_def startBufSize_def MaxScanTokenSize_def)
    define f where "f = fill s2"
    have f: "sc_ok f" "sc_buf f = t @ r" "sc_src f = []"
      using fill_ok[OF s2(2,5)] s2(3,4) cap2 new(2) by (auto simp: f_def Let_def)
    have "scan split s = scan split f"
      using s s2 by (subst scan.simps) (simp add: try_split_def f_def)
    then show ?thesis using scan_buffered[OF f(1) assms(2) f(2)] f(3) by (auto simp: holds_def)
  qed
qed

lemma scan_holds_end:
  "holds s [] \<Longrightarrow> \<exists>s'. scan split s = Ok (False, s') \<and> sc_tok s' = None \<and> scan_error s' = None"
  by (rule scan_end) (auto simp: holds_def pending_def NewScanner_def bytes_reader_def)

end

text \<open>
  A split function that also recognises an incomplete frame, whatever follows in the buffer: it
  asks for more data.  Such a function works on a stream cut into reads of any sizes.
\<close>

locale stream_frames = frames +
  assumes split_partial: "frame (x @ y) \<Longrightarrow> y \<noteq> [] \<Longrightarrow> split x cap = Ok (0, None)"
begin

lemma scan_stream:
  assumes "sc_ok s" "frame t" "length t \<le> MaxScanTokenSize" "pending s = t @ r"
  shows "\<exists>s'. scan split s = Ok (True, s') \<and> sc_ok s' \<and> scan_bytes s' = payload t \<and> pending s' = r"
  using assms
proof (induction "length (concat (sc_src s))" arbitrary: s rule: less_induct)
  case less
  show ?case
  proof (cases "length t \<le> length (sc_buf s)")
    case True
    then obtain r' where "sc_buf s = t @ r'" "r = r' @ concat (sc_src s)"
      using longer_front[of "sc_buf s"] less.prems(4) unfolding pending_def by metis
    with scan_buffered[OF less.prems(1,2)] show ?thesis by (auto simp: pending_def)
  next
    case False
    then obtain y where y: "t = sc_buf s @ y" "y \<noteq> []"
      using shorter_front[of "sc_buf s"] less.prems(4) unfolding pending_def by (metis not_le)
    have err: "sc_err s = None" using less.prems(1) by (simp add: sc_ok_def)
    have src: "sc_src s \<noteq> []"
      using less.prems(4) y by (auto simp: pending_def)
    obtain s1 where s1: "try_split split s = More s1" "sc_ok s1" "sc_buf s1 = sc_buf s"
      "sc_src s1 = sc_src s"
    proof (cases "sc_buf s = []")
      case True
      then show thesis using that[of s] err less.prems(1) by (simp add: try_split_def)
    next
      case False
      have "split (sc_buf s) (sc_cap s - sc_start s) = Ok (0, None)"
        using y less.prems(2) by (intro split_partial[of _ y]) auto
      then show thesis
        using that[of "s\<lparr>sc_tok := None\<rparr>"] False less.prems(1) by (simp add: try_split_def sc_ok_def)
    qed
    have short: "length (sc_buf s1) < MaxScanTokenSize"
      using y less.prems(3) s1(3) by (cases y) auto
    obtain s2 where s2: "make_room s1 = Some s2" "sc_ok s2" "sc_buf s2 = sc_buf s1"
      "sc_src s2 = sc_src s1" "sc_start s2 + length (sc_buf s2) < sc_cap s2"
      by (rule make_room_ok[OF s1(2) short])
    have src2: "sc_src s2 \<noteq> []" using src s1 s2 by simp
    define f where "f = fill s2"
    note f = fill_ok[OF s2(2,5) src2, folded f_def]
    have pend: "pending f = pending s"
      using f(2) s1 s2 by (simp add: pending_def)
    have "length (sc_buf f) + length (concat (sc_src f)) = length (sc_buf s) + length (concat (sc_src s))"
      using pend unfolding pending_def by (metis length_append)
    then have "length (concat (sc_src f)) < length (concat (sc_src s))"
      using f(5) by (simp add: s1(3) s2(3))
    moreover have "scan split s = scan split f"
      using s1 s2 by (subst scan.simps) (simp add: f_def sc_ok_def)
    ultimately show ?thesis using less.hyps[of f] less.prems f(1) pend by simp
  qed
qed

lemma scan_tokens_stream:
  assumes "sc_ok s" "\<forall>t \<in> set ts. frame t \<and> length t \<le> MaxScanTokenSize"
    "pending s = concat ts" "length ts < n"
  shows "\<exists>s'. scan_tokens n split s = Ok (map payload ts, s') \<and> scan_error s' = None"
  using assms
proof (induction ts arbitrary: s n)
  case Nil
  then show ?case using scan_end[of s] by (cases n) auto
next
  case (Cons t ts)
  then obtain m where n: "n = Suc m" by (cases n) auto
  obtain s1 where "scan split s = Ok (True, s1)" "sc_ok s1" "scan_bytes s1 = payload t"
    "pending s1 = concat ts"
    using scan_stream[of s t "concat ts"] Cons.prems by auto
  then show ?case using Cons.IH[of s1 m] Cons.prems n by auto
qed

end

section \<open>Split functions that never fail\<close>

text \<open>
  A split function that stays within the data it sees, whose answer does not depend on the
  capacity and that finds nothing in an empty buffer: scanning with it never panics, on any
  input, and every token is one the split function returned.
\<close>

locale total_split =
  fixes split :: split_func
  assumes split_total: "\<exists>n tok. split d cap = Ok (n, tok) \<and> n \<le> length d \<and> (tok = None \<longrightarrow> n = 0)"
    and split_cap: "split d cap = split d cap'"
    and split_nothing: "split [] cap = Ok (0, None)"
begin

lemma scan_stopped:
  assumes "sc_err s \<noteq> None" "split (sc_buf s) 0 = Ok (0, None)"
  shows "\<exists>s'. scan split s = Ok (False, s')"
proof -
  have "split (sc_buf s) (sc_cap s - sc_start s) = Ok (0, None)"
    using assms(2) split_cap[of "sc_buf s" "sc_cap s - sc_start s" 0] by simp
  then show ?thesis
    using assms(1) by (subst scan.simps) (auto simp: try_split_def)
qed

lemma scan_total:
  assumes "sc_ok s"
  shows "\<exists>more s'. scan split s = Ok (more, s') \<and>
    (more \<longrightarrow> sc_ok s' \<and> (\<exists>d n. split d 0 = Ok (n, Some (scan_bytes s'))))"
  using assms
proof (induction "length (concat (sc_src s))" arbitrary: s rule: less_induct)
  case less
  have err: "sc_err s = None" using less.prems by (simp add: sc_ok_def)
  obtain n tok where sp: "split (sc_buf s) 0 = Ok (n, tok)" "n \<le> length (sc_buf s)" "tok = None \<longrightarrow> n = 0"
    using split_total by blast
  have sp': "split (sc_buf s) (sc_cap s - sc_start s) = Ok (n, tok)"
    using sp(1) split_cap[of "sc_buf s" "sc_cap s - sc_start s" 0] by simp
  show ?case
  proof (cases tok)
    case (Some t)
    have "sc_buf s \<noteq> []" using sp(1) Some split_nothing[of 0] by auto
    then show ?thesis using sp sp' err Some less.prems
      by (subst scan.simps) (auto simp: try_split_def Let_def sc_ok_def scan_bytes_def)
  next
    case None
    obtain s1 where s1: "try_split split s = More s1" "sc_ok s1" "sc_buf s1 = sc_buf s"
      "sc_src s1 = sc_src s"
    proof (cases "sc_buf s = []")
      case True
      then show thesis using that[of s] err less.prems by (simp add: try_split_def)
    next
      case False
      then show thesis
        using that[of "s\<lparr>sc_tok := None\<rparr>"] sp sp' None less.prems by (simp add: try_split_def sc_ok_def)
    qed
    have err1: "sc_err s1 = None" using s1(2) by (simp add: sc_ok_def)
    show ?thesis
    proof (cases "make_room s1")
      case None
      then have "scan split s = Ok (False, setErr TooLong (compact s1))"
        using s1 err1 by (subst scan.simps) simp
      then show ?thesis by blast
    next
      case (Some s2)
      have ok2: "sc_ok s2" "sc_buf s2 = sc_buf s" "sc_src s2 = sc_src s"
        "sc_start s2 + length (sc_buf s2) < sc_cap s2"
        using make_room_shape[OF s1(2) Some] s1 by auto
      have step: "scan split s = scan split (fill s2)"
        using s1 err1 Some ok2(4) by (subst scan.simps) simp
      show ?thesis
      proof (cases "sc_src s2 = []")
        case True
        then have "sc_err (fill s2) \<noteq> None" "sc_buf (fill s2) = sc_buf s"
          using ok2 by (auto simp: fill_def setErr_def sc_ok_def)
        moreover have "split (sc_buf s) 0 = Ok (0, None)"
          using sp None \<open>tok = None\<close> by simp
        ultimately show ?thesis using step scan_stopped[of "fill s2"] by auto
      next
        case False
        note f = fill_ok[OF ok2(1,4) False]
        have "length (sc_buf (fill s2)) + length (concat (sc_src (fill s2))) =
            length (sc_buf s2) + length (concat (sc_src s2))"
          using f(2) unfolding pending_def by (metis length_append)
        then have "length (concat (sc_src (fill s2))) < length (concat (sc_src s))"
          using f(5) ok2(3) by simp
        then show ?thesis using less.hyps[of "fill s2"] f(1) step by simp
      qed
    qed
  qed
qed

end

section \<open>What a scan uses up\<close>

lemma read_some_pending:
  "read_some loop src k = (b, e, src') \<Longrightarrow> length b + length (concat src') \<le> length (concat src)"
proof (induction loop src k rule: read_some.induct)
  case (2 loop cs k)
  then show ?case by (auto split: if_splits)
qed (auto split: if_splits)

lemma setErr_fields [simp]: "sc_buf (setErr e s) = sc_buf s" "sc_src (setErr e s) = sc_src s"
  by (simp_all add: setErr_def)

lemma fill_pending: "length (pending (fill s)) \<le> length (pending s)"
  by (auto simp: fill_def pending_def split: prod.split option.split dest!: read_some_pending)

lemma make_room_pending: "make_room s = Some s' \<Longrightarrow> sc_buf s' = sc_buf s \<and> sc_src s' = sc_src s"
  by (auto simp: make_room_def compact_def Let_def split: if_splits)

lemma scan_consumes:
  "scan split s = Ok (True, s') \<Longrightarrow>
   \<exists>d cap n. split d cap = Ok (n, Some (scan_bytes s')) \<and> length (pending s') + n \<le> length (pending s)"
proof (induction split s rule: scan.induct)
  case (1 split s)
  consider (Token) "try_split split s = Token s'"
    | (More) s1 s2 where "try_split split s = More s1" "sc_err s1 = None" "make_room s1 = Some s2"
        "sc_start s2 + length (sc_buf s2) < sc_cap s2" "scan split (fill s2) = Ok (True, s')"
    using "1.prems" by (subst (asm) scan.simps) (auto split: attempt.splits option.splits if_splits)
  then show ?case
  proof cases
    case Token
    then have "\<exists>n. split (sc_buf s) (sc_cap s - sc_start s) = Ok (n, Some (scan_bytes s')) \<and> n \<le> length (sc_buf s) \<and>
        pending s' = drop n (sc_buf s) @ concat (sc_src s)"
      by (auto simp: try_split_def Let_def scan_bytes_def pending_def split: if_splits outcome.splits option.splits)
    then obtain n where "split (sc_buf s) (sc_cap s - sc_start s) = Ok (n, Some (scan_bytes s'))" "n \<le> length (sc_buf s)"
      "pending s' = drop n (sc_buf s) @ concat (sc_src s)" by blast
    moreover from this have "length (pending s') + n = length (pending s)" by (simp add: pending_def[of s])
    ultimately have "split (sc_buf s) (sc_cap s - sc_start s) = Ok (n, Some (scan_bytes s'))"
      "length (pending s') + n = length (pending s)" by simp_all
    then show ?thesis by (intro exI[of _ "sc_buf s"] exI[of _ "sc_cap s - sc_start s"] exI[of _ n]) simp
  next
    case More
    have "length (pending s1) \<le> length (pending s)"
      using More(1) by (auto simp: try_split_def Let_def pending_def split: if_splits outcome.splits option.splits)
    moreover have "length (pending (fill s2)) \<le> length (pending s1)"
      using fill_pending[of s2] make_room_pending[OF More(3)] by (simp add: pending_def)
    ultimately show ?thesis using "1.IH"[OF More(1) _ More(3,4,5)] More(2) by fastforce
  qed
qed

end
