(* ===== verification/HL_Users.thy ===== *)
theory HL_Users
  imports HL_Base
begin

text \<open>
  \<^verbatim>\<open>hotline/user.go\<close>: the 16-bit user flags, the wire form of a user in the user list, and the
  obfuscation of logins and passwords.
\<close>

section \<open>User flags\<close>

abbreviation (input) UserFlagAway :: nat where "UserFlagAway \<equiv> 0"
abbreviation (input) UserFlagAdmin :: nat where "UserFlagAdmin \<equiv> 1"
abbreviation (input) UserFlagRefusePM :: nat where "UserFlagRefusePM \<equiv> 2"
abbreviation (input) UserFlagRefusePChat :: nat where "UserFlagRefusePChat \<equiv> 3"

abbreviation (input) UserOptRefusePM :: nat where "UserOptRefusePM \<equiv> 0"
abbreviation (input) UserOptRefuseChat :: nat where "UserOptRefuseChat \<equiv> 1"
abbreviation (input) UserOptAutoResponse :: nat where "UserOptAutoResponse \<equiv> 2"

type_synonym UserFlags = "16 word"

text \<open>
  The code reads the two bytes into a \<^verbatim>\<open>big.Int\<close>, an unbounded integer, sets or clears the bit
  there, and writes the low 16 bits back.
\<close>

definition UserFlags_IsSet :: "UserFlags \<Rightarrow> nat \<Rightarrow> bool" where
  "UserFlags_IsSet f i \<longleftrightarrow> bit (uint f) i"

definition UserFlags_Set :: "UserFlags \<Rightarrow> nat \<Rightarrow> bool \<Rightarrow> UserFlags" where
  "UserFlags_Set f i newVal =
     word_of_int (if newVal then set_bit i (uint f) else unset_bit i (uint f))"

lemma UserFlags_IsSet_bit: "UserFlags_IsSet f i \<longleftrightarrow> bit f i"
  by (auto simp: UserFlags_IsSet_def bit_uint_iff dest: bit_imp_le_length)

lemma UserFlags_IsSet_Set:
  "UserFlags_IsSet (UserFlags_Set f i v) j \<longleftrightarrow> j < 16 \<and> (if j = i then v else UserFlags_IsSet f j)"
  by (auto simp: UserFlags_IsSet_bit UserFlags_Set_def bit_simps split: if_splits)

section \<open>The wire form of a user\<close>

record User =
  us_ID :: "16 word"
  us_Icon :: slice
  us_Flags :: slice
  us_Name :: bytes

text \<open>\<^verbatim>\<open>Read\<close> first cuts a 4-byte icon or flags field to its last two bytes, in the user itself.\<close>

definition last_two :: "slice \<Rightarrow> slice" where
  "last_two s = (if length (sl s) = 4 then Some (drop 2 (sl s)) else s)"

definition User_norm :: "User \<Rightarrow> User" where
  "User_norm u = u\<lparr>us_Icon := last_two (us_Icon u), us_Flags := last_two (us_Flags u)\<rparr>"

definition User_bytes :: "User \<Rightarrow> bytes" where
  "User_bytes u =
     be16 (us_ID u) @ sl (us_Icon u) @ sl (us_Flags u) @ be16 (u16 (length (us_Name u))) @ us_Name u"

definition User_Read :: "nat \<Rightarrow> nat \<Rightarrow> User \<Rightarrow> ((bytes \<times> go_error option) \<times> nat) \<times> User" where
  "User_Read n off u = (let u' = User_norm u in (readFrom n off (User_bytes u'), u'))"

text \<open>\<^verbatim>\<open>Write\<close> parses a user; a slice expression out of range panics.\<close>

definition User_Write :: "bytes \<Rightarrow> (nat \<times> User) outcome" where
  "User_Write p =
     obind (slice_at p 6 8) (\<lambda>nl.
       let namelen = unat (be_word nl :: 16 word) in
       obind (slice_at p 8 (8 + namelen)) (\<lambda>name.
         Ok (8 + namelen,
           \<lparr>us_ID = be_word (take 2 p), us_Icon = Some (take 2 (drop 2 p)),
            us_Flags = Some (take 2 (drop 4 p)), us_Name = name\<rparr>)))"

text \<open>A user with two-byte icon and flags survives the round trip, whatever follows it.\<close>

definition wf_User :: "User \<Rightarrow> bool" where
  "wf_User u \<longleftrightarrow> (\<exists>ic fl. us_Icon u = Some ic \<and> us_Flags u = Some fl \<and>
     length ic = 2 \<and> length fl = 2 \<and> length (us_Name u) < 65536)"

lemma User_norm_wf: "wf_User u \<Longrightarrow> User_norm u = u"
  by (auto simp: wf_User_def User_norm_def last_two_def)

lemma User_Write_bytes:
  assumes "wf_User u"
  shows "User_Write (User_bytes u @ rest) = Ok (8 + length (us_Name u), u)"
proof -
  obtain ic fl where "us_Icon u = Some ic" "us_Flags u = Some fl" "length ic = 2" "length fl = 2"
    "length (us_Name u) < 65536"
    using assms by (auto simp: wf_User_def)
  then show ?thesis
    by (cases u) (simp add: User_Write_def User_bytes_def unat_u16)
qed

section \<open>Obfuscated strings\<close>

definition EncodeString :: "bytes \<Rightarrow> bytes" where
  "EncodeString clearText = map (\<lambda>b. 255 - b) clearText"

lemma EncodeString_involution [simp]: "EncodeString (EncodeString s) = s"
  by (simp add: EncodeString_def comp_def)

lemma length_EncodeString [simp]: "length (EncodeString s) = length s"
  by (simp add: EncodeString_def)

lemma EncodeString_eq_Nil [simp]: "EncodeString s = [] \<longleftrightarrow> s = []"
  by (simp add: EncodeString_def)

lemma EncodeString_inject [simp]: "EncodeString s = EncodeString t \<longleftrightarrow> s = t"
  by (metis EncodeString_involution)

end
