(* ===== verification/HL_Fields.thy ===== *)
theory HL_Fields
  imports HL_Scanner HL_Users
begin

text \<open>
  \<^verbatim>\<open>hotline/field.go\<close>: the typed fields a transaction carries, their wire form, the split
  function that cuts them out of a byte stream, and the decoding of numbers, obfuscated strings
  and news paths (whose split function is in \<^verbatim>\<open>hotline/news.go\<close>).
\<close>

section \<open>Field types\<close>

type_synonym FieldType = "16 word"

abbreviation (input) FieldError :: FieldType where "FieldError \<equiv> 100"
abbreviation (input) FieldData :: FieldType where "FieldData \<equiv> 101"
abbreviation (input) FieldUserName :: FieldType where "FieldUserName \<equiv> 102"
abbreviation (input) FieldUserID :: FieldType where "FieldUserID \<equiv> 103"
abbreviation (input) FieldUserIconID :: FieldType where "FieldUserIconID \<equiv> 104"
abbreviation (input) FieldUserLogin :: FieldType where "FieldUserLogin \<equiv> 105"
abbreviation (input) FieldUserPassword :: FieldType where "FieldUserPassword \<equiv> 106"
abbreviation (input) FieldRefNum :: FieldType where "FieldRefNum \<equiv> 107"
abbreviation (input) FieldTransferSize :: FieldType where "FieldTransferSize \<equiv> 108"
abbreviation (input) FieldChatOptions :: FieldType where "FieldChatOptions \<equiv> 109"
abbreviation (input) FieldUserAccess :: FieldType where "FieldUserAccess \<equiv> 110"
abbreviation (input) FieldUserFlags :: FieldType where "FieldUserFlags \<equiv> 112"
abbreviation (input) FieldOptions :: FieldType where "FieldOptions \<equiv> 113"
abbreviation (input) FieldChatID :: FieldType where "FieldChatID \<equiv> 114"
abbreviation (input) FieldChatSubject :: FieldType where "FieldChatSubject \<equiv> 115"
abbreviation (input) FieldWaitingCount :: FieldType where "FieldWaitingCount \<equiv> 116"
abbreviation (input) FieldBannerType :: FieldType where "FieldBannerType \<equiv> 152"
abbreviation (input) FieldNoServerAgreement :: FieldType where "FieldNoServerAgreement \<equiv> 152"
abbreviation (input) FieldVersion :: FieldType where "FieldVersion \<equiv> 160"
abbreviation (input) FieldCommunityBannerID :: FieldType where "FieldCommunityBannerID \<equiv> 161"
abbreviation (input) FieldServerName :: FieldType where "FieldServerName \<equiv> 162"
abbreviation (input) FieldFileNameWithInfo :: FieldType where "FieldFileNameWithInfo \<equiv> 200"
abbreviation (input) FieldFileName :: FieldType where "FieldFileName \<equiv> 201"
abbreviation (input) FieldFilePath :: FieldType where "FieldFilePath \<equiv> 202"
abbreviation (input) FieldFileResumeData :: FieldType where "FieldFileResumeData \<equiv> 203"
abbreviation (input) FieldFileTransferOptions :: FieldType where "FieldFileTransferOptions \<equiv> 204"
abbreviation (input) FieldFileTypeString :: FieldType where "FieldFileTypeString \<equiv> 205"
abbreviation (input) FieldFileCreatorString :: FieldType where "FieldFileCreatorString \<equiv> 206"
abbreviation (input) FieldFileSize :: FieldType where "FieldFileSize \<equiv> 207"
abbreviation (input) FieldFileCreateDate :: FieldType where "FieldFileCreateDate \<equiv> 208"
abbreviation (input) FieldFileModifyDate :: FieldType where "FieldFileModifyDate \<equiv> 209"
abbreviation (input) FieldFileComment :: FieldType where "FieldFileComment \<equiv> 210"
abbreviation (input) FieldFileNewName :: FieldType where "FieldFileNewName \<equiv> 211"
abbreviation (input) FieldFileNewPath :: FieldType where "FieldFileNewPath \<equiv> 212"
abbreviation (input) FieldFileType :: FieldType where "FieldFileType \<equiv> 213"
abbreviation (input) FieldQuotingMsg :: FieldType where "FieldQuotingMsg \<equiv> 214"
abbreviation (input) FieldAutomaticResponse :: FieldType where "FieldAutomaticResponse \<equiv> 215"
abbreviation (input) FieldFolderItemCount :: FieldType where "FieldFolderItemCount \<equiv> 220"
abbreviation (input) FieldUsernameWithInfo :: FieldType where "FieldUsernameWithInfo \<equiv> 300"
abbreviation (input) FieldNewsArtListData :: FieldType where "FieldNewsArtListData \<equiv> 321"
abbreviation (input) FieldNewsCatName :: FieldType where "FieldNewsCatName \<equiv> 322"
abbreviation (input) FieldNewsCatListData15 :: FieldType where "FieldNewsCatListData15 \<equiv> 323"
abbreviation (input) FieldNewsPath :: FieldType where "FieldNewsPath \<equiv> 325"
abbreviation (input) FieldNewsArtID :: FieldType where "FieldNewsArtID \<equiv> 326"
abbreviation (input) FieldNewsArtDataFlav :: FieldType where "FieldNewsArtDataFlav \<equiv> 327"
abbreviation (input) FieldNewsArtTitle :: FieldType where "FieldNewsArtTitle \<equiv> 328"
abbreviation (input) FieldNewsArtPoster :: FieldType where "FieldNewsArtPoster \<equiv> 329"
abbreviation (input) FieldNewsArtDate :: FieldType where "FieldNewsArtDate \<equiv> 330"
abbreviation (input) FieldNewsArtPrevArt :: FieldType where "FieldNewsArtPrevArt \<equiv> 331"
abbreviation (input) FieldNewsArtNextArt :: FieldType where "FieldNewsArtNextArt \<equiv> 332"
abbreviation (input) FieldNewsArtData :: FieldType where "FieldNewsArtData \<equiv> 333"
abbreviation (input) FieldNewsArtParentArt :: FieldType where "FieldNewsArtParentArt \<equiv> 335"
abbreviation (input) FieldNewsArt1stChildArt :: FieldType where "FieldNewsArt1stChildArt \<equiv> 336"
abbreviation (input) FieldNewsArtRecurseDel :: FieldType where "FieldNewsArtRecurseDel \<equiv> 337"

section \<open>Fields\<close>

record hl_field =
  fd_Type :: FieldType
  fd_Size :: "16 word"
  fd_Data :: slice

text \<open>\<^verbatim>\<open>NewField\<close> copies the data, so the field's data is never nil; the size keeps 16 bits.\<close>

definition NewField :: "FieldType \<Rightarrow> bytes \<Rightarrow> hl_field" where
  "NewField ty d = \<lparr>fd_Type = ty, fd_Size = u16 (length d), fd_Data = Some d\<rparr>"

lemma NewField_sel [simp]:
  "fd_Type (NewField ty d) = ty" "fd_Data (NewField ty d) = Some d"
  "fd_Size (NewField ty d) = u16 (length d)"
  by (simp_all add: NewField_def)

lemma NewField_inject [simp]: "NewField ty d = NewField ty' d' \<longleftrightarrow> ty = ty' \<and> d = d'"
  by (auto simp: NewField_def)

text \<open>Go's zero value \<^verbatim>\<open>Field{}\<close>.\<close>

definition zero_field :: hl_field where
  "zero_field = \<lparr>fd_Type = 0, fd_Size = 0, fd_Data = None\<rparr>"

lemma zero_field_sel [simp]: "fd_Data zero_field = None" "fd_Type zero_field = 0" "fd_Size zero_field = 0"
  by (simp_all add: zero_field_def)

abbreviation (input) minFieldLen :: nat where "minFieldLen \<equiv> 4"

definition FieldScanner :: split_func where
  "FieldScanner dat cap =
     (if length dat < minFieldLen then Ok (0, None)
      else
        let neededSize = minFieldLen + unat (be_word (take 2 (drop 2 dat)) :: 16 word) in
        if length dat < neededSize then Ok (0, None)
        else Ok (neededSize, Some (take neededSize dat)))"

definition Field_bytes :: "hl_field \<Rightarrow> bytes" where
  "Field_bytes f = be16 (fd_Type f) @ be16 (fd_Size f) @ sl (fd_Data f)"

definition Field_Read :: "nat \<Rightarrow> nat \<Rightarrow> hl_field \<Rightarrow> (bytes \<times> go_error option) \<times> nat" where
  "Field_Read n off f = readFrom n off (Field_bytes f)"

definition Field_Write :: "bytes \<Rightarrow> (nat \<times> hl_field) outcome" where
  "Field_Write p =
     (if length p < minFieldLen then Err (Msg ''input slice too short'')
      else
        let size = be_word (take 2 (drop 2 p)) :: 16 word; dataSize = unat size in
        if length p < minFieldLen + dataSize then Err (Msg ''input slice too short for data size'')
        else Ok (minFieldLen + dataSize,
          \<lparr>fd_Type = be_word (take 2 p), fd_Size = size,
           fd_Data = Some (take dataSize (drop 4 p))\<rparr>))"

definition Field_DecodeInt :: "hl_field \<Rightarrow> nat outcome" where
  "Field_DecodeInt f =
     (if length (sl (fd_Data f)) = 2 then Ok (unat (be_word (sl (fd_Data f)) :: 16 word))
      else if length (sl (fd_Data f)) = 4 then Ok (unat (be_word (sl (fd_Data f)) :: 32 word))
      else Err (Msg ''unknown byte length''))"

definition Field_DecodeObfuscatedString :: "hl_field \<Rightarrow> bytes" where
  "Field_DecodeObfuscatedString f = EncodeString (sl (fd_Data f))"

text \<open>\<^verbatim>\<open>GetField\<close> of a field list: the first field of the type, or nil.\<close>

fun GetField :: "FieldType \<Rightarrow> hl_field list \<Rightarrow> hl_field option" where
  "GetField ty [] = None"
| "GetField ty (f # fs) = (if ty = fd_Type f then Some f else GetField ty fs)"

lemma GetField_Some: "GetField ty fs = Some f \<Longrightarrow> f \<in> set fs \<and> fd_Type f = ty"
  by (induction fs) (auto split: if_splits)

section \<open>News paths\<close>

text \<open>
  The slice expression \<^verbatim>\<open>data[3:advance]\<close> may reach past the length, up to the capacity; then the
  token holds stale bytes, but the scanner rejects the advance before anyone sees it.
\<close>

definition newsPathScanner :: split_func where
  "newsPathScanner dat cap =
     (if length dat < 3 then Ok (0, None)
      else
        let advance = 3 + unat (dat ! 2) in
        if cap < advance then Panic
        else Ok (advance, Some (take (advance - 3) (drop 3 dat))))"

text \<open>The loop calls \<^verbatim>\<open>Scan\<close> \<open>n\<close> times and takes \<^verbatim>\<open>Text()\<close> whatever \<^verbatim>\<open>Scan\<close> returned.\<close>

fun news_path_items :: "nat \<Rightarrow> scanner \<Rightarrow> bytes list outcome" where
  "news_path_items 0 s = Ok []"
| "news_path_items (Suc n) s =
     obind (scan newsPathScanner s) (\<lambda>(_, s1).
       obind (news_path_items n s1) (\<lambda>ps. Ok (scan_bytes s1 # ps)))"

definition Field_DecodeNewsPath :: "hl_field \<Rightarrow> bytes list outcome" where
  "Field_DecodeNewsPath f =
     (let d = sl (fd_Data f) in
      if length d = 0 then Ok []
      else obind (slice_at d 0 2) (\<lambda>c.
        news_path_items (unat (be_word c :: 16 word)) (NewScanner (bytes_reader (drop 2 d)))))"

section \<open>Properties\<close>

definition wf_field :: "hl_field \<Rightarrow> bool" where
  "wf_field f \<longleftrightarrow> (\<exists>d. fd_Data f = Some d \<and> length d < 65536 \<and> fd_Size f = u16 (length d))"

lemma wf_field_NewField [simp]: "wf_field (NewField ty d) \<longleftrightarrow> length d < 65536"
  by (simp add: wf_field_def)

lemma wf_field_length: "wf_field f \<Longrightarrow> length (Field_bytes f) = 4 + length (sl (fd_Data f))"
  by (auto simp: wf_field_def Field_bytes_def)

lemma Field_Write_bytes:
  "wf_field f \<Longrightarrow> Field_Write (Field_bytes f @ rest) = Ok (length (Field_bytes f), f)"
  by (cases f) (auto simp: wf_field_def Field_Write_def Field_bytes_def unat_u16 Let_def)

lemma Field_Write_no_panic: "Field_Write p \<noteq> Panic"
  by (simp add: Field_Write_def Let_def)

lemma Field_Write_wf: "Field_Write p = Ok (n, f) \<Longrightarrow> wf_field f \<and> n \<le> length p \<and> Field_bytes f = take n p"
proof -
  assume a: "Field_Write p = Ok (n, f)"
  define k where "k = unat (be_word (take 2 (drop 2 p)) :: 16 word)"
  have k: "k < 65536" by (simp add: k_def unat_16_less)
  have p: "4 \<le> length p" "4 + k \<le> length p" "n = 4 + k"
    "f = \<lparr>fd_Type = be_word (take 2 p), fd_Size = be_word (take 2 (drop 2 p)),
          fd_Data = Some (take k (drop 4 p))\<rparr>"
    using a by (auto simp: Field_Write_def Let_def k_def[symmetric] split: if_splits)
  have split4: "take (4 + k) p = take 2 p @ take 2 (drop 2 p) @ take k (drop 4 p)"
    using take_add[of 4 k p] take_add[of 2 2 p] by simp
  show ?thesis
    using p k split4 by (auto simp: wf_field_def Field_bytes_def k_def)
qed

definition field_need :: "bytes \<Rightarrow> nat" where
  "field_need t = minFieldLen + unat (be_word (take 2 (drop 2 t)) :: 16 word)"

definition field_frame :: "bytes \<Rightarrow> bool" where
  "field_frame t \<longleftrightarrow> minFieldLen \<le> length t \<and> length t = field_need t"

lemma FieldScanner_eq: "FieldScanner dat cap =
    (if length dat < minFieldLen \<or> length dat < field_need dat then Ok (0, None)
     else Ok (field_need dat, Some (take (field_need dat) dat)))"
  by (simp add: FieldScanner_def field_need_def Let_def)

lemma field_need_append: "minFieldLen \<le> length x \<Longrightarrow> field_need (x @ y) = field_need x"
  by (simp add: field_need_def)

lemma field_frame_bytes: "wf_field f \<Longrightarrow> field_frame (Field_bytes f)"
  by (auto simp: wf_field_def field_frame_def field_need_def Field_bytes_def unat_u16)

interpretation field_scan: stream_frames FieldScanner field_frame "\<lambda>t. t"
proof unfold_locales
  fix t assume "field_frame t"
  then show "t \<noteq> []" by (auto simp: field_frame_def)
next
  fix t r :: bytes and cap
  assume "field_frame t"
  then show "FieldScanner (t @ r) cap = Ok (length t, Some t)"
    by (auto simp: FieldScanner_eq field_frame_def field_need_append)
next
  show "FieldScanner [] cap = Ok (0, None)" for cap by (simp add: FieldScanner_def)
next
  fix x y :: bytes and cap
  assume "field_frame (x @ y)" "y \<noteq> []"
  then show "FieldScanner x cap = Ok (0, None)"
    by (cases "length x < 4")
      (auto simp: FieldScanner_eq field_frame_def field_need_append simp flip: length_greater_0_conv)
qed

text \<open>News path items: two unused bytes, a length, the name.\<close>

definition path_item_bytes :: "bytes \<Rightarrow> bytes" where
  "path_item_bytes p = [0, 0, u8 (length p)] @ p"

definition path_frame :: "bytes \<Rightarrow> bool" where
  "path_frame t \<longleftrightarrow> 3 \<le> length t \<and> length t = 3 + unat (t ! 2)"

lemma drop_path_item [simp]: "drop 3 (path_item_bytes p) = p"
  by (simp add: path_item_bytes_def)

lemma path_frame_item: "length p < 256 \<Longrightarrow> path_frame (path_item_bytes p)"
  by (simp add: path_frame_def path_item_bytes_def unat_u8 numeral_2_eq_2)

interpretation news_scan: frames newsPathScanner path_frame "drop 3"
proof unfold_locales
  fix t r :: bytes and cap
  assume "path_frame t" "length (t @ r) \<le> cap"
  then show "newsPathScanner (t @ r) cap = Ok (length t, Some (drop 3 t))"
    by (auto simp: newsPathScanner_def path_frame_def Let_def nth_append)
qed (auto simp: path_frame_def newsPathScanner_def)

lemma news_path_items_ok:
  "holds s (concat (map path_item_bytes ps)) \<Longrightarrow> \<forall>p \<in> set ps. length p < 256 \<Longrightarrow>
   news_path_items (length ps) s = Ok ps"
proof (induction ps arbitrary: s)
  case (Cons p ps)
  obtain s1 where "scan newsPathScanner s = Ok (True, s1)"
    "holds s1 (concat (map path_item_bytes ps))" "scan_bytes s1 = drop 3 (path_item_bytes p)"
    using news_scan.scan_holds[of s "path_item_bytes p" "concat (map path_item_bytes ps)"]
      Cons.prems path_frame_item[of p] by auto
  then show ?case using Cons by simp
qed simp

definition news_path_bytes :: "bytes list \<Rightarrow> bytes" where
  "news_path_bytes ps = be16 (u16 (length ps)) @ concat (map path_item_bytes ps)"

lemma DecodeNewsPath_bytes:
  assumes "fd_Data f = Some (news_path_bytes ps)" "length ps < 65536"
    "\<forall>p \<in> set ps. length p < 256" "length (concat (map path_item_bytes ps)) \<le> startBufSize"
  shows "Field_DecodeNewsPath f = Ok ps"
  using assms
  by (simp add: Field_DecodeNewsPath_def news_path_bytes_def unat_u16 news_path_items_ok holds_new Let_def)

end
