(* ===== verification/HL_Flat_File.thy ===== *)
theory HL_Flat_File
  imports HL_Fields
begin

text \<open>
  The file formats of a transfer: \<^verbatim>\<open>hotline/flattened_file_object.go\<close> (the flattened file object
  with its header, information fork and data fork header), \<^verbatim>\<open>hotline/file_resume_data.go\<close>,
  \<^verbatim>\<open>hotline/file_name_with_info.go\<close>, \<^verbatim>\<open>hotline/transfer.go\<close> and the type and creator codes of
  \<^verbatim>\<open>hotline/file_types.go\<close>.
\<close>

section \<open>File name with info\<close>

record FileNameWithInfo =
  fn_Type :: "32 word"
  fn_Creator :: "32 word"
  fn_FileSize :: "32 word"
  fn_RSVD :: "32 word"
  fn_NameScript :: "16 word"
  fn_NameSize :: "16 word"
  fn_Name :: bytes

definition FileNameWithInfo_bytes :: "FileNameWithInfo \<Rightarrow> bytes" where
  "FileNameWithInfo_bytes f =
     be32 (fn_Type f) @ be32 (fn_Creator f) @ be32 (fn_FileSize f) @ be32 (fn_RSVD f) @
     be16 (fn_NameScript f) @ be16 (fn_NameSize f) @ fn_Name f"

definition FileNameWithInfo_Read ::
  "nat \<Rightarrow> nat \<Rightarrow> FileNameWithInfo \<Rightarrow> (bytes \<times> go_error option) \<times> nat" where
  "FileNameWithInfo_Read n off f = readFrom n off (FileNameWithInfo_bytes f)"

definition FileNameWithInfo_Write :: "bytes \<Rightarrow> (nat \<times> FileNameWithInfo) outcome" where
  "FileNameWithInfo_Write p =
     (if length p = 0 then Err EOF else if length p < 20 then Err UnexpectedEOF
      else
        let nameSize = be_word (take 2 (drop 18 p)) :: 16 word in
        obind (slice_at p 20 (20 + unat nameSize)) (\<lambda>name.
          Ok (length p,
            \<lparr>fn_Type = be_word (take 4 p), fn_Creator = be_word (take 4 (drop 4 p)),
             fn_FileSize = be_word (take 4 (drop 8 p)), fn_RSVD = be_word (take 4 (drop 12 p)),
             fn_NameScript = be_word (take 2 (drop 16 p)), fn_NameSize = nameSize, fn_Name = name\<rparr>)))"

lemma FileNameWithInfo_Write_bytes:
  "unat (fn_NameSize f) = length (fn_Name f) \<Longrightarrow>
   FileNameWithInfo_Write (FileNameWithInfo_bytes f) = Ok (20 + length (fn_Name f), f)"
  by (cases f) (simp add: FileNameWithInfo_Write_def FileNameWithInfo_bytes_def Let_def)

section \<open>Resume data\<close>

abbreviation ForkTypeDATA :: "32 word" where "ForkTypeDATA \<equiv> 0x44415441"
abbreviation ForkTypeINFO :: "32 word" where "ForkTypeINFO \<equiv> 0x494E464F"
abbreviation ForkTypeMACR :: "32 word" where "ForkTypeMACR \<equiv> 0x4D414352"
abbreviation FormatFILP :: "32 word" where "FormatFILP \<equiv> 0x46494C50"
abbreviation FormatRFLT :: "32 word" where "FormatRFLT \<equiv> 0x52464C54"
abbreviation PlatformAMAC :: "32 word" where "PlatformAMAC \<equiv> 0x414D4143"
abbreviation PlatformMWIN :: "32 word" where "PlatformMWIN \<equiv> 0x4D57494E"

record ForkInfoList =
  fi_Fork :: "32 word"
  fi_DataSize :: "32 word"
  fi_RSVDA :: "32 word"
  fi_RSVDB :: "32 word"

record FileResumeData =
  fr_Format :: "32 word"
  fr_Version :: "16 word"
  fr_RSVD :: "272 word"
  fr_ForkCount :: "16 word"
  fr_ForkInfoList :: "ForkInfoList list"

definition zero_resume :: FileResumeData where
  "zero_resume = \<lparr>fr_Format = 0, fr_Version = 0, fr_RSVD = 0, fr_ForkCount = 0, fr_ForkInfoList = []\<rparr>"

definition NewForkInfoList :: "bytes \<Rightarrow> ForkInfoList outcome" where
  "NewForkInfoList b =
     (if length b < 4 then Panic
      else Ok \<lparr>fi_Fork = ForkTypeDATA, fi_DataSize = be_word (take 4 b), fi_RSVDA = 0, fi_RSVDB = 0\<rparr>)"

text \<open>The fork count is \<^verbatim>\<open>[2]byte{0, uint8(len(list))}\<close>: its high byte is always zero.\<close>

definition NewFileResumeData :: "ForkInfoList list \<Rightarrow> FileResumeData" where
  "NewFileResumeData list =
     \<lparr>fr_Format = FormatRFLT, fr_Version = 1, fr_RSVD = 0, fr_ForkCount = ucast (u8 (length list)),
      fr_ForkInfoList = list\<rparr>"

definition ForkInfoList_bytes :: "ForkInfoList \<Rightarrow> bytes" where
  "ForkInfoList_bytes f = be32 (fi_Fork f) @ be32 (fi_DataSize f) @ be32 (fi_RSVDA f) @ be32 (fi_RSVDB f)"

definition FileResumeData_BinaryMarshal :: "FileResumeData \<Rightarrow> bytes" where
  "FileResumeData_BinaryMarshal r =
     be32 (fr_Format r) @ be16 (fr_Version r) @ be_bytes 34 (fr_RSVD r) @ be16 (fr_ForkCount r) @
     concat (map ForkInfoList_bytes (fr_ForkInfoList r))"

definition read_ForkInfoList :: "bytes \<Rightarrow> ForkInfoList" where
  "read_ForkInfoList b =
     \<lparr>fi_Fork = be_word (take 4 b), fi_DataSize = be_word (take 4 (drop 4 b)),
      fi_RSVDA = be_word (take 4 (drop 8 b)), fi_RSVDB = be_word (take 4 (drop 12 b))\<rparr>"

text \<open>The loop over the fork list: \<open>n\<close> entries from index \<open>i\<close>, each sliced out of \<open>b\<close>.\<close>

fun read_fork_list :: "nat \<Rightarrow> nat \<Rightarrow> bytes \<Rightarrow> ForkInfoList list outcome" where
  "read_fork_list 0 i b = Ok []"
| "read_fork_list (Suc n) i b =
     obind (slice_at b (42 + i * 16) (42 + i * 16 + 16)) (\<lambda>e.
       obind (read_fork_list n (Suc i) b) (\<lambda>fs. Ok (read_ForkInfoList e # fs)))"

text \<open>\<^verbatim>\<open>UnmarshalBinary\<close> leaves \<^verbatim>\<open>RSVD\<close> alone and reads only the low byte of the fork count.\<close>

definition FileResumeData_UnmarshalBinary :: "FileResumeData \<Rightarrow> bytes \<Rightarrow> FileResumeData outcome" where
  "FileResumeData_UnmarshalBinary r b =
     (if length b < 42 then Panic
      else obind (read_fork_list (unat (b ! 41)) 0 b) (\<lambda>fs.
        Ok (r\<lparr>fr_Format := be_word (take 4 b), fr_Version := be_word (take 2 (drop 4 b)),
              fr_ForkCount := be_word (take 2 (drop 40 b)),
              fr_ForkInfoList := fr_ForkInfoList r @ fs\<rparr>)))"

lemma length_ForkInfoList_bytes [simp]: "length (ForkInfoList_bytes f) = 16"
  by (simp add: ForkInfoList_bytes_def)

lemma read_ForkInfoList_bytes: "read_ForkInfoList (ForkInfoList_bytes f) = f"
  by (cases f) (simp add: read_ForkInfoList_def ForkInfoList_bytes_def)

lemma read_fork_list_ok:
  assumes "length h = 42 + i * 16"
  shows "read_fork_list (length fs) i (h @ concat (map ForkInfoList_bytes fs)) = Ok fs"
  using assms
proof (induction fs arbitrary: h i)
  case (Cons f fs)
  have "read_fork_list (length fs) (Suc i) ((h @ ForkInfoList_bytes f) @ concat (map ForkInfoList_bytes fs)) = Ok fs"
    using Cons.prems by (intro Cons.IH) simp
  then show ?case using Cons.prems by (simp add: read_ForkInfoList_bytes)
qed simp

lemma resume_header_length:
  "length (be32 a @ be16 b @ be_bytes 34 (c :: 272 word) @ be16 d) = 42 + 0 * 16"
  by simp

lemma low_byte_be16: "be16 (ucast (b :: byte)) ! Suc 0 = b"
proof -
  have "ucast (ucast b :: 16 word) = b" by (rule bit_word_eqI) (auto simp: bit_simps)
  then show ?thesis by (simp add: be_bytes_def numeral_2_eq_2)
qed

lemma FileResumeData_roundtrip_aux:
  assumes "length list < 256"
  shows "FileResumeData_UnmarshalBinary zero_resume
      (FileResumeData_BinaryMarshal (NewFileResumeData list)) = Ok (NewFileResumeData list)"
proof -
  let ?r = "NewFileResumeData list"
  let ?h = "be32 (fr_Format ?r) @ be16 (fr_Version ?r) @ be_bytes 34 (fr_RSVD ?r) @ be16 (fr_ForkCount ?r)"
  let ?b = "FileResumeData_BinaryMarshal ?r"
  have b: "?b = ?h @ concat (map ForkInfoList_bytes list)"
    by (simp add: FileResumeData_BinaryMarshal_def NewFileResumeData_def)
  have "?b ! 41 = u8 (length list)"
    unfolding b by (simp add: nth_append NewFileResumeData_def low_byte_be16)
  then have n: "unat (?b ! 41) = length list" using assms by (simp add: unat_u8)
  have "read_fork_list (length list) 0 ?b = Ok list"
    unfolding b by (rule read_fork_list_ok[OF resume_header_length])
  moreover have "\<not> length ?b < 42" "take 4 ?b = be32 (fr_Format ?r)"
    "take 2 (drop 4 ?b) = be16 (fr_Version ?r)" "take 2 (drop 40 ?b) = be16 (fr_ForkCount ?r)"
    unfolding b by simp_all
  ultimately show ?thesis
    by (simp add: FileResumeData_UnmarshalBinary_def n) (simp add: NewFileResumeData_def zero_resume_def)
qed

section \<open>The header of a file transfer\<close>

record htxf =
  tf_Protocol :: "32 word"
  tf_ReferenceNumber :: "32 word"
  tf_DataSize :: "32 word"
  tf_RSVD :: "32 word"

abbreviation HTXF :: "32 word" where "HTXF \<equiv> 0x48545846"

definition transfer_Write :: "bytes \<Rightarrow> (nat \<times> htxf) outcome" where
  "transfer_Write b =
     (if length b = 0 then Err EOF else if length b < 16 then Err UnexpectedEOF
      else
        let tf = \<lparr>tf_Protocol = be_word (take 4 b), tf_ReferenceNumber = be_word (take 4 (drop 4 b)),
                  tf_DataSize = be_word (take 4 (drop 8 b)), tf_RSVD = be_word (take 4 (drop 12 b))\<rparr>
        in if tf_Protocol tf \<noteq> HTXF then Err (Msg ''invalid protocol'') else Ok (length b, tf))"

section \<open>The flattened file object\<close>

record FlatFileHeader =
  fh_Format :: "32 word"
  fh_Version :: "16 word"
  fh_RSVD :: "128 word"
  fh_ForkCount :: "16 word"

record FlatFileForkHeader =
  ff_ForkType :: "32 word"
  ff_CompressionType :: "32 word"
  ff_RSVD :: "32 word"
  ff_DataSize :: "32 word"

record FlatFileInformationFork =
  if_Platform :: "32 word"
  if_TypeSignature :: "32 word"
  if_CreatorSignature :: "32 word"
  if_Flags :: "32 word"
  if_PlatformFlags :: "32 word"
  if_RSVD :: "256 word"
  if_CreateDate :: "64 word"
  if_ModifyDate :: "64 word"
  if_NameScript :: "16 word"
  if_NameSize :: "16 word"
  if_Name :: bytes
  if_CommentSize :: "16 word"
  if_Comment :: bytes

record flattenedFileObject =
  fo_Header :: FlatFileHeader
  fo_InfoForkHeader :: FlatFileForkHeader
  fo_InfoFork :: FlatFileInformationFork
  fo_DataForkHeader :: FlatFileForkHeader
  fo_ResForkHeader :: FlatFileForkHeader

definition zero_fork_header :: FlatFileForkHeader where
  "zero_fork_header = \<lparr>ff_ForkType = 0, ff_CompressionType = 0, ff_RSVD = 0, ff_DataSize = 0\<rparr>"

definition zero_info_fork :: FlatFileInformationFork where
  "zero_info_fork = \<lparr>if_Platform = 0, if_TypeSignature = 0, if_CreatorSignature = 0, if_Flags = 0,
     if_PlatformFlags = 0, if_RSVD = 0, if_CreateDate = 0, if_ModifyDate = 0, if_NameScript = 0,
     if_NameSize = 0, if_Name = [], if_CommentSize = 0, if_Comment = []\<rparr>"

definition zero_ffo :: flattenedFileObject where
  "zero_ffo = \<lparr>fo_Header = \<lparr>fh_Format = 0, fh_Version = 0, fh_RSVD = 0, fh_ForkCount = 0\<rparr>,
     fo_InfoForkHeader = zero_fork_header, fo_InfoFork = zero_info_fork,
     fo_DataForkHeader = zero_fork_header, fo_ResForkHeader = zero_fork_header\<rparr>"

text \<open>\<^verbatim>\<open>[4]byte([]byte(s))\<close> panics on a string shorter than 4; the callers pass 4-byte codes.\<close>

definition NewFlatFileInformationFork :: "bytes \<Rightarrow> 64 word \<Rightarrow> bytes \<Rightarrow> bytes \<Rightarrow> FlatFileInformationFork" where
  "NewFlatFileInformationFork fileName modifyTime typeSignature creatorSignature =
     zero_info_fork\<lparr>if_Platform := PlatformAMAC, if_TypeSignature := be_word (take 4 typeSignature),
       if_CreatorSignature := be_word (take 4 creatorSignature), if_PlatformFlags := 0x100,
       if_CreateDate := modifyTime, if_ModifyDate := modifyTime, if_Name := fileName\<rparr>"

definition ffif_SetComment :: "FlatFileInformationFork \<Rightarrow> bytes \<Rightarrow> FlatFileInformationFork" where
  "ffif_SetComment f comment = f\<lparr>if_Comment := comment, if_CommentSize := u16 (length comment)\<rparr>"

definition ffif_DataSize :: "FlatFileInformationFork \<Rightarrow> 32 word" where
  "ffif_DataSize f = u32 (length (if_Name f) + length (if_Comment f) + 74)"

text \<open>\<^verbatim>\<open>Size\<close> is the same computation, returned as an array.\<close>

definition ffif_Size :: "FlatFileInformationFork \<Rightarrow> 32 word" where
  "ffif_Size f = u32 (length (if_Name f) + length (if_Comment f) + 74)"

definition ffif_ReadNameSize :: "FlatFileInformationFork \<Rightarrow> bytes" where
  "ffif_ReadNameSize f = be16 (u16 (length (if_Name f)))"

text \<open>\<^verbatim>\<open>Read\<close>: the name size is computed from the name, the stored \<^verbatim>\<open>NameSize\<close> is not used.\<close>

definition ffif_bytes :: "FlatFileInformationFork \<Rightarrow> bytes" where
  "ffif_bytes f =
     be32 (if_Platform f) @ be32 (if_TypeSignature f) @ be32 (if_CreatorSignature f) @
     be32 (if_Flags f) @ be32 (if_PlatformFlags f) @ be_bytes 32 (if_RSVD f) @
     be64 (if_CreateDate f) @ be64 (if_ModifyDate f) @ be16 (if_NameScript f) @
     ffif_ReadNameSize f @ if_Name f @ be16 (if_CommentSize f) @ if_Comment f"

text \<open>
  \<^verbatim>\<open>Write\<close> and \<^verbatim>\<open>UnmarshalBinary\<close>: \<^verbatim>\<open>total := 72 + bs\<close> and \<^verbatim>\<open>total + 2\<close> are computed in \<^verbatim>\<open>uint16\<close> and
  wrap; the slice expressions panic out of range.
\<close>

definition ffif_Write :: "FlatFileInformationFork \<Rightarrow> bytes \<Rightarrow> FlatFileInformationFork outcome" where
  "ffif_Write f p =
     obind (slice_at p 70 72) (\<lambda>nameSize.
       let total = 72 + (be_word nameSize :: 16 word) in
       obind (slice_at p 72 (unat total)) (\<lambda>name.
         let f1 = f\<lparr>if_Platform := be_word (take 4 p), if_TypeSignature := be_word (take 4 (drop 4 p)),
           if_CreatorSignature := be_word (take 4 (drop 8 p)), if_Flags := be_word (take 4 (drop 12 p)),
           if_PlatformFlags := be_word (take 4 (drop 16 p)), if_RSVD := be_word (take 32 (drop 20 p)),
           if_CreateDate := be_word (take 8 (drop 52 p)), if_ModifyDate := be_word (take 8 (drop 60 p)),
           if_NameScript := be_word (take 2 (drop 68 p)), if_NameSize := be_word nameSize,
           if_Name := name\<rparr>
         in if unat total < length p then
              obind (slice_at p (unat total) (unat (total + 2))) (\<lambda>cs.
                let commentLen = unat (be_word cs :: 16 word) in
                obind (slice_at p (unat total + 2) (unat total + 2 + commentLen)) (\<lambda>c.
                  Ok (f1\<lparr>if_CommentSize := be_word cs, if_Comment := c\<rparr>)))
            else Ok f1))"

text \<open>The same statements once more; only what is returned beside the error differs.\<close>

definition ffif_UnmarshalBinary :: "FlatFileInformationFork \<Rightarrow> bytes \<Rightarrow> FlatFileInformationFork outcome" where
  "ffif_UnmarshalBinary f b = ffif_Write f b"

definition fork_header_bytes :: "FlatFileForkHeader \<Rightarrow> bytes" where
  "fork_header_bytes h =
     be32 (ff_ForkType h) @ be32 (ff_CompressionType h) @ be32 (ff_RSVD h) @ be32 (ff_DataSize h)"

definition read_fork_header :: "bytes \<Rightarrow> FlatFileForkHeader" where
  "read_fork_header b =
     \<lparr>ff_ForkType = be_word (take 4 b), ff_CompressionType = be_word (take 4 (drop 4 b)),
      ff_RSVD = be_word (take 4 (drop 8 b)), ff_DataSize = be_word (take 4 (drop 12 b))\<rparr>"

definition flat_header_bytes :: "FlatFileHeader \<Rightarrow> bytes" where
  "flat_header_bytes h = be32 (fh_Format h) @ be16 (fh_Version h) @ be_bytes 16 (fh_RSVD h) @ be16 (fh_ForkCount h)"

definition read_flat_header :: "bytes \<Rightarrow> FlatFileHeader" where
  "read_flat_header b =
     \<lparr>fh_Format = be_word (take 4 b), fh_Version = be_word (take 2 (drop 4 b)),
      fh_RSVD = be_word (take 16 (drop 6 b)), fh_ForkCount = be_word (take 2 (drop 22 b))\<rparr>"

text \<open>\<^verbatim>\<open>Read\<close> of the whole object: the information fork header is written out from constants.\<close>

definition ffo_bytes :: "flattenedFileObject \<Rightarrow> bytes" where
  "ffo_bytes o' =
     flat_header_bytes (fo_Header o') @ be32 ForkTypeINFO @ [0, 0, 0, 0] @ [0, 0, 0, 0] @
     be32 (ffif_DataSize (fo_InfoFork o')) @ ffif_bytes (fo_InfoFork o') @
     fork_header_bytes (fo_DataForkHeader o')"

definition ffo_dataSize :: "flattenedFileObject \<Rightarrow> nat" where
  "ffo_dataSize o' = unat (ff_DataSize (fo_DataForkHeader o'))"

definition ffo_rsrcSize :: "flattenedFileObject \<Rightarrow> nat" where
  "ffo_rsrcSize o' = unat (ff_DataSize (fo_ResForkHeader o'))"

text \<open>All of the sum is \<^verbatim>\<open>uint32\<close> arithmetic.\<close>

definition ffo_TransferSize :: "flattenedFileObject \<Rightarrow> nat \<Rightarrow> 32 word" where
  "ffo_TransferSize o' offset =
     ff_DataSize (fo_DataForkHeader o') + ff_DataSize (fo_ResForkHeader o') +
     u32 (length (ffo_bytes o')) - u32 offset"

text \<open>
  \<^verbatim>\<open>ReadFrom\<close>: header, information fork header, the fork itself (\<^verbatim>\<open>io.Copy\<close> from a
  \<^verbatim>\<open>bytes.Reader\<close> calls \<^verbatim>\<open>Write\<close> once with all of it, or not at all when it is empty), data fork
  header.
\<close>

definition ffo_ReadFrom :: "flattenedFileObject \<Rightarrow> bytes list \<Rightarrow> (flattenedFileObject \<times> bytes list) outcome" where
  "ffo_ReadFrom o' r =
     obind (read_full 24 r) (\<lambda>(h, r1).
     obind (read_full 16 r1) (\<lambda>(ih, r2).
       let infoHeader = read_fork_header ih in
       obind (read_full (unat (ff_DataSize infoHeader)) r2) (\<lambda>(buf, r3).
       obind (if buf = [] then Ok (fo_InfoFork o') else ffif_Write (fo_InfoFork o') buf) (\<lambda>info.
       obind (read_full 16 r3) (\<lambda>(dh, r4).
         Ok (o'\<lparr>fo_Header := read_flat_header h, fo_InfoForkHeader := infoHeader,
               fo_InfoFork := info, fo_DataForkHeader := read_fork_header dh\<rparr>, r4))))))"

section \<open>Receiving a file\<close>

text \<open>What \<^verbatim>\<open>receiveFile\<close> wrote to its four writers, the last one counting the bytes of both forks.\<close>

record received =
  rv_info :: bytes
  rv_data :: bytes
  rv_rsrc :: bytes
  rv_counted :: nat

text \<open>
  \<^verbatim>\<open>io.CopyN(w, r, n)\<close> copies what there is, up to \<open>n\<close> bytes, and reports EOF when that is less.
  The writers are files and counters that accept every byte.
\<close>

fun copy_n :: "nat \<Rightarrow> bytes list \<Rightarrow> bytes \<times> go_error option \<times> bytes list" where
  "copy_n n [] = ([], if n = 0 then None else Some EOF, [])"
| "copy_n n (c # cs) =
     (if n < length c then (take n c, None, drop n c # cs)
      else case copy_n (n - length c) cs of (b, e, rest) \<Rightarrow> (c @ b, e, rest))"

definition receiveFile :: "bytes list \<Rightarrow> received \<times> (bytes list) outcome" where
  "receiveFile r =
     (let none = \<lparr>rv_info = [], rv_data = [], rv_rsrc = [], rv_counted = 0\<rparr> in
      case ffo_ReadFrom zero_ffo r of
        Panic \<Rightarrow> (none, Panic)
      | Err e \<Rightarrow> (none, Err e)
      | Ok (ffo, r1) \<Rightarrow>
          let got = none\<lparr>rv_info := ffif_bytes (fo_InfoFork ffo)\<rparr> in
          (case copy_n (ffo_dataSize ffo) r1 of (d, e, r2) \<Rightarrow>
             let got = got\<lparr>rv_data := d, rv_counted := length d\<rparr> in
             (case e of
                Some e \<Rightarrow> (got, Err e)
              | None \<Rightarrow>
                  if fh_ForkCount (fo_Header ffo) = 3 then
                    (case read_full 16 r2 of
                       Panic \<Rightarrow> (got, Panic)
                     | Err e \<Rightarrow> (got, Err e)
                     | Ok (rh, r3) \<Rightarrow>
                         let ffo = ffo\<lparr>fo_ResForkHeader := read_fork_header rh\<rparr> in
                         (case copy_n (ffo_rsrcSize ffo) r3 of (d', e', r4) \<Rightarrow>
                            (got\<lparr>rv_rsrc := d', rv_counted := length d + length d'\<rparr>,
                             case e' of Some e' \<Rightarrow> Err e' | None \<Rightarrow> Ok r4)))
                  else (got, Ok r2))))"


section \<open>What a sender writes is what a receiver stores\<close>

text \<open>
  An information fork as the server and a client make it: the stored sizes are the lengths, and the
  name is short enough for the \<^verbatim>\<open>uint16\<close> sums of \<^verbatim>\<open>Write\<close>.
\<close>

definition wf_info_fork :: "FlatFileInformationFork \<Rightarrow> bool" where
  "wf_info_fork f \<longleftrightarrow>
     if_NameSize f = u16 (length (if_Name f)) \<and> length (if_Name f) < 65462 \<and>
     unat (if_CommentSize f) = length (if_Comment f)"

lemma length_ffif_bytes [simp]:
  "length (ffif_bytes f) = 74 + length (if_Name f) + length (if_Comment f)"
  by (simp add: ffif_bytes_def ffif_ReadNameSize_def)

lemma length_fork_header_bytes [simp]: "length (fork_header_bytes h) = 16"
  by (simp add: fork_header_bytes_def)

lemma length_flat_header_bytes [simp]: "length (flat_header_bytes h) = 24"
  by (simp add: flat_header_bytes_def)

lemma read_fork_header_bytes [simp]: "read_fork_header (fork_header_bytes h) = h"
  by (cases h) (simp add: read_fork_header_def fork_header_bytes_def)

lemma read_flat_header_bytes [simp]: "read_flat_header (flat_header_bytes h) = h"
  by (cases h) (simp add: read_flat_header_def flat_header_bytes_def)

lemma u16_add_no_wrap:
  "n + k < 65536 \<Longrightarrow> unat (u16 k + u16 n) = k + n"
  by (metis add.commute of_nat_add unat_u16)

lemma ffif_Write_bytes:
  assumes "wf_info_fork f"
  shows "ffif_Write g (ffif_bytes f) = Ok f"
proof -
  let ?n = "length (if_Name f)"
  let ?p = "ffif_bytes f"
  have n: "?n < 65462" and ns: "if_NameSize f = u16 ?n" and cs: "unat (if_CommentSize f) = length (if_Comment f)"
    using assms by (auto simp: wf_info_fork_def)
  have t: "unat (72 + u16 ?n) = 72 + ?n" using u16_add_no_wrap[of ?n 72] n by simp
  have "72 + u16 ?n + 2 = u16 (74 + ?n)" by simp
  then have t2: "unat (72 + u16 ?n + 2) = 74 + ?n" using n unat_u16[of "74 + ?n"] by presburger
  have s1: "slice_at ?p 70 72 = Ok (be16 (u16 ?n))"
    by (subst slice_at_Ok) (simp_all add: ffif_bytes_def ffif_ReadNameSize_def)
  have s2: "slice_at ?p 72 (72 + ?n) = Ok (if_Name f)"
    by (subst slice_at_Ok) (simp_all add: ffif_bytes_def ffif_ReadNameSize_def)
  have s3: "slice_at ?p (72 + ?n) (74 + ?n) = Ok (be16 (if_CommentSize f))"
    by (subst slice_at_Ok) (simp_all add: ffif_bytes_def ffif_ReadNameSize_def)
  have s4: "slice_at ?p (72 + ?n + 2) (72 + ?n + 2 + length (if_Comment f)) = Ok (if_Comment f)"
    by (subst slice_at_Ok) (simp_all add: ffif_bytes_def ffif_ReadNameSize_def)
  have fixed: "take 4 ?p = be32 (if_Platform f)" "take 4 (drop 4 ?p) = be32 (if_TypeSignature f)"
    "take 4 (drop 8 ?p) = be32 (if_CreatorSignature f)" "take 4 (drop 12 ?p) = be32 (if_Flags f)"
    "take 4 (drop 16 ?p) = be32 (if_PlatformFlags f)" "take 32 (drop 20 ?p) = be_bytes 32 (if_RSVD f)"
    "take 8 (drop 52 ?p) = be64 (if_CreateDate f)" "take 8 (drop 60 ?p) = be64 (if_ModifyDate f)"
    "take 2 (drop 68 ?p) = be16 (if_NameScript f)"
    by (simp_all add: ffif_bytes_def)
  show ?thesis
    unfolding ffif_Write_def s1 obind.simps Let_def be_word_simps t s2 t2 s3 fixed cs s4
    by (cases f) (use ns in simp)
qed

definition wf_ffo :: "flattenedFileObject \<Rightarrow> bool" where
  "wf_ffo x \<longleftrightarrow> wf_info_fork (fo_InfoFork x) \<and>
     fo_InfoForkHeader x =
       \<lparr>ff_ForkType = ForkTypeINFO, ff_CompressionType = 0, ff_RSVD = 0,
        ff_DataSize = ffif_DataSize (fo_InfoFork x)\<rparr>"

lemma be32_0: "be32 0 = [0, 0, 0, 0]"
  by (simp add: be_bytes_def numeral_eq_Suc)

lemma ffo_bytes_wf:
  "wf_ffo x \<Longrightarrow> ffo_bytes x =
     flat_header_bytes (fo_Header x) @ fork_header_bytes (fo_InfoForkHeader x) @
     ffif_bytes (fo_InfoFork x) @ fork_header_bytes (fo_DataForkHeader x)"
  by (simp add: ffo_bytes_def wf_ffo_def fork_header_bytes_def be32_0)

lemma ffif_DataSize_wf:
  "wf_info_fork f \<Longrightarrow> unat (ffif_DataSize f) = length (ffif_bytes f)"
  unfolding ffif_DataSize_def wf_info_fork_def
  using unat_16_less[of "if_CommentSize f"] by (subst unat_u32) auto

lemma ffo_ReadFrom_bytes:
  assumes wf: "wf_ffo x" and cs: "concat cs = ffo_bytes x @ rest"
  shows "\<exists>r. ffo_ReadFrom y cs = Ok (x\<lparr>fo_ResForkHeader := fo_ResForkHeader y\<rparr>, r) \<and> concat r = rest"
proof -
  let ?i = "ffif_bytes (fo_InfoFork x)"
  have wi: "wf_info_fork (fo_InfoFork x)" using wf by (simp add: wf_ffo_def)
  have len: "unat (ff_DataSize (fo_InfoForkHeader x)) = length ?i"
    using wf ffif_DataSize_wf[OF wi] by (simp add: wf_ffo_def)
  have ne: "?i \<noteq> []" using length_ffif_bytes[of "fo_InfoFork x"] by (metis add_is_0 list.size(3) zero_neq_numeral)
  obtain r1 where r1: "read_full 24 cs = Ok (flat_header_bytes (fo_Header x), r1)"
    "concat r1 = fork_header_bytes (fo_InfoForkHeader x) @ ?i @ fork_header_bytes (fo_DataForkHeader x) @ rest"
    using read_full_append[of cs "flat_header_bytes (fo_Header x)" _ 24] cs by (auto simp: ffo_bytes_wf[OF wf])
  obtain r2 where r2: "read_full 16 r1 = Ok (fork_header_bytes (fo_InfoForkHeader x), r2)"
    "concat r2 = ?i @ fork_header_bytes (fo_DataForkHeader x) @ rest"
    using read_full_append[OF r1(2), of 16] by auto
  obtain r3 where r3: "read_full (length ?i) r2 = Ok (?i, r3)"
    "concat r3 = fork_header_bytes (fo_DataForkHeader x) @ rest"
    using read_full_append[OF r2(2), of "length ?i"] by auto
  obtain r4 where r4: "read_full 16 r3 = Ok (fork_header_bytes (fo_DataForkHeader x), r4)" "concat r4 = rest"
    using read_full_append[OF r3(2), of 16] by auto
  show ?thesis
    using r4(2) by (simp add: ffo_ReadFrom_def r1 r2 r3 r4 len ne ffif_Write_bytes[OF wi] Let_def del: length_ffif_bytes)
qed

lemma copy_n_append:
  "concat cs = d @ rest \<Longrightarrow> length d = n \<Longrightarrow> \<exists>r. copy_n n cs = (d, None, r) \<and> concat r = rest"
proof (induction cs arbitrary: d n)
  case (Cons c cs)
  show ?case
  proof (cases "n < length c")
    case True
    then show ?thesis using Cons.prems by (auto simp: append_eq_append_conv2)
  next
    case False
    then obtain d' where d: "d = c @ d'" using Cons.prems
      by (metis append_eq_append_conv_if append_take_drop_id concat.simps(2) not_less)
    with Cons.prems have "concat cs = d' @ rest" "length d' = n - length c" by auto
    from Cons.IH[OF this] False d show ?thesis by auto
  qed
qed auto

text \<open>The stream of an upload: the object, the data fork, and the resource fork if there is one.\<close>

definition upload_wire :: "flattenedFileObject \<Rightarrow> bytes \<Rightarrow> bytes \<Rightarrow> bytes" where
  "upload_wire x dat rsrc = ffo_bytes x @ dat @
     (if fh_ForkCount (fo_Header x) = 3 then fork_header_bytes (fo_ResForkHeader x) @ rsrc else [])"

lemma receiveFile_wire:
  assumes wf: "wf_ffo x" and d: "length dat = ffo_dataSize x" and r: "length rsrc = ffo_rsrcSize x"
    and three: "fh_ForkCount (fo_Header x) = 3"
    and cs: "concat cs = upload_wire x dat rsrc @ rest"
  shows "\<exists>r. receiveFile cs = (\<lparr>rv_info = ffif_bytes (fo_InfoFork x), rv_data = dat, rv_rsrc = rsrc,
      rv_counted = length dat + length rsrc\<rparr>, Ok r) \<and> concat r = rest"
proof -
  let ?y = "x\<lparr>fo_ResForkHeader := fo_ResForkHeader zero_ffo\<rparr>"
  obtain r1 where r1: "ffo_ReadFrom zero_ffo cs = Ok (?y, r1)"
    "concat r1 = dat @ fork_header_bytes (fo_ResForkHeader x) @ rsrc @ rest"
    using ffo_ReadFrom_bytes[OF wf, of cs _ zero_ffo] cs three by (auto simp: upload_wire_def)
  have ds: "ffo_dataSize ?y = ffo_dataSize x" by (simp add: ffo_dataSize_def)
  obtain r2 where r2: "copy_n (ffo_dataSize x) r1 = (dat, None, r2)"
    "concat r2 = fork_header_bytes (fo_ResForkHeader x) @ rsrc @ rest"
    using copy_n_append[OF r1(2) d] by auto
  obtain r3 where r3: "read_full 16 r2 = Ok (fork_header_bytes (fo_ResForkHeader x), r3)"
    "concat r3 = rsrc @ rest"
    using read_full_append[OF r2(2), of 16] by auto
  obtain r4 where r4: "copy_n (ffo_rsrcSize x) r3 = (rsrc, None, r4)" "concat r4 = rest"
    using copy_n_append[OF r3(2) r] by auto
  show ?thesis
    using r4(2) three by (simp add: receiveFile_def r1 ds r2 r3 r4 Let_def)
qed

lemma receiveFile_wire_data_only:
  assumes wf: "wf_ffo x" and d: "length dat = ffo_dataSize x"
    and two: "fh_ForkCount (fo_Header x) \<noteq> 3"
    and cs: "concat cs = upload_wire x dat rsrc @ rest"
  shows "\<exists>r. receiveFile cs = (\<lparr>rv_info = ffif_bytes (fo_InfoFork x), rv_data = dat, rv_rsrc = [],
      rv_counted = length dat\<rparr>, Ok r) \<and> concat r = rest"
proof -
  let ?y = "x\<lparr>fo_ResForkHeader := fo_ResForkHeader zero_ffo\<rparr>"
  obtain r1 where r1: "ffo_ReadFrom zero_ffo cs = Ok (?y, r1)" "concat r1 = dat @ rest"
    using ffo_ReadFrom_bytes[OF wf, of cs _ zero_ffo] cs two by (auto simp: upload_wire_def)
  have ds: "ffo_dataSize ?y = ffo_dataSize x" by (simp add: ffo_dataSize_def)
  obtain r2 where r2: "copy_n (ffo_dataSize x) r1 = (dat, None, r2)" "concat r2 = rest"
    using copy_n_append[OF r1(2) d] by auto
  show ?thesis using r2(2) two by (simp add: receiveFile_def r1 ds r2 Let_def)
qed

section \<open>Type and creator codes\<close>

record fileType =
  TypeCode :: bytes
  CreatorCode :: bytes

definition defaultFileType :: fileType where
  "defaultFileType = \<lparr>TypeCode = go_str ''TEXT'', CreatorCode = go_str ''TTXT''\<rparr>"

definition fileTypes :: "(bytes, fileType) gmap" where
  "fileTypes = map (\<lambda>(e, t, c). (go_str e, \<lparr>TypeCode = go_str t, CreatorCode = go_str c\<rparr>))
    [(''.sit'', ''SIT!'', ''SIT!''),
     (''.pdf'', ''PDF '', ''CARO''),
     (''.gif'', ''GIFf'', ''ogle''),
     (''.txt'', ''TEXT'', ''ttxt''),
     (''.zip'', ''ZIP '', ''SITx''),
     (''.tgz'', ''Gzip'', ''SITx''),
     (''.hqx'', ''TEXT'', ''SITx''),
     (''.jpg'', ''JPEG'', ''ogle''),
     (''.jpeg'', ''JPEG'', ''ogle''),
     (''.img'', ''rohd'', ''ddsk''),
     (''.sea'', ''APPL'', ''aust''),
     (''.mov'', ''MooV'', ''TVOD''),
     (''.incomplete'', ''HTft'', ''HTLC'')]"

definition friendlyCreatorNames :: "(bytes, bytes) gmap" where
  "friendlyCreatorNames = map (\<lambda>(k, n). (go_str k, go_str n))
    [(''APPL'', ''Application Program''),
     (''HTbm'', ''Hotline Bookmark''),
     (''fldr'', ''Folder''),
     (''flda'', ''Folder Alias''),
     (''HTft'', ''Incomplete File''),
     (''SIT!'', ''StuffIt Archive''),
     (''TEXT'', ''Text File''),
     (''HTLC'', ''Hotline'')]"

definition ffif_FriendlyType :: "FlatFileInformationFork \<Rightarrow> bytes" where
  "ffif_FriendlyType f =
     (case map_of friendlyCreatorNames (be32 (if_TypeSignature f)) of
        Some name \<Rightarrow> name
      | None \<Rightarrow> be32 (if_TypeSignature f))"

definition ffif_FriendlyCreator :: "FlatFileInformationFork \<Rightarrow> bytes" where
  "ffif_FriendlyCreator f =
     (case map_of friendlyCreatorNames (be32 (if_CreatorSignature f)) of
        Some name \<Rightarrow> name
      | None \<Rightarrow> be32 (if_CreatorSignature f))"

text \<open>\<^verbatim>\<open>strings.ToLower\<close> on ASCII letters; every key of the tables it is used with is ASCII.\<close>

definition ascii_lower :: "bytes \<Rightarrow> bytes" where
  "ascii_lower = map (\<lambda>b. if 65 \<le> b \<and> b \<le> 90 then b + 32 else b)"

text \<open>\<^verbatim>\<open>filepath.Ext\<close>: from the last dot of the last path element.\<close>

definition filepath_Ext :: "bytes \<Rightarrow> bytes" where
  "filepath_Ext p =
     (let base = rev (takeWhile (\<lambda>b. b \<noteq> 47) (rev p)) in
      if 46 \<in> set base then 46 # rev (takeWhile (\<lambda>b. b \<noteq> 46) (rev base)) else [])"

definition FileTypeFromFilename :: "bytes \<Rightarrow> fileType" where
  "FileTypeFromFilename filename =
     (case map_of fileTypes (ascii_lower (filepath_Ext filename)) of
        Some ft \<Rightarrow> ft
      | None \<Rightarrow> defaultFileType)"

text \<open>Every code of the tables fits the four bytes of a signature, as \<^verbatim>\<open>[4]byte([]byte(s))\<close> needs.\<close>

lemma FileTypeFromFilename_length:
  "length (TypeCode (FileTypeFromFilename n)) = 4 \<and> length (CreatorCode (FileTypeFromFilename n)) = 4"
proof -
  have "\<forall>ft \<in> snd ` set fileTypes. length (TypeCode ft) = 4 \<and> length (CreatorCode ft) = 4"
    by (simp add: fileTypes_def)
  then show ?thesis
    by (auto simp: FileTypeFromFilename_def defaultFileType_def split: option.splits dest!: map_of_SomeD)
qed

end
