(* ===== verification/HL_File_Path.thy ===== *)
theory HL_File_Path
  imports HL_Flat_File
begin

text \<open>
  File paths of the protocol, \<^verbatim>\<open>hotline/file_path.go\<close>, the encoder \<^verbatim>\<open>EncodeFilePath\<close> of
  \<^verbatim>\<open>hotline/files.go\<close>, and how the server turns what a client sends into a path of the file
  system: \<^verbatim>\<open>ReadPath\<close> over the lexical functions \<^verbatim>\<open>path.Join\<close> and \<^verbatim>\<open>path.Clean\<close>.
\<close>

section \<open>The lexical functions of \<^verbatim>\<open>path\<close>\<close>

abbreviation (input) slash :: byte where "slash \<equiv> 47"
abbreviation (input) dot :: bytes where "dot \<equiv> [46]"
abbreviation (input) dotdot :: bytes where "dotdot \<equiv> [46, 46]"

text \<open>\<^verbatim>\<open>strings.Split(s, "/")\<close> and its inverse.\<close>

fun split_slash :: "bytes \<Rightarrow> bytes list" where
  "split_slash [] = [[]]"
| "split_slash (c # cs) =
     (case split_slash cs of
        [] \<Rightarrow> [[c]]
      | s # ss \<Rightarrow> if c = slash then [] # s # ss else (c # s) # ss)"

fun join_slash :: "bytes list \<Rightarrow> bytes" where
  "join_slash [] = []"
| "join_slash [s] = s"
| "join_slash (s # t # ss) = s @ slash # join_slash (t # ss)"

definition rooted :: "bytes \<Rightarrow> bool" where
  "rooted p \<longleftrightarrow> take 1 p = [slash]"

text \<open>
  \<^verbatim>\<open>path.Clean\<close> processes the elements from left to right and keeps the cleaned path as a stack,
  its last element first: empty elements and \<^verbatim>\<open>.\<close> are dropped, \<^verbatim>\<open>..\<close> drops the element before it,
  is dropped at the root, and stays at the start of a relative path.
\<close>

definition clean_step :: "bool \<Rightarrow> bytes \<Rightarrow> bytes list \<Rightarrow> bytes list" where
  "clean_step r s st =
     (if s = [] \<or> s = dot then st
      else if s = dotdot then
        (case st of
           [] \<Rightarrow> if r then [] else [dotdot]
         | x # xs \<Rightarrow> if x = dotdot then dotdot # st else xs)
      else s # st)"

definition path_segs :: "bytes \<Rightarrow> bytes list" where
  "path_segs p = rev (fold (clean_step (rooted p)) (split_slash p) [])"

definition path_Clean :: "bytes \<Rightarrow> bytes" where
  "path_Clean p =
     (if p = [] then dot
      else if rooted p then slash # join_slash (path_segs p)
      else if path_segs p = [] then dot
      else join_slash (path_segs p))"

fun join_buf :: "bytes \<Rightarrow> bytes list \<Rightarrow> bytes" where
  "join_buf buf [] = buf"
| "join_buf buf (e # es) =
     join_buf (if buf \<noteq> [] then buf @ slash # e else e) es"

definition path_Join :: "bytes list \<Rightarrow> bytes" where
  "path_Join es = (if concat es = [] then [] else path_Clean (join_buf [] es))"

section \<open>\<^verbatim>\<open>FilePath\<close>\<close>

record FilePathItem =
  fpi_Len :: byte
  fpi_Name :: bytes

record FilePath =
  fp_ItemCount :: "16 word"
  fp_Items :: "FilePathItem list"

abbreviation (input) fileItemMinLen :: nat where "fileItemMinLen \<equiv> 3"

definition fileItemScanner :: split_func where
  "fileItemScanner dat cap =
     (if length dat < fileItemMinLen then Ok (0, None)
      else
        let advance = fileItemMinLen + unat (dat ! 2) in
        if cap < advance then Panic else Ok (advance, Some (take advance dat)))"

text \<open>The upper bound \<^verbatim>\<open>fpi.Len+fileItemMinLen\<close> is a sum of bytes: it wraps from a length of 253 on.\<close>

definition FilePathItem_Write :: "bytes \<Rightarrow> (nat \<times> FilePathItem) outcome" where
  "FilePathItem_Write b =
     (if length b < 3 then Err (Msg ''buflen too small'')
      else obind (slice_at b 3 (unat (b ! 2 + 3))) (\<lambda>name.
        Ok (unat (b ! 2) + 3, \<lparr>fpi_Len = b ! 2, fpi_Name = name\<rparr>)))"

fun file_path_items :: "nat \<Rightarrow> scanner \<Rightarrow> FilePathItem list outcome" where
  "file_path_items 0 s = Ok []"
| "file_path_items (Suc n) s =
     obind (scan fileItemScanner s) (\<lambda>(_, s1).
       obind (FilePathItem_Write (scan_bytes s1)) (\<lambda>(_, fpi).
         obind (file_path_items n s1) (\<lambda>fpis. Ok (fpi # fpis))))"

definition zero_path :: FilePath where
  "zero_path = \<lparr>fp_ItemCount = 0, fp_Items = []\<rparr>"

definition FilePath_Write :: "FilePath \<Rightarrow> bytes \<Rightarrow> FilePath outcome" where
  "FilePath_Write fp b =
     (case read_full 2 (bytes_reader b) of
        Panic \<Rightarrow> Panic
      | Err e \<Rightarrow> if e = EOF then Ok fp else Err e
      | Ok (c, r) \<Rightarrow>
          obind (file_path_items (unat (be_word c :: 16 word)) (NewScanner r)) (\<lambda>fpis.
            Ok (fp\<lparr>fp_ItemCount := be_word c, fp_Items := fp_Items fp @ fpis\<rparr>)))"

text \<open>\<^verbatim>\<open>strings.Contains\<close>.\<close>

fun contains :: "bytes \<Rightarrow> bytes \<Rightarrow> bool" where
  "contains pat [] \<longleftrightarrow> pat = []"
| "contains pat (c # cs) \<longleftrightarrow> take (length pat) (c # cs) = pat \<or> contains pat cs"

definition FilePath_Len :: "FilePath \<Rightarrow> 16 word" where
  "FilePath_Len fp = fp_ItemCount fp"

definition last_item_contains :: "bytes \<Rightarrow> FilePath \<Rightarrow> bool outcome" where
  "last_item_contains pat fp =
     (if FilePath_Len fp = 0 then Ok False
      else let i = unat (FilePath_Len fp - 1) in
        if i < length (fp_Items fp)
        then Ok (contains pat (ascii_lower (fpi_Name (fp_Items fp ! i))))
        else Panic)"

definition FilePath_IsDropbox :: "FilePath \<Rightarrow> bool outcome" where
  "FilePath_IsDropbox fp = last_item_contains (go_str ''drop box'') fp"

definition FilePath_IsUploadDir :: "FilePath \<Rightarrow> bool outcome" where
  "FilePath_IsUploadDir fp = last_item_contains (go_str ''upload'') fp"

text \<open>
  \<^verbatim>\<open>ReadPath\<close>.  The text decoder is \<^verbatim>\<open>golang.org/x/text\<close>, a parameter: \<open>None\<close> is an error.
\<close>

definition sub_path :: "FilePathItem list \<Rightarrow> bytes" where
  "sub_path items = foldl (\<lambda>sub item. path_Join [[slash], sub, fpi_Name item]) [] items"

definition ReadPath :: "(bytes \<Rightarrow> bytes option) \<Rightarrow> bytes \<Rightarrow> slice \<Rightarrow> slice \<Rightarrow> bytes outcome" where
  "ReadPath decoder fileRoot filePath fileName =
     obind (case filePath of None \<Rightarrow> Ok zero_path | Some b \<Rightarrow> FilePath_Write zero_path b) (\<lambda>fp.
       case decoder (sub_path (fp_Items fp)) of
         None \<Rightarrow> Err (Msg ''invalid filepath encoding'')
       | Some subPath \<Rightarrow>
           (case decoder (sl fileName) of
              None \<Rightarrow> Err (Msg ''invalid filename encoding'')
            | Some decodedFileName \<Rightarrow>
                Ok (path_Join [fileRoot, subPath, path_Join [[slash], decodedFileName]])))"

definition EncodeFilePath :: "bytes \<Rightarrow> bytes" where
  "EncodeFilePath filePath =
     (let pathSections = split_slash filePath in
      be16 (u16 (length pathSections)) @
      concat (map (\<lambda>section. [0, 0] @ [u8 (length section)] @ section) pathSections))"

section \<open>Cleaning a path\<close>

lemma split_slash_ne [simp]: "split_slash s \<noteq> []"
  by (cases s) (auto split: list.splits)

lemma split_slash_Cons [simp]: "split_slash (c # cs) =
    (if c = slash then [] # split_slash cs else (c # hd (split_slash cs)) # tl (split_slash cs))"
  by (cases "split_slash cs") auto

declare split_slash.simps(2) [simp del]

lemma split_slash_append: "split_slash (a @ slash # b) = split_slash a @ split_slash b"
  by (induction a) auto

lemma split_slash_no_slash: "slash \<notin> set s \<Longrightarrow> split_slash s = [s]"
  by (induction s) auto

lemma in_split_slash: "x \<in> set (split_slash s) \<Longrightarrow> slash \<notin> set x"
proof (induction s arbitrary: x)
  case (Cons c s)
  then show ?case
    by (cases "split_slash s") (auto split: if_splits)
qed simp

lemma split_join_slash: "ss \<noteq> [] \<Longrightarrow> \<forall>s \<in> set ss. slash \<notin> set s \<Longrightarrow> split_slash (join_slash ss) = ss"
  by (induction ss rule: join_slash.induct) (auto simp: split_slash_append split_slash_no_slash)

definition plain_seg :: "bytes \<Rightarrow> bool" where
  "plain_seg s \<longleftrightarrow> s \<noteq> [] \<and> s \<noteq> dot \<and> s \<noteq> dotdot"

lemma fold_clean_no_dotdot:
  "dotdot \<notin> set ss \<Longrightarrow> fold (clean_step r) ss st = rev (filter plain_seg ss) @ st"
  by (induction ss arbitrary: st) (auto simp: clean_step_def plain_seg_def)

text \<open>The stack holds plain elements above the \<^verbatim>\<open>..\<close> elements of a relative path.\<close>

definition stack_ok :: "bool \<Rightarrow> bytes list \<Rightarrow> bool" where
  "stack_ok r st \<longleftrightarrow> (\<exists>ns k. st = ns @ replicate k dotdot \<and> (\<forall>s \<in> set ns. plain_seg s) \<and> (r \<longrightarrow> k = 0)) \<and>
     (\<forall>s \<in> set st. slash \<notin> set s)"

lemma stack_ok_step:
  assumes "stack_ok r st" "slash \<notin> set s"
  shows "stack_ok r (clean_step r s st)"
proof -
  obtain ns k where st: "st = ns @ replicate k dotdot" "\<forall>s \<in> set ns. plain_seg s" "r \<longrightarrow> k = 0"
    and sl: "\<forall>s \<in> set st. slash \<notin> set s"
    using assms(1) by (auto simp: stack_ok_def)
  consider "s = [] \<or> s = dot" | "s = dotdot" "ns = []" | n ns' where "s = dotdot" "ns = n # ns'"
    | "plain_seg s"
    by (cases ns) (auto simp: plain_seg_def)
  then show ?thesis
  proof cases
    case 1
    then show ?thesis using assms(1) by (auto simp: clean_step_def)
  next
    case 2
    show ?thesis
    proof (cases r)
      case True
      then show ?thesis using 2 st assms(1) by (auto simp: clean_step_def)
    next
      case False
      then have "clean_step r s st = [] @ replicate (Suc k) dotdot"
        using 2 st by (cases k) (auto simp: clean_step_def)
      then show ?thesis unfolding stack_ok_def using False
        by (intro conjI exI[of _ "[]"] exI[of _ "Suc k"]) auto
    qed
  next
    case (3 n ns')
    then have "clean_step r s st = ns' @ replicate k dotdot" "n \<noteq> dotdot"
      using st by (auto simp: clean_step_def plain_seg_def)
    then show ?thesis using 3 st sl by (auto simp: stack_ok_def)
  next
    case 4
    then have "clean_step r s st = (s # ns) @ replicate k dotdot"
      using st by (auto simp: clean_step_def plain_seg_def)
    then show ?thesis unfolding stack_ok_def using 4 st sl assms(2)
      by (intro conjI exI[of _ "s # ns"] exI[of _ k]) auto
  qed
qed

lemma stack_ok_fold: "stack_ok r st \<Longrightarrow> \<forall>s \<in> set ss. slash \<notin> set s \<Longrightarrow> stack_ok r (fold (clean_step r) ss st)"
  by (induction ss arbitrary: st) (auto simp: stack_ok_step)

lemma fold_clean_dotdots: "fold (clean_step False) (replicate k dotdot) (replicate m dotdot) = replicate (k + m) dotdot"
proof (induction k arbitrary: m)
  case (Suc k)
  have "clean_step False dotdot (replicate m dotdot) = replicate (Suc m) dotdot"
    by (cases m) (auto simp: clean_step_def)
  then show ?case using Suc[of "Suc m"] by simp
qed simp

lemma fold_clean_stack: "stack_ok r st \<Longrightarrow> fold (clean_step r) (rev st) [] = st"
proof -
  assume "stack_ok r st"
  then obtain ns k where st: "st = ns @ replicate k dotdot" "\<forall>s \<in> set ns. plain_seg s" "r \<longrightarrow> k = 0"
    by (auto simp: stack_ok_def)
  have "fold (clean_step r) (replicate k dotdot) [] = replicate k dotdot"
    using fold_clean_dotdots[of k 0] st(3) by (cases r) auto
  moreover have "filter plain_seg (rev ns) = rev ns" "dotdot \<notin> set (rev ns)"
    using st(2) by (auto simp: plain_seg_def intro!: filter_True)
  ultimately show ?thesis using st(1) by (simp add: fold_clean_no_dotdot)
qed

lemma path_segs_stack: "stack_ok (rooted p) (rev (path_segs p))"
  unfolding path_segs_def rev_rev_ident
  by (rule stack_ok_fold) (auto simp: stack_ok_def dest: in_split_slash)

lemma path_segs_plain: "rooted p \<Longrightarrow> \<forall>s \<in> set (path_segs p). plain_seg s"
  using path_segs_stack[of p] by (auto simp: stack_ok_def)

lemma path_segs_no_slash: "s \<in> set (path_segs p) \<Longrightarrow> slash \<notin> set s"
  using path_segs_stack[of p] by (auto simp: stack_ok_def)

lemma stack_ok_ne: "stack_ok r st \<Longrightarrow> s \<in> set st \<Longrightarrow> s \<noteq> []"
  by (auto simp: stack_ok_def plain_seg_def)

lemma path_segs_ne: "s \<in> set (path_segs p) \<Longrightarrow> s \<noteq> []"
  using stack_ok_ne[OF path_segs_stack, of s p] by simp

lemma rooted_join: "\<forall>s \<in> set ss. s \<noteq> [] \<and> slash \<notin> set s \<Longrightarrow> \<not> rooted (join_slash ss)"
proof (induction ss rule: join_slash.induct)
  case (2 s)
  then show ?case by (cases s) (auto simp: rooted_def)
next
  case (3 s t ss)
  then show ?case by (cases s) (auto simp: rooted_def)
qed (simp add: rooted_def)

lemma rooted_Clean [simp]: "rooted (path_Clean p) = rooted p"
proof (cases "rooted p")
  case False
  have "\<not> rooted (join_slash (path_segs p))"
    by (rule rooted_join) (auto dest: path_segs_no_slash path_segs_ne)
  with False show ?thesis by (auto simp: path_Clean_def) (simp_all add: rooted_def)
qed (auto simp: path_Clean_def rooted_def)

lemma split_Clean: "split_slash (path_Clean p) =
    (if rooted p then [[]] else []) @
    (if path_segs p = [] then if rooted p then [[]] else [dot] else path_segs p)"
proof -
  have j: "path_segs p \<noteq> [] \<Longrightarrow> split_slash (join_slash (path_segs p)) = path_segs p"
    by (rule split_join_slash) (auto dest: path_segs_no_slash)
  consider "p = []" | "p \<noteq> []" by blast
  then show ?thesis
  proof cases
    case 1
    then show ?thesis by (simp add: path_Clean_def path_segs_def rooted_def clean_step_def)
  next
    case 2
    then show ?thesis using j by (auto simp: path_Clean_def)
  qed
qed

text \<open>Cleaning twice is cleaning once: the elements of a clean path are its own.\<close>

lemma path_segs_Clean: "path_segs (path_Clean p) = path_segs p"
proof -
  have st: "fold (clean_step (rooted p)) (path_segs p) [] = rev (path_segs p)"
    using fold_clean_stack[OF path_segs_stack] by simp
  show ?thesis
    unfolding path_segs_def[of "path_Clean p"] split_Clean rooted_Clean
    using st by (auto simp: clean_step_def)
qed

lemma path_Clean_ne: "path_Clean p \<noteq> []"
proof
  assume "path_Clean p = []"
  then have "split_slash (path_Clean p) = [[]]" by simp
  then show False using path_segs_ne[of "[]" p] by (auto simp: split_Clean split: if_splits)
qed

lemma path_Clean_idem: "path_Clean (path_Clean p) = path_Clean p"
proof -
  have "path_segs [] = []" "\<not> rooted []" by (simp_all add: path_segs_def rooted_def clean_step_def)
  then have "path_Clean p = (if rooted p then slash # join_slash (path_segs p)
      else if path_segs p = [] then dot else join_slash (path_segs p))"
    by (simp add: path_Clean_def)
  also have "\<dots> = path_Clean (path_Clean p)"
    unfolding path_Clean_def[of "path_Clean p"] path_segs_Clean rooted_Clean if_not_P[OF path_Clean_ne] ..
  finally show ?thesis ..
qed

lemma rooted_Clean_no_dotdot: "rooted p \<Longrightarrow> dotdot \<notin> set (split_slash (path_Clean p))"
  using path_segs_plain[of p] by (auto simp: split_Clean plain_seg_def)

section \<open>Decoding the text encoding of a path\<close>

text \<open>
  A single-byte encoding such as Macintosh Roman: ASCII bytes stand for themselves, every other
  byte decodes to a UTF-8 sequence of bytes above 127.
\<close>

definition charmap :: "(byte \<Rightarrow> bytes) \<Rightarrow> bool" where
  "charmap f \<longleftrightarrow> (\<forall>b. if b < 128 then f b = [b] else f b \<noteq> [] \<and> (\<forall>c \<in> set (f b). 128 \<le> c))"

lemma charmap_ascii: "charmap f \<Longrightarrow> b < 128 \<Longrightarrow> f b = [b]"
  by (auto simp: charmap_def)

lemma charmap_high: "charmap f \<Longrightarrow> \<not> b < 128 \<Longrightarrow> f b \<noteq> [] \<and> (\<forall>c \<in> set (f b). \<not> c < 128)"
  by (auto simp: charmap_def not_less split: if_splits)

lemma charmap_mem: "charmap f \<Longrightarrow> c < 128 \<Longrightarrow> c \<in> set (f b) \<longleftrightarrow> b = c"
  using charmap_ascii[of f b] charmap_high[of f b] by (cases "b < 128") auto

lemma charmap_ne: "charmap f \<Longrightarrow> f b \<noteq> []"
  using charmap_ascii[of f b] charmap_high[of f b] by (cases "b < 128") auto

lemma split_slash_prefix:
  "slash \<notin> set a \<Longrightarrow> split_slash (a @ s) = (a @ hd (split_slash s)) # tl (split_slash s)"
  by (induction a) auto

lemma split_slash_decode:
  "charmap f \<Longrightarrow> split_slash (concat (map f s)) = map (\<lambda>x. concat (map f x)) (split_slash s)"
proof (induction s)
  case (Cons c s)
  then show ?case
  proof (cases "c = slash")
    case True
    then show ?thesis using Cons charmap_ascii[of f slash] by simp
  next
    case False
    then have "slash \<notin> set (f c)" using Cons.prems charmap_mem[of f slash c] by auto
    then show ?thesis using Cons False
      by (simp add: split_slash_prefix) (cases "split_slash s", auto)
  qed
qed simp

lemma decode_dotdot: "charmap f \<Longrightarrow> concat (map f x) = dotdot \<Longrightarrow> x = dotdot"
proof -
  assume f: "charmap f" and e: "concat (map f x) = dotdot"
  have "\<forall>b \<in> set x. b = 46"
  proof
    fix b assume b: "b \<in> set x"
    obtain c where c: "c \<in> set (f b)" using charmap_ne[OF f, of b] by (cases "f b") auto
    then have "c \<in> set (concat (map f x))" using b by auto
    then show "b = 46" using e c charmap_mem[OF f, of 46 b] by auto
  qed
  then have "concat (map f x) = x" using charmap_ascii[OF f, of 46] by (induction x) auto
  with e show ?thesis by simp
qed

lemma decode_keeps_no_dotdot:
  "charmap f \<Longrightarrow> dotdot \<notin> set (split_slash s) \<Longrightarrow> dotdot \<notin> set (split_slash (concat (map f s)))"
  by (auto simp: split_slash_decode dest: decode_dotdot[of f, OF _ sym])

section \<open>\<^verbatim>\<open>ReadPath\<close> stays under the file root\<close>

definition under_root :: "bytes \<Rightarrow> bytes \<Rightarrow> bool" where
  "under_root root p \<longleftrightarrow> rooted p = rooted root \<and>
     (\<exists>names. path_segs p = path_segs root @ names \<and> (\<forall>n \<in> set names. plain_seg n))"

lemma sub_path_no_dotdot: "dotdot \<notin> set (split_slash (sub_path items))"
proof (cases items rule: rev_cases)
  case Nil
  then show ?thesis by (simp add: sub_path_def)
next
  case (snoc xs x)
  then have "sub_path items = path_Clean (slash # slash # sub_path xs @ slash # fpi_Name x)"
    by (simp add: sub_path_def path_Join_def)
  then show ?thesis by (simp add: rooted_Clean_no_dotdot rooted_def del: rooted_Clean)
qed

lemma join_under_root:
  assumes root: "root \<noteq> []" and a: "dotdot \<notin> set (split_slash a)" and b: "dotdot \<notin> set (split_slash b)"
  shows "under_root root (path_Join [root, a, b])"
proof -
  let ?p = "(root @ slash # a) @ slash # b"
  have j: "path_Join [root, a, b] = path_Clean ?p" using root by (simp add: path_Join_def)
  have r: "rooted ?p = rooted root" using root by (cases root) (auto simp: rooted_def)
  have "path_segs ?p = path_segs root @ filter plain_seg (split_slash a @ split_slash b)"
    unfolding path_segs_def r split_slash_append
    using a b by (simp add: fold_clean_no_dotdot)
  then show ?thesis unfolding under_root_def j path_segs_Clean rooted_Clean using r by auto
qed

lemma ReadPath_under:
  assumes "charmap f" "\<forall>s. decoder s = Some (concat (map f s))" "fileRoot \<noteq> []"
    and "ReadPath decoder fileRoot filePath fileName = Ok p"
  shows "under_root fileRoot p"
proof -
  obtain items where "p = path_Join [fileRoot, concat (map f (sub_path items)),
      path_Join [[slash], concat (map f (sl fileName))]]"
    using assms(2,4) by (auto simp: ReadPath_def obind_Ok_iff)
  moreover have "dotdot \<notin> set (split_slash (concat (map f (sub_path items))))"
    by (rule decode_keeps_no_dotdot[OF assms(1) sub_path_no_dotdot])
  moreover have "dotdot \<notin> set (split_slash (path_Join [[slash], s]))" for s
    by (simp add: path_Join_def rooted_Clean_no_dotdot rooted_def del: rooted_Clean)
  ultimately show ?thesis using join_under_root[OF assms(3)] by simp
qed

text \<open>C8: no path a client sends reaches outside the file root.  Whatever bytes arrive as file path
  and file name, with \<^verbatim>\<open>..\<close> elements or slashes inside the items, a path that \<^verbatim>\<open>ReadPath\<close> returns is
  the cleaned file root followed by plain names.  The decoder is any single-byte character map.\<close>

theorem ReadPath_under_root:
  assumes "charmap f" "\<forall>s. decoder s = Some (concat (map f s))" "fileRoot \<noteq> []"
    and "ReadPath decoder fileRoot filePath fileName = Ok p"
  shows "under_root fileRoot p"
  by (rule ReadPath_under[OF assms])

text \<open>A path that climbs with \<^verbatim>\<open>..\<close> and hides slashes in an item and in the file name.\<close>

definition sample_charmap :: "byte \<Rightarrow> bytes" where
  "sample_charmap b = (if b < 128 then [b] else [0xE2, 0x80, b])"

theorem ReadPath_under_root_witness:
  "\<exists>p. ReadPath (\<lambda>s. Some (concat (map sample_charmap s))) (go_str ''/srv/Files'')
      (Some ([0, 2, 0, 0, 2, 46, 46, 0, 0, 8] @ go_str ''../../ab'')) (Some (go_str ''../x'')) = Ok p \<and>
    under_root (go_str ''/srv/Files'') p \<and> p = go_str ''/srv/Files/ab/x''"
proof -
  let ?d = "\<lambda>s. Some (concat (map sample_charmap s))"
  have c: "charmap sample_charmap"
    by (auto simp: charmap_def sample_charmap_def not_less)
  have r: "ReadPath ?d (go_str ''/srv/Files'')
      (Some ([0, 2, 0, 0, 2, 46, 46, 0, 0, 8] @ go_str ''../../ab'')) (Some (go_str ''../x'')) =
      Ok (go_str ''/srv/Files/ab/x'')"
    by code_simp
  show ?thesis using ReadPath_under_root[OF c _ _ r] r by auto
qed

text \<open>A path the client library encodes is the path the server walks.\<close>

lemma EncodeFilePath_eq: "EncodeFilePath p = news_path_bytes (split_slash p)"
  by (simp add: EncodeFilePath_def news_path_bytes_def path_item_bytes_def[abs_def] Let_def)

interpretation file_scan: frames fileItemScanner path_frame "\<lambda>t. t"
proof unfold_locales
  fix t r :: bytes and cap
  assume "path_frame t" "length (t @ r) \<le> cap"
  then show "fileItemScanner (t @ r) cap = Ok (length t, Some t)"
    by (auto simp: fileItemScanner_def path_frame_def Let_def nth_append)
qed (auto simp: path_frame_def fileItemScanner_def)

definition path_item :: "bytes \<Rightarrow> FilePathItem" where
  "path_item n = \<lparr>fpi_Len = u8 (length n), fpi_Name = n\<rparr>"

lemma FilePathItem_Write_bytes:
  "length n < 253 \<Longrightarrow> FilePathItem_Write (path_item_bytes n) = Ok (length n + 3, path_item n)"
proof -
  assume n: "length n < 253"
  have "unat (u8 (length n) + 3) = length n + 3"
    using n unat_u8[of "length n + 3"] by (simp add: add.commute)
  moreover have "path_item_bytes n ! 2 = u8 (length n)" by (simp add: path_item_bytes_def numeral_2_eq_2)
  ultimately show ?thesis using n
    by (simp add: FilePathItem_Write_def path_item_def unat_u8) (simp add: path_item_bytes_def)
qed

lemma file_path_items_ok:
  "holds s (concat (map path_item_bytes ps)) \<Longrightarrow> \<forall>p \<in> set ps. length p < 253 \<Longrightarrow>
   file_path_items (length ps) s = Ok (map path_item ps)"
proof (induction ps arbitrary: s)
  case (Cons p ps)
  obtain s1 where "scan fileItemScanner s = Ok (True, s1)"
    "holds s1 (concat (map path_item_bytes ps))" "scan_bytes s1 = path_item_bytes p"
    using file_scan.scan_holds[of s "path_item_bytes p" "concat (map path_item_bytes ps)"]
      Cons.prems path_frame_item[of p] by auto
  then show ?case using Cons by (simp add: FilePathItem_Write_bytes)
qed simp

lemma FilePath_Write_bytes:
  assumes "length ps < 65536" "\<forall>p \<in> set ps. length p < 253"
    "length (concat (map path_item_bytes ps)) \<le> startBufSize"
  shows "FilePath_Write zero_path (news_path_bytes ps) =
    Ok \<lparr>fp_ItemCount = u16 (length ps), fp_Items = map path_item ps\<rparr>"
proof -
  let ?b = "concat (map path_item_bytes ps)"
  have "read_full 2 (bytes_reader (news_path_bytes ps)) = Ok (be16 (u16 (length ps)), bytes_reader ?b)"
    by (cases "?b = []") (auto simp: bytes_reader_def news_path_bytes_def)
  then show ?thesis
    using assms by (simp add: FilePath_Write_def unat_u16 file_path_items_ok holds_new zero_path_def)
qed

text \<open>C35: the file path a client encodes is decoded to the same names.  \<^verbatim>\<open>EncodeFilePath\<close> splits at
  slashes; \<^verbatim>\<open>FilePath.Write\<close> gives the elements back in order, if each is shorter than 253 bytes and
  the whole fits the first buffer of the scanner.\<close>

theorem EncodeFilePath_roundtrip:
  assumes "length (split_slash p) < 65536" "\<forall>n \<in> set (split_slash p). length n < 253"
    and "length (EncodeFilePath p) \<le> startBufSize"
  shows "FilePath_Write zero_path (EncodeFilePath p) =
    Ok \<lparr>fp_ItemCount = u16 (length (split_slash p)), fp_Items = map path_item (split_slash p)\<rparr>"
  using assms unfolding EncodeFilePath_eq
  by (intro FilePath_Write_bytes) (auto simp: news_path_bytes_def)

theorem EncodeFilePath_roundtrip_witness:
  "FilePath_Write zero_path (EncodeFilePath (go_str ''Uploads/Old'')) =
    Ok \<lparr>fp_ItemCount = 2, fp_Items = [path_item (go_str ''Uploads''), path_item (go_str ''Old'')]\<rparr>"
proof -
  have s: "split_slash (go_str ''Uploads/Old'') = [go_str ''Uploads'', go_str ''Old'']"
    by (simp add: go_str_def)
  show ?thesis
    using EncodeFilePath_roundtrip[of "go_str ''Uploads/Old''"]
    by (simp add: s EncodeFilePath_eq news_path_bytes_def path_item_bytes_def startBufSize_def del: go_str_append)
qed

end
