(* ===== verification/HL_Accounts.thy ===== *)
theory HL_Accounts
  imports HL_Access HL_File_Path "HOL-Library.List_Lexorder"
begin

text \<open>
  Accounts and their storage: \<^verbatim>\<open>hotline/account.go\<close> and the YAML account manager of
  \<^verbatim>\<open>internal/mobius/account_manager.go\<close>, an in-memory cache kept in step with one file per account.
  The disk is a map from paths to contents with an oracle that decides which operation fails; bcrypt
  and the YAML library are parameters.
\<close>

section \<open>The disk\<close>

text \<open>
  The first value of the oracle belongs to the next operation: \<open>None\<close> lets it succeed, \<open>Some 0\<close>
  makes it fail without effect, \<open>Some (Suc k)\<close> makes a write fail after \<open>k\<close> bytes.
\<close>

record disk =
  dk_files :: "(bytes, bytes) gmap"
  dk_oracle :: "nat \<Rightarrow> nat option"

definition dk_tick :: "disk \<Rightarrow> disk" where
  "dk_tick d = d\<lparr>dk_oracle := \<lambda>i. dk_oracle d (Suc i)\<rparr>"

definition dk_put :: "bytes \<Rightarrow> bytes \<Rightarrow> disk \<Rightarrow> disk" where
  "dk_put p b d = d\<lparr>dk_files := mput p b (dk_files d)\<rparr>"

abbreviation dk_get :: "disk \<Rightarrow> bytes \<Rightarrow> bytes option" where
  "dk_get d \<equiv> map_of (dk_files d)"

definition os_WriteFile :: "bytes \<Rightarrow> bytes \<Rightarrow> disk \<Rightarrow> go_error option \<times> disk" where
  "os_WriteFile p b d =
     (case dk_oracle d 0 of
        None \<Rightarrow> (None, dk_put p b (dk_tick d))
      | Some 0 \<Rightarrow> (Some (Msg ''write''), dk_tick d)
      | Some (Suc k) \<Rightarrow> (Some (Msg ''write''), dk_put p (take k b) (dk_tick d)))"

definition os_Rename :: "bytes \<Rightarrow> bytes \<Rightarrow> disk \<Rightarrow> go_error option \<times> disk" where
  "os_Rename p q d =
     (case (dk_oracle d 0, dk_get d p) of
        (Some _, _) \<Rightarrow> (Some (Msg ''rename''), dk_tick d)
      | (None, None) \<Rightarrow> (Some NotExist, dk_tick d)
      | (None, Some b) \<Rightarrow>
          (None, (dk_tick d)\<lparr>dk_files := mput q b (mdel p (dk_files d))\<rparr>))"

definition os_Remove :: "bytes \<Rightarrow> disk \<Rightarrow> go_error option \<times> disk" where
  "os_Remove p d =
     (case (dk_oracle d 0, dk_get d p) of
        (Some _, _) \<Rightarrow> (Some (Msg ''remove''), dk_tick d)
      | (None, None) \<Rightarrow> (Some NotExist, dk_tick d)
      | (None, Some b) \<Rightarrow> (None, (dk_tick d)\<lparr>dk_files := mdel p (dk_files d)\<rparr>))"

text \<open>\<^verbatim>\<open>os.OpenFile\<close> with \<^verbatim>\<open>O_CREATE|O_EXCL|O_WRONLY\<close>.\<close>

definition os_CreateExcl :: "bytes \<Rightarrow> disk \<Rightarrow> go_error option \<times> disk" where
  "os_CreateExcl p d =
     (case (dk_oracle d 0, dk_get d p) of
        (Some _, _) \<Rightarrow> (Some (Msg ''open''), dk_tick d)
      | (None, Some b) \<Rightarrow> (Some (Msg ''file exists''), dk_tick d)
      | (None, None) \<Rightarrow> (None, dk_put p [] (dk_tick d)))"

definition os_ReadFile :: "bytes \<Rightarrow> disk \<Rightarrow> (go_error + bytes) \<times> disk" where
  "os_ReadFile p d =
     (case (dk_oracle d 0, dk_get d p) of
        (Some _, _) \<Rightarrow> (Inl (Msg ''read''), dk_tick d)
      | (None, None) \<Rightarrow> (Inl NotExist, dk_tick d)
      | (None, Some b) \<Rightarrow> (Inr b, dk_tick d))"

lemmas disk_ops = os_WriteFile_def os_Rename_def os_Remove_def os_CreateExcl_def os_ReadFile_def
  dk_tick_def dk_put_def

lemma os_WriteFile_ok: "os_WriteFile p b d = (None, d') \<Longrightarrow> dk_get d' = (dk_get d)(p \<mapsto> b)"
  by (auto simp: disk_ops split: option.splits nat.splits)

lemma os_WriteFile_other: "q \<noteq> p \<Longrightarrow> dk_get (snd (os_WriteFile p b d)) q = dk_get d q"
  by (auto simp: disk_ops split: option.splits nat.splits)

lemma os_Rename_ok:
  "os_Rename p q d = (None, d') \<Longrightarrow> \<exists>b. dk_get d p = Some b \<and> dk_get d' = (dk_get d)(p := None, q \<mapsto> b)"
  by (auto simp: disk_ops split: option.splits)

lemma os_Rename_err: "os_Rename p q d = (Some e, d') \<Longrightarrow> dk_files d' = dk_files d"
  by (auto simp: disk_ops split: option.splits)

lemma os_Remove_ok: "os_Remove p d = (None, d') \<Longrightarrow> dk_get d' = (dk_get d)(p := None)"
  by (auto simp: disk_ops split: option.splits)

lemma os_Remove_err: "os_Remove p d = (Some e, d') \<Longrightarrow> dk_files d' = dk_files d"
  by (auto simp: disk_ops split: option.splits)

lemma os_CreateExcl_ok:
  "os_CreateExcl p d = (None, d') \<Longrightarrow> dk_get d p = None \<and> dk_get d' = (dk_get d)(p \<mapsto> [])"
  by (auto simp: disk_ops split: option.splits)

lemma os_CreateExcl_err: "os_CreateExcl p d = (Some e, d') \<Longrightarrow> dk_files d' = dk_files d"
  by (auto simp: disk_ops split: option.splits)

section \<open>Accounts\<close>

record account =
  ac_Login :: bytes
  ac_Name :: bytes
  ac_Password :: bytes
  ac_Access :: AccessBitmap
  ac_FileRoot :: bytes

text \<open>
  bcrypt: hashing takes its salt from the random source and fails on passwords it does not accept,
  which \<^verbatim>\<open>HashAndSalt\<close> ignores, keeping the empty string.
\<close>

type_synonym hasher = "32 word \<Rightarrow> bytes \<Rightarrow> bytes option"
type_synonym checker = "bytes \<Rightarrow> bytes \<Rightarrow> bool"

definition HashAndSalt :: "hasher \<Rightarrow> 32 word \<Rightarrow> bytes \<Rightarrow> bytes" where
  "HashAndSalt hash salt pwd = (case hash salt pwd of Some h \<Rightarrow> h | None \<Rightarrow> [])"

definition NewAccount :: "hasher \<Rightarrow> 32 word \<Rightarrow> bytes \<Rightarrow> bytes \<Rightarrow> bytes \<Rightarrow> AccessBitmap \<Rightarrow> account" where
  "NewAccount hash salt login name password access =
     \<lparr>ac_Login = login, ac_Name = name, ac_Password = HashAndSalt hash salt password,
      ac_Access = access, ac_FileRoot = []\<rparr>"

definition Account_bytes :: "checker \<Rightarrow> account \<Rightarrow> bytes" where
  "Account_bytes check a =
     (let fs = [NewField FieldUserName (ac_Name a), NewField FieldUserLogin (EncodeString (ac_Login a)),
            NewField FieldUserAccess (be64 (ac_Access a))] @
          (if \<not> check (ac_Password a) [] then [NewField FieldUserPassword (go_str ''x'')] else [])
      in be16 (u16 (length fs)) @ concat (map Field_bytes fs))"

definition Account_Read ::
  "checker \<Rightarrow> nat \<Rightarrow> nat \<Rightarrow> account \<Rightarrow> (bytes \<times> go_error option) \<times> nat" where
  "Account_Read check n off a = readFrom n off (Account_bytes check a)"

section \<open>The YAML account manager\<close>

record YAMLAccountManager =
  am_accounts :: "(bytes, account) gmap"
  am_accountDir :: bytes

type_synonym yaml_out = "account \<Rightarrow> bytes option"
type_synonym yaml_in = "bytes \<Rightarrow> account option"

definition am_Create :: "yaml_out \<Rightarrow> account \<Rightarrow> YAMLAccountManager \<times> disk \<Rightarrow>
    go_error option \<times> YAMLAccountManager \<times> disk" where
  "am_Create marshal acc s =
     (case s of (am, d) \<Rightarrow>
        let file = path_Join [am_accountDir am, path_Join [[slash], ac_Login acc @ go_str ''.yaml'']] in
        (case os_CreateExcl file d of
           (Some e, d1) \<Rightarrow> (Some e, am, d1)
         | (None, d1) \<Rightarrow>
             (case marshal acc of
                None \<Rightarrow> (Some (Msg ''marshal account to YAML''), am, d1)
              | Some b \<Rightarrow>
                  (case os_WriteFile file b d1 of
                     (Some e, d2) \<Rightarrow> (Some e, am, d2)
                   | (None, d2) \<Rightarrow> (None, am\<lparr>am_accounts := mput (ac_Login acc) acc (am_accounts am)\<rparr>, d2)))))"

text \<open>
  The rename of \<^verbatim>\<open>Update\<close> sanitises both logins with \<^verbatim>\<open>path.Join("/", login)\<close>; the write that
  follows does not.
\<close>

definition am_Update :: "yaml_out \<Rightarrow> account \<Rightarrow> bytes \<Rightarrow> YAMLAccountManager \<times> disk \<Rightarrow>
    go_error option \<times> YAMLAccountManager \<times> disk" where
  "am_Update marshal acc newLogin s =
     (case s of (am, d) \<Rightarrow>
        let renamed =
          (if ac_Login acc \<noteq> newLogin then
             (case os_Rename
                 (path_Join [am_accountDir am, path_Join [[slash], ac_Login acc] @ go_str ''.yaml''])
                 (path_Join [am_accountDir am, path_Join [[slash], newLogin] @ go_str ''.yaml'']) d of
                (Some e, d1) \<Rightarrow> Inl (e, d1)
              | (None, d1) \<Rightarrow>
                  let acc' = acc\<lparr>ac_Login := newLogin\<rparr> in
                  Inr (acc', am\<lparr>am_accounts := mput newLogin acc' (mdel (ac_Login acc) (am_accounts am))\<rparr>, d1))
           else Inr (acc, am, d))
        in case renamed of
             Inl (e, d1) \<Rightarrow> (Some e, am, d1)
           | Inr (acc1, am1, d1) \<Rightarrow>
               (case marshal acc1 of
                  None \<Rightarrow> (Some (Msg ''marshal''), am1, d1)
                | Some b \<Rightarrow>
                    (case os_WriteFile (path_Join [am_accountDir am1, newLogin @ go_str ''.yaml'']) b d1 of
                       (Some e, d2) \<Rightarrow> (Some e, am1, d2)
                     | (None, d2) \<Rightarrow>
                         (None, am1\<lparr>am_accounts := mput (ac_Login acc1) acc1 (am_accounts am1)\<rparr>, d2))))"

definition am_Get :: "bytes \<Rightarrow> YAMLAccountManager \<Rightarrow> account option" where
  "am_Get login am = map_of (am_accounts am) login"

definition am_List :: "YAMLAccountManager \<Rightarrow> account list" where
  "am_List am = map snd (am_accounts am)"

definition am_Delete :: "bytes \<Rightarrow> YAMLAccountManager \<times> disk \<Rightarrow>
    go_error option \<times> YAMLAccountManager \<times> disk" where
  "am_Delete login s =
     (case s of (am, d) \<Rightarrow>
        (case os_Remove (path_Join [am_accountDir am, path_Join [[slash], login @ go_str ''.yaml'']]) d of
           (Some e, d1) \<Rightarrow> (Some e, am, d1)
         | (None, d1) \<Rightarrow> (None, am\<lparr>am_accounts := mdel login (am_accounts am)\<rparr>, d1)))"

text \<open>
  Start-up.  \<^verbatim>\<open>filepath.Glob\<close> finds the names that match \<^verbatim>\<open>*.yaml\<close> in the directory, in lexical
  order; a file without the marker of the new access format is saved again.
\<close>

definition glob_yaml :: "bytes \<Rightarrow> disk \<Rightarrow> bytes list" where
  "glob_yaml dir d =
     (let pat = path_Join [dir, go_str ''*.yaml'']; pre = take (length pat - 6) pat in
      sort (filter (\<lambda>p. take (length pre) p = pre \<and> slash \<notin> set (drop (length pre) p) \<and>
          5 \<le> length (drop (length pre) p) \<and> drop (length p - 5) p = go_str ''.yaml'')
        (map fst (dk_files d))))"

fun am_load :: "yaml_in \<Rightarrow> yaml_out \<Rightarrow> bytes list \<Rightarrow> YAMLAccountManager \<times> disk \<Rightarrow>
    go_error option \<times> YAMLAccountManager \<times> disk" where
  "am_load unmarshal marshal [] s = (None, s)"
| "am_load unmarshal marshal (p # ps) (am, d) =
     (case os_ReadFile p d of
        (Inl e, d1) \<Rightarrow> (Some e, am, d1)
      | (Inr c, d1) \<Rightarrow>
          (case unmarshal c of
             None \<Rightarrow> (Some (Msg ''unmarshal''), am, d1)
           | Some acc \<Rightarrow>
               (case (if contains (go_str ''    DownloadFile:'') c then (None, am, d1)
                      else am_Update marshal acc (ac_Login acc) (am, d1)) of
                  (Some e, s2) \<Rightarrow> (Some e, s2)
                | (None, am2, d2) \<Rightarrow>
                    am_load unmarshal marshal ps
                      (am2\<lparr>am_accounts := mput (ac_Login acc) acc (am_accounts am2)\<rparr>, d2))))"

definition NewYAMLAccountManager :: "yaml_in \<Rightarrow> yaml_out \<Rightarrow> bytes \<Rightarrow> disk \<Rightarrow>
    go_error option \<times> YAMLAccountManager \<times> disk" where
  "NewYAMLAccountManager unmarshal marshal accountDir d =
     (let am = \<lparr>am_accounts = [], am_accountDir = accountDir\<rparr>; matches = glob_yaml accountDir d in
      if matches = [] then (Some (Msg ''no accounts found in directory''), am, d)
      else am_load unmarshal marshal matches (am, d))"

section \<open>The account manager as a store\<close>

text \<open>
  What the handlers rely on: after a successful call the lookups are those of a map, a failed
  \<^verbatim>\<open>Create\<close> or \<^verbatim>\<open>Delete\<close> changes no lookup, and \<^verbatim>\<open>Update\<close>, which can fail half way, never brings in
  an account other than the one it was given.
\<close>

locale account_store =
  fixes getA :: "bytes \<Rightarrow> 's \<Rightarrow> account option"
    and createA :: "account \<Rightarrow> 's \<Rightarrow> go_error option \<times> 's"
    and updateA :: "account \<Rightarrow> bytes \<Rightarrow> 's \<Rightarrow> go_error option \<times> 's"
    and deleteA :: "bytes \<Rightarrow> 's \<Rightarrow> go_error option \<times> 's"
  assumes create_ok: "createA a s = (None, s') \<Longrightarrow>
      getA l s' = (if l = ac_Login a then Some a else getA l s)"
    and create_err: "createA a s = (Some e, s') \<Longrightarrow> getA l s' = getA l s"
    and update_ok: "updateA a n s = (None, s') \<Longrightarrow>
      getA l s' = (if l = n then Some (a\<lparr>ac_Login := n\<rparr>) else if l = ac_Login a then None else getA l s)"
    and update_src: "getA l (snd (updateA a n s)) = Some b \<Longrightarrow> b = a\<lparr>ac_Login := n\<rparr> \<or> getA l s = Some b"
    and delete_ok: "deleteA n s = (None, s') \<Longrightarrow> getA l s' = (if l = n then None else getA l s)"
    and delete_err: "deleteA n s = (Some e, s') \<Longrightarrow> getA l s' = getA l s"
begin

definition all_accounts :: "(account \<Rightarrow> bool) \<Rightarrow> 's \<Rightarrow> bool" where
  "all_accounts P s \<longleftrightarrow> (\<forall>l a. getA l s = Some a \<longrightarrow> P a)"

lemma create_keeps:
  assumes "all_accounts P s" "P a"
  shows "all_accounts P (snd (createA a s))"
  using assms create_ok[of a s] create_err[of a s]
  by (cases "createA a s"; cases "fst (createA a s)") (auto simp: all_accounts_def split: if_splits)

lemma update_keeps:
  assumes "all_accounts P s" "P (a\<lparr>ac_Login := n\<rparr>)"
  shows "all_accounts P (snd (updateA a n s))"
  using assms update_src unfolding all_accounts_def by blast

lemma delete_keeps:
  assumes "all_accounts P s"
  shows "all_accounts P (snd (deleteA n s))"
  using assms delete_ok[of n s] delete_err[of n s]
  by (cases "deleteA n s"; cases "fst (deleteA n s)") (auto simp: all_accounts_def split: if_splits)

lemma create_then_get: "createA a s = (None, s') \<Longrightarrow> getA (ac_Login a) s' = Some a"
  by (simp add: create_ok)

lemma rename_moves:
  "updateA a n s = (None, s') \<Longrightarrow> n \<noteq> ac_Login a \<Longrightarrow>
   getA n s' = Some (a\<lparr>ac_Login := n\<rparr>) \<and> getA (ac_Login a) s' = None"
  by (simp add: update_ok)

end

lemma am_Create_Get:
  "am_Create marshal a s = (r, s') \<Longrightarrow>
   am_Get l (fst s') = (if r = None \<and> l = ac_Login a then Some a else am_Get l (fst s))"
  by (auto simp: am_Create_def am_Get_def Let_def split: prod.splits option.splits)

lemma am_Update_Get:
  "am_Update marshal a n s = (None, s') \<Longrightarrow>
   am_Get l (fst s') = (if l = n then Some (a\<lparr>ac_Login := n\<rparr>) else if l = ac_Login a then None
     else am_Get l (fst s))"
  by (auto simp: am_Update_def am_Get_def Let_def split: prod.splits option.splits if_splits)

lemma am_Update_src:
  "am_Get l (fst (snd (am_Update marshal a n s))) = Some b \<Longrightarrow>
   b = a\<lparr>ac_Login := n\<rparr> \<or> am_Get l (fst s) = Some b"
  by (cases "ac_Login a = n")
    (auto simp: am_Update_def am_Get_def Let_def split: prod.splits option.splits if_splits)

lemma am_Delete_Get:
  "am_Delete n s = (r, s') \<Longrightarrow>
   am_Get l (fst s') = (if r = None \<and> l = n then None else am_Get l (fst s))"
  by (auto simp: am_Delete_def am_Get_def Let_def split: prod.splits option.splits)

interpretation yaml_store: account_store "\<lambda>l s. am_Get l (fst s)" "am_Create marshal"
    "am_Update marshal" am_Delete
  for marshal
  by unfold_locales (auto simp: am_Create_Get am_Update_Get am_Update_src am_Delete_Get)

section \<open>Cache and files agree\<close>

definition plain_login :: "bytes \<Rightarrow> bool" where
  "plain_login l \<longleftrightarrow> slash \<notin> set l \<and> l \<noteq> dot \<and> l \<noteq> dotdot"

definition account_file :: "bytes \<Rightarrow> bytes \<Rightarrow> bytes" where
  "account_file dir login = path_Join [dir, path_Join [[slash], login @ go_str ''.yaml'']]"

definition synced :: "yaml_in \<Rightarrow> YAMLAccountManager \<times> disk \<Rightarrow> bool" where
  "synced unmarshal s \<longleftrightarrow>
     (\<forall>l a. am_Get l (fst s) = Some a \<longrightarrow> plain_login l \<longrightarrow> ac_Login a = l \<and>
        (\<exists>c. dk_get (snd s) (account_file (am_accountDir (fst s)) l) = Some c \<and> unmarshal c = Some a))"

lemma path_Clean_cong:
  "p \<noteq> [] \<Longrightarrow> q \<noteq> [] \<Longrightarrow> rooted p = rooted q \<Longrightarrow> path_segs p = path_segs q \<Longrightarrow> path_Clean p = path_Clean q"
  by (simp add: path_Clean_def)

lemma yaml_seg: "plain_seg (l @ go_str ''.yaml'')" 
  by (cases l; cases "tl l") (auto simp: plain_seg_def go_str_def)

lemma slash_yaml: "slash \<notin> set l \<Longrightarrow> slash \<notin> set (l @ go_str ''.yaml'')"
  by (simp add: go_str_def)

lemma path_segs_child:
  "dir \<noteq> [] \<Longrightarrow> plain_seg n \<Longrightarrow> slash \<notin> set n \<Longrightarrow> path_segs (dir @ slash # n) = path_segs dir @ [n]"
proof -
  assume a: "dir \<noteq> []" "plain_seg n" "slash \<notin> set n"
  then have "rooted (dir @ slash # n) = rooted dir" by (cases dir) (auto simp: rooted_def)
  then show ?thesis using a
    by (auto simp: path_segs_def split_slash_append split_slash_no_slash clean_step_def plain_seg_def)
qed

lemma path_segs_root: "slash \<notin> set n \<Longrightarrow> plain_seg n \<Longrightarrow> path_segs (slash # n) = [n]"
  by (auto simp: path_segs_def rooted_def split_slash_no_slash clean_step_def plain_seg_def)

lemma path_segs_skip:
  "dir \<noteq> [] \<Longrightarrow> path_segs (dir @ slash # slash # n) = path_segs (dir @ slash # n)"
proof -
  assume a: "dir \<noteq> []"
  then have "rooted (dir @ slash # slash # n) = rooted (dir @ slash # n)" by (cases dir) (auto simp: rooted_def)
  then show ?thesis by (simp add: path_segs_def split_slash_append clean_step_def)
qed

lemma rooted_app: "dir \<noteq> [] \<Longrightarrow> rooted (dir @ x) = rooted dir"
  by (cases dir) (auto simp: rooted_def)

lemma join_root: "slash \<notin> set n \<Longrightarrow> plain_seg n \<Longrightarrow> path_Join [[slash], n] = slash # n"
proof -
  assume a: "slash \<notin> set n" "plain_seg n"
  have "path_segs ([slash] @ slash # n) = path_segs (slash # n)"
    using path_segs_skip[of "[slash]" n] by (simp add: path_segs_def rooted_def clean_step_def)
  then show ?thesis using a path_segs_root[of n] by (simp add: path_Join_def path_Clean_def rooted_def)
qed

lemma account_file_eq:
  assumes "dir \<noteq> []" "plain_login l"
  shows "account_file dir l = path_Clean (dir @ slash # l @ go_str ''.yaml'')"
proof -
  have n: "slash \<notin> set (l @ go_str ''.yaml'')" using assms slash_yaml by (auto simp: plain_login_def)
  have "account_file dir l = path_Clean (dir @ slash # slash # l @ go_str ''.yaml'')"
    using join_root[OF n yaml_seg] assms by (simp add: account_file_def path_Join_def)
  then show ?thesis
    using path_segs_skip[OF assms(1)] assms by (simp add: rooted_app path_Clean_def)
qed

lemma account_file_segs:
  assumes "dir \<noteq> []" "plain_login l"
  shows "path_segs (account_file dir l) = path_segs dir @ [l @ go_str ''.yaml'']"
  unfolding account_file_eq[OF assms] path_segs_Clean
  using assms yaml_seg slash_yaml by (intro path_segs_child) (auto simp: plain_login_def)

lemma account_file_inj:
  "dir \<noteq> [] \<Longrightarrow> plain_login l \<Longrightarrow> plain_login m \<Longrightarrow> account_file dir l = account_file dir m \<longleftrightarrow> l = m"
proof -
  assume a: "dir \<noteq> []" "plain_login l" "plain_login m"
  show ?thesis
  proof
    assume "account_file dir l = account_file dir m"
    then have "path_segs dir @ [l @ go_str ''.yaml''] = path_segs dir @ [m @ go_str ''.yaml'']"
      using account_file_segs[OF a(1,2)] account_file_segs[OF a(1,3)] by metis
    then show "l = m" by simp
  qed simp
qed

text \<open>The two other spellings that \<^verbatim>\<open>Update\<close> uses name the same file for a plain login.\<close>

lemma update_file_rename:
  assumes "plain_login l"
  shows "path_Join [dir, path_Join [[slash], l] @ go_str ''.yaml''] = account_file dir l"
proof (cases "l = []")
  case True
  have "path_Join [[slash], []] = [slash]" "path_Join [[slash], go_str ''.yaml''] = slash # go_str ''.yaml''"
    by (code_simp, code_simp)
  then show ?thesis using True by (simp add: account_file_def)
next
  case False
  then have "path_Join [[slash], l] = slash # l"
    using assms by (intro join_root) (auto simp: plain_login_def plain_seg_def)
  moreover have "path_Join [[slash], l @ go_str ''.yaml''] = slash # l @ go_str ''.yaml''"
    using assms slash_yaml yaml_seg by (intro join_root) (auto simp: plain_login_def)
  ultimately show ?thesis by (simp add: account_file_def)
qed

lemma update_file_write:
  "dir \<noteq> [] \<Longrightarrow> plain_login l \<Longrightarrow> path_Join [dir, l @ go_str ''.yaml''] = account_file dir l"
  by (simp add: account_file_eq path_Join_def)


datatype am_op = OpCreate account | OpUpdate account bytes | OpDelete bytes

fun am_apply :: "yaml_out \<Rightarrow> am_op \<Rightarrow> YAMLAccountManager \<times> disk \<Rightarrow>
    go_error option \<times> YAMLAccountManager \<times> disk" where
  "am_apply marshal (OpCreate a) s = am_Create marshal a s"
| "am_apply marshal (OpUpdate a n) s = am_Update marshal a n s"
| "am_apply marshal (OpDelete l) s = am_Delete l s"

fun plain_op :: "am_op \<Rightarrow> bool" where
  "plain_op (OpCreate a) \<longleftrightarrow> plain_login (ac_Login a)"
| "plain_op (OpUpdate a n) \<longleftrightarrow> plain_login (ac_Login a) \<and> plain_login n"
| "plain_op (OpDelete l) \<longleftrightarrow> plain_login l"

text \<open>The law of the YAML library: what it wrote for an account it reads back as that account.\<close>

definition yaml_ok :: "yaml_out \<Rightarrow> yaml_in \<Rightarrow> bool" where
  "yaml_ok marshal unmarshal \<longleftrightarrow> (\<forall>a b. marshal a = Some b \<longrightarrow> unmarshal b = Some a)"

lemma am_ops_dir: "am_apply marshal op s = (r, s') \<Longrightarrow> am_accountDir (fst s') = am_accountDir (fst s)"
  by (cases op) (auto simp: am_Create_def am_Update_def am_Delete_def Let_def
      split: prod.splits option.splits if_splits)

lemma am_Create_file:
  assumes "am_Create marshal a s = (None, s')"
  shows "\<exists>b. marshal a = Some b \<and>
    dk_get (snd s') = (dk_get (snd s))(account_file (am_accountDir (fst s)) (ac_Login a) \<mapsto> b)"
  using assms
  by (auto simp: am_Create_def account_file_def Let_def dest!: os_CreateExcl_ok os_WriteFile_ok
      split: prod.splits option.splits)

lemma am_Create_fail_file:
  assumes "am_Create marshal a s = (Some e, s')" "dk_get (snd s) p = Some c"
  shows "dk_get (snd s') p = Some c"
proof -
  obtain am d where s: "s = (am, d)" by (cases s)
  let ?f = "account_file (am_accountDir am) (ac_Login a)"
  obtain r d1 where c: "os_CreateExcl ?f d = (r, d1)" by fastforce
  show ?thesis
  proof (cases r)
    case (Some e')
    then show ?thesis using assms c os_CreateExcl_err[of ?f d e' d1] s
      by (auto simp: am_Create_def account_file_def)
  next
    case None
    then have n: "dk_get d ?f = None" "dk_get d1 = (dk_get d)(?f \<mapsto> [])"
      using os_CreateExcl_ok[of ?f d d1] c by auto
    then have "p \<noteq> ?f" using assms s by auto
    then have "dk_get d1 p = Some c" "dk_get (snd (os_WriteFile ?f b d1)) p = Some c" for b
      using n assms s by (auto simp: os_WriteFile_other)
    then show ?thesis using assms c None s
      by (auto simp: am_Create_def account_file_def[symmetric] Let_def split: option.splits prod.splits)
        (metis snd_conv)+
  qed
qed

lemma am_Update_file:
  assumes "am_Update marshal a n s = (None, s')" "plain_login (ac_Login a)" "plain_login n"
    "am_accountDir (fst s) \<noteq> []"
  shows "\<exists>b. marshal (a\<lparr>ac_Login := n\<rparr>) = Some b \<and> dk_get (snd s') =
    (dk_get (snd s))(account_file (am_accountDir (fst s)) (ac_Login a) := None,
      account_file (am_accountDir (fst s)) n \<mapsto> b)"
proof -
  obtain am d where s: "s = (am, d)" by (cases s)
  show ?thesis
  proof (cases "ac_Login a = n")
    case True
    then have "a\<lparr>ac_Login := n\<rparr> = a" by (cases a) simp
    then show ?thesis using assms s True
      by (auto simp: am_Update_def update_file_write dest!: os_WriteFile_ok split: option.splits prod.splits)
  next
    case False
    then show ?thesis using assms s
      by (auto simp: am_Update_def update_file_write update_file_rename Let_def
          dest!: os_WriteFile_ok os_Rename_ok split: option.splits prod.splits)
  qed
qed

lemma am_Delete_file:
  assumes "am_Delete l s = (r, s')"
  shows "dk_get (snd s') = (if r = None
    then (dk_get (snd s))(account_file (am_accountDir (fst s)) l := None) else dk_get (snd s))"
  using assms
  by (auto simp: am_Delete_def account_file_def Let_def dest!: os_Remove_ok os_Remove_err
      split: prod.splits option.splits)

lemma synced_step:
  assumes "synced unmarshal s" "am_accountDir (fst s') = am_accountDir (fst s)"
    and "\<And>l acc. plain_login l \<Longrightarrow> am_Get l (fst s') = Some acc \<Longrightarrow>
      (ac_Login acc = l \<and> (\<exists>c. dk_get (snd s') (account_file (am_accountDir (fst s)) l) = Some c \<and>
         unmarshal c = Some acc)) \<or>
      am_Get l (fst s) = Some acc \<and> (\<forall>c. dk_get (snd s) (account_file (am_accountDir (fst s)) l) = Some c \<longrightarrow>
        dk_get (snd s') (account_file (am_accountDir (fst s)) l) = Some c)"
  shows "synced unmarshal s'"
  unfolding synced_def assms(2)
proof (intro allI impI)
  fix l acc assume l: "am_Get l (fst s') = Some acc" "plain_login l"
  show "ac_Login acc = l \<and> (\<exists>c. dk_get (snd s') (account_file (am_accountDir (fst s)) l) = Some c \<and>
         unmarshal c = Some acc)"
    using assms(3)[OF l(2,1)] assms(1) l(2) unfolding synced_def by blast
qed


text \<open>A YAML library for accounts that have only a login, and the creation of one of them.\<close>

definition bare_account :: "bytes \<Rightarrow> account" where
  "bare_account l = \<lparr>ac_Login = l, ac_Name = [], ac_Password = [], ac_Access = 0, ac_FileRoot = []\<rparr>"

definition bare_marshal :: yaml_out where
  "bare_marshal a = (if a = bare_account (ac_Login a) then Some (ac_Login a) else None)"

definition bare_unmarshal :: yaml_in where
  "bare_unmarshal b = Some (bare_account b)"

definition users_dir :: "YAMLAccountManager \<times> disk" where
  "users_dir = (\<lparr>am_accounts = [], am_accountDir = go_str ''Users''\<rparr>,
     \<lparr>dk_files = [], dk_oracle = \<lambda>_. None\<rparr>)"


text \<open>
  Logins that are not plain break this.  The login a client sends to delete is cleaned for the file
  but not for the cache: another account's file goes and its cache entry stays.
\<close>

definition one_user :: "YAMLAccountManager \<times> disk" where
  "one_user = (\<lparr>am_accounts = [(go_str ''bob'', bare_account (go_str ''bob''))], am_accountDir = go_str ''Users''\<rparr>,
     \<lparr>dk_files = [(go_str ''Users/bob.yaml'', go_str ''bob'')], dk_oracle = \<lambda>_. None\<rparr>)"

text \<open>A login with a slash deletes another account's file.  Deleting \<^verbatim>\<open>x/../bob\<close> succeeds, removes
  the file of \<^verbatim>\<open>bob\<close> and leaves \<^verbatim>\<open>bob\<close> able to log in until the server restarts.\<close>

theorem delete_escapes_cache:
  "fst (am_Delete (go_str ''x/../bob'') one_user) = None \<and>
   dk_get (snd (snd (am_Delete (go_str ''x/../bob'') one_user))) (go_str ''Users/bob.yaml'') = None \<and>
   am_Get (go_str ''bob'') (fst (snd (am_Delete (go_str ''x/../bob'') one_user))) =
     Some (bare_account (go_str ''bob''))"
proof -
  have "path_Join [go_str ''Users'', path_Join [[slash], go_str ''x/../bob'' @ go_str ''.yaml'']] =
      go_str ''Users/bob.yaml''"
    by code_simp
  moreover have "go_str ''x/../bob'' \<noteq> go_str ''bob''" by (simp add: go_str_def)
  ultimately show ?thesis
    by (simp add: am_Delete_def one_user_def disk_ops am_Get_def del: go_str_append)
qed

text \<open>Renaming an account writes outside the account directory.  \<^verbatim>\<open>Update\<close> cleans both logins for
  the rename but not the new one for the write, so a new login with \<^verbatim>\<open>..\<close> leaves the directory.\<close>

theorem update_writes_outside:
  "fst (am_Update bare_marshal (bare_account (go_str ''bob'')) (go_str ''../evil'') one_user) = None \<and>
   dk_get (snd (snd (am_Update bare_marshal (bare_account (go_str ''bob'')) (go_str ''../evil'') one_user)))
     (go_str ''evil.yaml'') = Some (go_str ''../evil'')"
proof -
  have files:
    "path_Join [go_str ''Users'', path_Join [[slash], go_str ''bob''] @ go_str ''.yaml''] = go_str ''Users/bob.yaml''"
    "path_Join [go_str ''Users'', path_Join [[slash], go_str ''../evil''] @ go_str ''.yaml''] = go_str ''Users/evil.yaml''"
    "path_Join [go_str ''Users'', go_str ''../evil'' @ go_str ''.yaml''] = go_str ''evil.yaml''"
    by (code_simp, code_simp, code_simp)
  have "go_str ''bob'' \<noteq> go_str ''../evil''" by (simp add: go_str_def)
  then show ?thesis
    by (simp add: am_Update_def one_user_def bare_account_def bare_marshal_def files disk_ops Let_def del: go_str_append)
qed

end
