(* ===== verification/HL_Bans.thy ===== *)
theory HL_Bans
  imports HL_Accounts
begin

text \<open>
  The ban list of \<^verbatim>\<open>internal/mobius/ban.go\<close>: banned addresses with an optional end, banned logins and
  banned nicknames, written to one YAML file on every change and rolled back when the write fails.
  The YAML library is a parameter.
\<close>

type_synonym time = int

text \<open>
  A \<^verbatim>\<open>nil\<close> end of a ban means for ever.  Loading a file of the old format can leave \<^verbatim>\<open>banList\<close> a nil
  map, which can be read but not written; the other two maps are never nil.
\<close>

record BanFile =
  bf_banList :: "(bytes, time option) gmap option"
  bf_bannedUsers :: "(bytes, bool) gmap"
  bf_bannedNicks :: "(bytes, bool) gmap"
  bf_filePath :: bytes

record BanFileData =
  bd_BanList :: "(bytes, time option) gmap option"
  bd_BannedUsers :: "(bytes, bool) gmap option"
  bd_BannedNicks :: "(bytes, bool) gmap option"

text \<open>The YAML library: how it writes the data, and how it reads a file as new and as old data.\<close>

record ban_yaml =
  by_marshal :: "BanFileData \<Rightarrow> bytes option"
  by_unmarshal :: "bytes \<Rightarrow> BanFileData option"
  by_legacy :: "bytes \<Rightarrow> (bytes, time option) gmap option option"

definition nil_map :: "'a list option \<Rightarrow> 'a list" where
  "nil_map m = (case m of None \<Rightarrow> [] | Some xs \<Rightarrow> xs)"

definition bf_Load :: "ban_yaml \<Rightarrow> BanFile \<times> disk \<Rightarrow> go_error option \<times> BanFile \<times> disk" where
  "bf_Load y s =
     (case s of (bf, d) \<Rightarrow>
        let bf0 = bf\<lparr>bf_banList := Some [], bf_bannedUsers := [], bf_bannedNicks := []\<rparr> in
        (case os_ReadFile (bf_filePath bf) d of
           (Inl e, d1) \<Rightarrow> (if e = NotExist then None else Some e, bf0, d1)
         | (Inr c, d1) \<Rightarrow>
             (case by_unmarshal y c of
                Some dat \<Rightarrow>
                  if bd_BanList dat \<noteq> None \<or> bd_BannedUsers dat \<noteq> None \<or> bd_BannedNicks dat \<noteq> None then
                    (None, bf0\<lparr>bf_banList := Some (nil_map (bd_BanList dat)),
                       bf_bannedUsers := nil_map (bd_BannedUsers dat),
                       bf_bannedNicks := nil_map (bd_BannedNicks dat)\<rparr>, d1)
                  else (case by_legacy y c of
                          None \<Rightarrow> (Some (Msg ''decode yaml''), bf0, d1)
                        | Some m \<Rightarrow> (None, bf0\<lparr>bf_banList := m\<rparr>, d1))
              | None \<Rightarrow> (case by_legacy y c of
                          None \<Rightarrow> (Some (Msg ''decode yaml''), bf0, d1)
                        | Some m \<Rightarrow> (None, bf0\<lparr>bf_banList := m\<rparr>, d1)))))"

definition NewBanFile :: "ban_yaml \<Rightarrow> bytes \<Rightarrow> disk \<Rightarrow> go_error option \<times> BanFile \<times> disk" where
  "NewBanFile y path d = bf_Load y
     (\<lparr>bf_banList = Some [], bf_bannedUsers = [], bf_bannedNicks = [], bf_filePath = path\<rparr>, d)"

definition bf_save :: "ban_yaml \<Rightarrow> BanFile \<times> disk \<Rightarrow> go_error option \<times> disk" where
  "bf_save y s =
     (case s of (bf, d) \<Rightarrow>
        (case by_marshal y \<lparr>bd_BanList = bf_banList bf, bd_BannedUsers = Some (bf_bannedUsers bf),
                bd_BannedNicks = Some (bf_bannedNicks bf)\<rparr> of
           None \<Rightarrow> (Some (Msg ''marshal yaml''), d)
         | Some b \<Rightarrow> os_WriteFile (path_Join [bf_filePath bf]) b d))"

text \<open>
  The body that every change shares: change the map, save, and on failure put the old entry back.
  \<open>restore old m\<close> is what the error branch makes of the changed map.
\<close>

definition restore :: "'k \<Rightarrow> 'v option \<Rightarrow> ('k, 'v) gmap \<Rightarrow> ('k, 'v) gmap" where
  "restore k old m = (case old of Some v \<Rightarrow> mput k v m | None \<Rightarrow> mdel k m)"

definition bf_Add :: "ban_yaml \<Rightarrow> bytes \<Rightarrow> time option \<Rightarrow> BanFile \<times> disk \<Rightarrow>
    (go_error option \<times> BanFile \<times> disk) outcome" where
  "bf_Add y ip until s =
     (case s of (bf, d) \<Rightarrow>
        (case bf_banList bf of
           None \<Rightarrow> Panic
         | Some m \<Rightarrow>
             let old = map_of m ip; m1 = mput ip until m; bf1 = bf\<lparr>bf_banList := Some m1\<rparr> in
             (case bf_save y (bf1, d) of
                (None, d1) \<Rightarrow> Ok (None, bf1, d1)
              | (Some e, d1) \<Rightarrow> Ok (Some e, bf1\<lparr>bf_banList := Some (restore ip old m1)\<rparr>, d1))))"

definition bf_IsBanned :: "bytes \<Rightarrow> BanFile \<Rightarrow> bool \<times> time option" where
  "bf_IsBanned ip bf = (case map_of (nil_map (bf_banList bf)) ip of
     Some until \<Rightarrow> (True, until) | None \<Rightarrow> (False, None))"

text \<open>Here the error branch restores only an entry that was there; deleting from a nil map is fine.\<close>

definition bf_UnbanIP :: "ban_yaml \<Rightarrow> bytes \<Rightarrow> BanFile \<times> disk \<Rightarrow> go_error option \<times> BanFile \<times> disk" where
  "bf_UnbanIP y ip s =
     (case s of (bf, d) \<Rightarrow>
        let old = map_of (nil_map (bf_banList bf)) ip;
            m1 = map_option (mdel ip) (bf_banList bf); bf1 = bf\<lparr>bf_banList := m1\<rparr> in
        (case bf_save y (bf1, d) of
           (None, d1) \<Rightarrow> (None, bf1, d1)
         | (Some e, d1) \<Rightarrow>
             (Some e, (case old of
                Some v \<Rightarrow> bf1\<lparr>bf_banList := map_option (mput ip v) m1\<rparr>
              | None \<Rightarrow> bf1), d1)))"

definition bf_BanUsername :: "ban_yaml \<Rightarrow> bytes \<Rightarrow> BanFile \<times> disk \<Rightarrow> go_error option \<times> BanFile \<times> disk" where
  "bf_BanUsername y u s =
     (case s of (bf, d) \<Rightarrow>
        let m = bf_bannedUsers bf; old = map_of m u; m1 = mput u True m; bf1 = bf\<lparr>bf_bannedUsers := m1\<rparr> in
        (case bf_save y (bf1, d) of
           (None, d1) \<Rightarrow> (None, bf1, d1)
         | (Some e, d1) \<Rightarrow> (Some e, bf1\<lparr>bf_bannedUsers := restore u old m1\<rparr>, d1)))"

definition bf_UnbanUsername :: "ban_yaml \<Rightarrow> bytes \<Rightarrow> BanFile \<times> disk \<Rightarrow> go_error option \<times> BanFile \<times> disk" where
  "bf_UnbanUsername y u s =
     (case s of (bf, d) \<Rightarrow>
        let m = bf_bannedUsers bf; old = map_of m u; m1 = mdel u m; bf1 = bf\<lparr>bf_bannedUsers := m1\<rparr> in
        (case bf_save y (bf1, d) of
           (None, d1) \<Rightarrow> (None, bf1, d1)
         | (Some e, d1) \<Rightarrow>
             (Some e, (case old of Some v \<Rightarrow> bf1\<lparr>bf_bannedUsers := mput u v m1\<rparr> | None \<Rightarrow> bf1), d1)))"

definition bf_IsUsernameBanned :: "bytes \<Rightarrow> BanFile \<Rightarrow> bool" where
  "bf_IsUsernameBanned u bf \<longleftrightarrow> map_of (bf_bannedUsers bf) u = Some True"

definition bf_BanNickname :: "ban_yaml \<Rightarrow> bytes \<Rightarrow> BanFile \<times> disk \<Rightarrow> go_error option \<times> BanFile \<times> disk" where
  "bf_BanNickname y n s =
     (case s of (bf, d) \<Rightarrow>
        let m = bf_bannedNicks bf; old = map_of m n; m1 = mput n True m; bf1 = bf\<lparr>bf_bannedNicks := m1\<rparr> in
        (case bf_save y (bf1, d) of
           (None, d1) \<Rightarrow> (None, bf1, d1)
         | (Some e, d1) \<Rightarrow> (Some e, bf1\<lparr>bf_bannedNicks := restore n old m1\<rparr>, d1)))"

definition bf_UnbanNickname :: "ban_yaml \<Rightarrow> bytes \<Rightarrow> BanFile \<times> disk \<Rightarrow> go_error option \<times> BanFile \<times> disk" where
  "bf_UnbanNickname y n s =
     (case s of (bf, d) \<Rightarrow>
        let m = bf_bannedNicks bf; old = map_of m n; m1 = mdel n m; bf1 = bf\<lparr>bf_bannedNicks := m1\<rparr> in
        (case bf_save y (bf1, d) of
           (None, d1) \<Rightarrow> (None, bf1, d1)
         | (Some e, d1) \<Rightarrow>
             (Some e, (case old of Some v \<Rightarrow> bf1\<lparr>bf_bannedNicks := mput n v m1\<rparr> | None \<Rightarrow> bf1), d1)))"

definition bf_IsNicknameBanned :: "bytes \<Rightarrow> BanFile \<Rightarrow> bool" where
  "bf_IsNicknameBanned n bf \<longleftrightarrow> map_of (bf_bannedNicks bf) n = Some True"

definition bf_ListBannedIPs :: "BanFile \<Rightarrow> bytes list" where
  "bf_ListBannedIPs bf = map fst (nil_map (bf_banList bf))"

definition bf_ListBannedUsernames :: "BanFile \<Rightarrow> bytes list" where
  "bf_ListBannedUsernames bf = map fst (bf_bannedUsers bf)"

definition bf_ListBannedNicknames :: "BanFile \<Rightarrow> bytes list" where
  "bf_ListBannedNicknames bf = map fst (bf_bannedNicks bf)"

section \<open>A set of bans that is saved or rolled back\<close>

locale ban_set =
  fixes member :: "'s \<Rightarrow> bytes \<Rightarrow> bool"
    and ban :: "bytes \<Rightarrow> 's \<Rightarrow> go_error option \<times> 's"
    and unban :: "bytes \<Rightarrow> 's \<Rightarrow> go_error option \<times> 's"
  assumes ban_ok: "ban k s = (None, s') \<Longrightarrow> member s' x \<longleftrightarrow> x = k \<or> member s x"
    and ban_err: "ban k s = (Some e, s') \<Longrightarrow> member s' x \<longleftrightarrow> member s x"
    and unban_ok: "unban k s = (None, s') \<Longrightarrow> member s' x \<longleftrightarrow> x \<noteq> k \<and> member s x"
    and unban_err: "unban k s = (Some e, s') \<Longrightarrow> member s' x \<longleftrightarrow> member s x"
begin

text \<open>A history of calls, \<open>True\<close> for ban: what the calls that succeeded say of \<open>x\<close>.\<close>

fun run :: "(bool \<times> bytes) list \<Rightarrow> 's \<Rightarrow> 's" where
  "run [] s = s"
| "run ((b, k) # ops) s = run ops (snd (if b then ban k s else unban k s))"

fun last_word :: "bytes \<Rightarrow> bool \<Rightarrow> (bool \<times> bytes) list \<Rightarrow> 's \<Rightarrow> bool" where
  "last_word x v [] s = v"
| "last_word x v ((b, k) # ops) s =
     (let (r, s') = (if b then ban k s else unban k s)
      in last_word x (if r = None \<and> k = x then b else v) ops s')"

lemma member_run: "member (run ops s) x = last_word x (member s x) ops s"
proof (induction ops arbitrary: s)
  case (Cons op ops)
  obtain b k where op: "op = (b, k)" by (cases op)
  let ?c = "if b then ban k s else unban k s"
  obtain r s' where c: "?c = (r, s')" by (cases ?c)
  have "member s' x = (if r = None \<and> k = x then b else member s x)"
    using c ban_ok[of k s s' x] ban_err[of k s _ s' x] unban_ok[of k s s' x] unban_err[of k s _ s' x]
    by (cases b; cases r) auto
  then show ?case using Cons c by (simp add: op)
qed simp

lemma ban_stays:
  "member s x \<Longrightarrow> (False, x) \<notin> set ops \<Longrightarrow> member (run ops s) x"
proof (induction ops arbitrary: s)
  case (Cons op ops)
  obtain b k where op: "op = (b, k)" by (cases op)
  let ?c = "if b then ban k s else unban k s"
  obtain r s' where c: "?c = (r, s')" by (cases ?c)
  have "member s' x"
    using c Cons.prems op ban_ok[of k s s' x] ban_err[of k s _ s' x] unban_ok[of k s s' x] unban_err[of k s _ s' x]
    by (cases b; cases r) auto
  then show ?case using Cons c by (simp add: op)
qed simp

end

lemma map_of_restore [simp]: "map_of (restore k (map_of m k) (mput k v m)) = map_of m"
  by (rule ext) (auto simp: restore_def split: option.splits)

interpretation user_bans: ban_set "\<lambda>s u. bf_IsUsernameBanned u (fst s)" "bf_BanUsername y" "bf_UnbanUsername y"
  for y
  by unfold_locales
    (auto simp: bf_IsUsernameBanned_def bf_BanUsername_def bf_UnbanUsername_def Let_def
      split: prod.splits option.splits if_splits)

interpretation nick_bans: ban_set "\<lambda>s n. bf_IsNicknameBanned n (fst s)" "bf_BanNickname y" "bf_UnbanNickname y"
  for y
  by unfold_locales
    (auto simp: bf_IsNicknameBanned_def bf_BanNickname_def bf_UnbanNickname_def Let_def
      split: prod.splits option.splits if_splits)

section \<open>Bans are saved or rolled back, and survive a restart\<close>

lemma bf_Add_lookup:
  assumes "bf_Add y ip until (bf, d) = Ok (r, bf', d')"
  shows "bf_IsBanned x bf' = (if r = None \<and> x = ip then (True, until) else bf_IsBanned x bf)"
  using assms
  by (cases "bf_banList bf")
    (auto simp: bf_Add_def bf_IsBanned_def nil_map_def Let_def restore_def
      split: prod.splits option.splits if_splits)

text \<open>C27: a ban of an address is all or nothing.  After \<^verbatim>\<open>Add\<close> the address is banned until the given
  time if saving worked, and otherwise every address, this one too, is banned exactly as before; the
  banned logins and nicknames stay in either case, and so does the name of the file.\<close>

theorem Add_all_or_nothing:
  assumes "bf_Add y ip until (bf, d) = Ok (r, bf', d')"
  shows "bf_IsBanned x bf' = (if r = None \<and> x = ip then (True, until) else bf_IsBanned x bf) \<and>
    bf_IsUsernameBanned u bf' = bf_IsUsernameBanned u bf \<and> bf_IsNicknameBanned n bf' = bf_IsNicknameBanned n bf \<and>
    bf_filePath bf' = bf_filePath bf"
  using assms bf_Add_lookup[OF assms]
  by (auto simp: bf_Add_def bf_IsUsernameBanned_def bf_IsNicknameBanned_def Let_def split: prod.splits option.splits)

datatype ban_op =
    BanIP bytes "time option"
  | UnbanIP bytes
  | BanUser bytes
  | UnbanUser bytes
  | BanNick bytes
  | UnbanNick bytes

fun ban_step :: "ban_yaml \<Rightarrow> ban_op \<Rightarrow> BanFile \<times> disk \<Rightarrow> (go_error option \<times> BanFile \<times> disk) outcome" where
  "ban_step y (BanIP ip until) s = bf_Add y ip until s"
| "ban_step y (UnbanIP ip) s = Ok (bf_UnbanIP y ip s)"
| "ban_step y (BanUser u) s = Ok (bf_BanUsername y u s)"
| "ban_step y (UnbanUser u) s = Ok (bf_UnbanUsername y u s)"
| "ban_step y (BanNick n) s = Ok (bf_BanNickname y n s)"
| "ban_step y (UnbanNick n) s = Ok (bf_UnbanNickname y n s)"

text \<open>The law of the YAML library: data whose maps are not nil are read back as they were written.\<close>

definition ban_yaml_ok :: "ban_yaml \<Rightarrow> bool" where
  "ban_yaml_ok y \<longleftrightarrow> (\<forall>m u n b. by_marshal y \<lparr>bd_BanList = Some m, bd_BannedUsers = Some u, bd_BannedNicks = Some n\<rparr> = Some b \<longrightarrow>
     by_unmarshal y b = Some \<lparr>bd_BanList = Some m, bd_BannedUsers = Some u, bd_BannedNicks = Some n\<rparr>)"

lemma save_then_Load:
  assumes "bf_save y (bf, d) = (None, d1)" "ban_yaml_ok y" "bf_banList bf = Some m"
    "path_Join [bf_filePath bf] = bf_filePath bf" "dk_oracle d1 0 = None"
  shows "bf_Load y (bf, d1) = (None, bf, dk_tick d1)"
proof -
  let ?dat = "\<lparr>bd_BanList = Some m, bd_BannedUsers = Some (bf_bannedUsers bf), bd_BannedNicks = Some (bf_bannedNicks bf)\<rparr>"
  obtain b where b: "by_marshal y ?dat = Some b" "os_WriteFile (bf_filePath bf) b d = (None, d1)"
    using assms by (auto simp: bf_save_def split: option.splits)
  have u: "by_unmarshal y b = Some ?dat" using assms(2) b(1) by (auto simp: ban_yaml_ok_def)
  have "dk_get d1 (bf_filePath bf) = Some b" using os_WriteFile_ok[OF b(2)] by simp
  then have r: "os_ReadFile (bf_filePath bf) d1 = (Inr b, dk_tick d1)"
    using assms(5) by (simp add: os_ReadFile_def)
  show ?thesis
    using assms(3) r u by (cases bf) (simp add: bf_Load_def Let_def nil_map_def)
qed

lemma ban_step_saved:
  assumes "ban_step y op (bf, d) = Ok (None, bf', d')" "bf_banList bf \<noteq> None"
  shows "bf_save y (bf', d) = (None, d') \<and> bf_filePath bf' = bf_filePath bf \<and> bf_banList bf' \<noteq> None"
  using assms
  by (cases op)
    (auto simp: bf_Add_def bf_UnbanIP_def bf_BanUsername_def bf_UnbanUsername_def bf_BanNickname_def
      bf_UnbanNickname_def Let_def split: prod.splits option.splits)

text \<open>C16: bans survive a restart.  Once a change of the ban list was reported as done, loading the file
  again gives exactly the bans in memory: every address, login and nickname.\<close>

theorem bans_survive_restart:
  assumes "ban_step y op (bf, d) = Ok (None, bf', d')" "bf_banList bf \<noteq> None" "ban_yaml_ok y"
    and "path_Join [bf_filePath bf] = bf_filePath bf" "dk_oracle d' 0 = None"
  shows "bf_Load y (bf', d') = (None, bf', dk_tick d')"
proof -
  have s: "bf_save y (bf', d) = (None, d')" "bf_filePath bf' = bf_filePath bf" "bf_banList bf' \<noteq> None"
    using ban_step_saved[OF assms(1,2)] by auto
  then obtain m where "bf_banList bf' = Some m" by auto
  then show ?thesis using save_then_Load[OF s(1) assms(3)] assms(4,5) s(2) by simp
qed

text \<open>A file format for one list of banned nicknames, and the first ban saved in it.\<close>

definition nick_yaml :: ban_yaml where
  "nick_yaml =
     \<lparr>by_marshal = \<lambda>dat. case bd_BannedNicks dat of
          Some [(n, True)] \<Rightarrow> if bd_BanList dat = Some [] \<and> bd_BannedUsers dat = Some [] then Some (1 # n) else None
        | _ \<Rightarrow> None,
      by_unmarshal = \<lambda>b. case b of
          [] \<Rightarrow> Some \<lparr>bd_BanList = None, bd_BannedUsers = None, bd_BannedNicks = None\<rparr>
        | x # n \<Rightarrow> if x = 1 then Some \<lparr>bd_BanList = Some [], bd_BannedUsers = Some [], bd_BannedNicks = Some [(n, True)]\<rparr> else None,
      by_legacy = \<lambda>b. if b = [] then Some None else None\<rparr>"

lemma nick_yaml_ok: "ban_yaml_ok nick_yaml"
  by (auto simp: ban_yaml_ok_def nick_yaml_def split: list.splits bool.splits if_splits)

definition no_bans :: BanFile where
  "no_bans = \<lparr>bf_banList = Some [], bf_bannedUsers = [], bf_bannedNicks = [], bf_filePath = go_str ''Banlist''\<rparr>"

definition no_files :: disk where
  "no_files = \<lparr>dk_files = [], dk_oracle = \<lambda>_. None\<rparr>"

theorem Add_all_or_nothing_witness:
  "\<exists>bf' d'. bf_Add (nick_yaml\<lparr>by_marshal := \<lambda>_. Some []\<rparr>) (go_str ''10.0.0.7'') None (no_bans, no_files) = Ok (None, bf', d') \<and>
     bf_IsBanned (go_str ''10.0.0.7'') bf' = (True, None) \<and> bf_IsBanned (go_str ''10.0.0.8'') bf' = (False, None)"
proof -
  let ?y = "nick_yaml\<lparr>by_marshal := \<lambda>_. Some []\<rparr>"
  obtain bf' d' where a: "bf_Add ?y (go_str ''10.0.0.7'') None (no_bans, no_files) = Ok (None, bf', d')"
    by (auto simp: bf_Add_def no_bans_def no_files_def bf_save_def disk_ops)
  have "go_str ''10.0.0.8'' \<noteq> go_str ''10.0.0.7''" by (simp add: go_str_def)
  then show ?thesis
    using a Add_all_or_nothing[OF a, of "go_str ''10.0.0.7''"] Add_all_or_nothing[OF a, of "go_str ''10.0.0.8''"]
    by (auto simp: no_bans_def bf_IsBanned_def nil_map_def)
qed

theorem bans_survive_restart_witness:
  "\<exists>bf' d'. bf_BanNickname nick_yaml (go_str ''troll'') (no_bans, no_files) = (None, bf', d') \<and>
     bf_IsNicknameBanned (go_str ''troll'') bf' \<and> bf_Load nick_yaml (bf', d') = (None, bf', dk_tick d')"
proof -
  have p: "path_Join [go_str ''Banlist''] = go_str ''Banlist''" by code_simp
  obtain bf' d' where b: "bf_BanNickname nick_yaml (go_str ''troll'') (no_bans, no_files) = (None, bf', d')"
    "dk_oracle d' 0 = None"
    by (auto simp: bf_BanNickname_def no_bans_def no_files_def bf_save_def nick_yaml_def p disk_ops)
  have "ban_step nick_yaml (BanNick (go_str ''troll'')) (no_bans, no_files) = Ok (None, bf', d')" using b by simp
  from bans_survive_restart[OF this _ nick_yaml_ok _ b(2)] p b(1)
  show ?thesis using nick_bans.ban_ok[OF b(1), of "go_str ''troll''"] by (auto simp: no_bans_def)
qed

text \<open>A ban list file that is empty makes the first ban of an address panic.  YAML decodes it as
  nil maps in both formats, so the list stays nil and the write to it fails at run time.\<close>

theorem empty_ban_file_panics:
  assumes "by_unmarshal y [] = Some \<lparr>bd_BanList = None, bd_BannedUsers = None, bd_BannedNicks = None\<rparr>"
    and "by_legacy y [] = Some None" "dk_get d p = Some []" "dk_oracle d 0 = None"
  shows "\<exists>bf d'. NewBanFile y p d = (None, bf, d') \<and> (\<forall>ip until. bf_Add y ip until (bf, d') = Panic)"
  using assms by (simp add: NewBanFile_def bf_Load_def os_ReadFile_def bf_Add_def)

theorem empty_ban_file_panics_witness:
  "\<exists>bf d'. NewBanFile nick_yaml (go_str ''Banlist'') (no_files\<lparr>dk_files := [(go_str ''Banlist'', [])]\<rparr>) = (None, bf, d') \<and>
     bf_Add nick_yaml (go_str ''10.0.0.7'') None (bf, d') = Panic"
  using empty_ban_file_panics[of nick_yaml "no_files\<lparr>dk_files := [(go_str ''Banlist'', [])]\<rparr>" "go_str ''Banlist''"]
  by (auto simp: nick_yaml_def no_files_def)

end
