(* ===== verification/HL_News_Wire.thy ===== *)
theory HL_News_Wire
  imports HL_Bans
begin

text \<open>
  Threaded news as data: the articles, categories and bundles of \<^verbatim>\<open>hotline/news.go\<close> with their
  serialised forms and the parsers the client library runs over a network stream.
\<close>

section \<open>Articles and categories\<close>

abbreviation NewsBundle :: "16 word" where "NewsBundle \<equiv> 2"
abbreviation NewsCategory :: "16 word" where "NewsCategory \<equiv> 3"

record NewsArtData =
  na_Title :: bytes
  na_Poster :: bytes
  na_Date :: "64 word"
  na_PrevArt :: "32 word"
  na_NextArt :: "32 word"
  na_ParentArt :: "32 word"
  na_FirstChildArt :: "32 word"
  na_DataFlav :: bytes
  na_Data :: bytes

text \<open>
  Both maps of a category can be nil, and a pointer in the article map can be nil too.  Each map and
  article is reachable from one place only, so the pointers are modelled by nesting the values.
\<close>

type_synonym articles = "(32 word, NewsArtData option) gmap"

datatype NewsCat = NewsCategoryListData15
  (nc_Type: "16 word") (nc_Name: bytes) (nc_Articles: "articles option")
  (nc_SubCats: "(bytes \<times> NewsCat) list option")
  (nc_GUID: "128 word") (nc_AddSN: "32 word") (nc_DeleteSN: "32 word")

type_synonym cats = "(bytes, NewsCat) gmap option"

definition zero_cat :: NewsCat where
  "zero_cat = NewsCategoryListData15 0 [] None None 0 0 0"

definition with_Articles :: "articles option \<Rightarrow> NewsCat \<Rightarrow> NewsCat" where
  "with_Articles a c = NewsCategoryListData15 (nc_Type c) (nc_Name c) a (nc_SubCats c) (nc_GUID c) (nc_AddSN c) (nc_DeleteSN c)"

definition with_SubCats :: "cats \<Rightarrow> NewsCat \<Rightarrow> NewsCat" where
  "with_SubCats m c = NewsCategoryListData15 (nc_Type c) (nc_Name c) (nc_Articles c) m (nc_GUID c) (nc_AddSN c) (nc_DeleteSN c)"

lemma with_sel [simp]:
  "nc_Type (with_Articles a c) = nc_Type c" "nc_Name (with_Articles a c) = nc_Name c"
  "nc_Articles (with_Articles a c) = a" "nc_SubCats (with_Articles a c) = nc_SubCats c"
  "nc_Type (with_SubCats m c) = nc_Type c" "nc_Name (with_SubCats m c) = nc_Name c"
  "nc_Articles (with_SubCats m c) = nc_Articles c" "nc_SubCats (with_SubCats m c) = m"
  "with_Articles a (with_Articles b c) = with_Articles a c"
  "with_Articles (nc_Articles c) c = c" "with_SubCats (nc_SubCats c) c = c"
  by (simp_all add: with_Articles_def with_SubCats_def)

definition art_DataSize :: "NewsArtData \<Rightarrow> 16 word" where
  "art_DataSize art = u16 (length (na_Data art))"

section \<open>Article lists\<close>

record NewsArtList =
  nl_ID :: "32 word"
  nl_TimeStamp :: "64 word"
  nl_ParentID :: "32 word"
  nl_Flags :: "32 word"
  nl_Title :: bytes
  nl_Poster :: bytes
  nl_ArticleSize :: "16 word"

definition NewsFlavor :: bytes where "NewsFlavor = go_str ''text/plain''"
definition NewsFlavorCount :: bytes where "NewsFlavorCount = [0, 1]"

definition NewsArtList_bytes :: "NewsArtList \<Rightarrow> bytes" where
  "NewsArtList_bytes n =
     be32 (nl_ID n) @ be64 (nl_TimeStamp n) @ be32 (nl_ParentID n) @ be32 (nl_Flags n) @
     NewsFlavorCount @ [u8 (length (nl_Title n))] @ nl_Title n @
     [u8 (length (nl_Poster n))] @ nl_Poster n @
     [u8 (length NewsFlavor)] @ NewsFlavor @ be16 (nl_ArticleSize n)"

text \<open>\<open>nd_writeBuf\<close> collects partial writes; \<open>nd_writeOffset\<close> is positive once the header is parsed.\<close>

record NewsArtListData =
  nd_ID :: "32 word"
  nd_Name :: bytes
  nd_Description :: bytes
  nd_NewsArtList :: bytes
  nd_Count :: nat
  nd_writeOffset :: nat
  nd_writeBuf :: bytes

definition zero_artlist :: NewsArtListData where
  "zero_artlist = \<lparr>nd_ID = 0, nd_Name = [], nd_Description = [], nd_NewsArtList = [], nd_Count = 0,
     nd_writeOffset = 0, nd_writeBuf = []\<rparr>"

definition NewsArtListData_bytes :: "NewsArtListData \<Rightarrow> bytes" where
  "NewsArtListData_bytes n =
     be32 (nd_ID n) @ be32 (u32 (nd_Count n)) @ [u8 (length (nd_Name n))] @ nd_Name n @
     [u8 (length (nd_Description n))] @ nd_Description n @ nd_NewsArtList n"

text \<open>Each early return has consumed all of \<open>p\<close>; what is set before it stays set.\<close>

definition NewsArtListData_Write :: "bytes \<Rightarrow> NewsArtListData \<Rightarrow> NewsArtListData" where
  "NewsArtListData_Write p n0 =
     (let n = n0\<lparr>nd_writeBuf := nd_writeBuf n0 @ p\<rparr>; buf = nd_writeBuf n in
      if 0 < nd_writeOffset n then n\<lparr>nd_NewsArtList := nd_NewsArtList n @ p\<rparr>
      else if length buf < 10 then n
      else
        let n1 = n\<lparr>nd_ID := be_word (take 4 buf), nd_Count := unat (be_word (take 4 (drop 4 buf)) :: 32 word)\<rparr>;
            nameLen = unat (buf ! 8)
        in if length buf < 9 + nameLen then n1
           else
             let n2 = n1\<lparr>nd_Name := take nameLen (drop 9 buf)\<rparr>; offset = 9 + nameLen in
             if length buf < offset + 1 then n2
             else
               let descLen = unat (buf ! offset); offset = offset + 1 in
               if length buf < offset + descLen then n2
               else n2\<lparr>nd_Description := take descLen (drop offset buf),
                       nd_NewsArtList := drop (offset + descLen) buf,
                       nd_writeOffset := offset + descLen, nd_writeBuf := []\<rparr>)"

text \<open>
  The list of a category, sorted by article ID.  Ranging over the map dereferences every article, so
  a nil one panics.
\<close>

fun art_entries :: "articles \<Rightarrow> NewsArtList list outcome" where
  "art_entries [] = Ok []"
| "art_entries ((i, art) # as) =
     (case art of
        None \<Rightarrow> Panic
      | Some a \<Rightarrow> obind (art_entries as) (\<lambda>r.
          Ok (\<lparr>nl_ID = i, nl_TimeStamp = na_Date a, nl_ParentID = na_ParentArt a, nl_Flags = 0,
               nl_Title = na_Title a, nl_Poster = na_Poster a, nl_ArticleSize = art_DataSize a\<rparr> # r)))"

definition GetNewsArtListData :: "NewsCat \<Rightarrow> NewsArtListData outcome" where
  "GetNewsArtListData c =
     obind (art_entries (nil_map (nc_Articles c))) (\<lambda>es.
       Ok (zero_artlist\<lparr>nd_Count := length es,
             nd_NewsArtList := concat (map NewsArtList_bytes (sort_key nl_ID es))\<rparr>))"

section \<open>Categories on the wire\<close>

definition nc_nameLen :: "NewsCat \<Rightarrow> bytes" where
  "nc_nameLen c = [u8 (length (nc_Name c))]"

definition NewsCat_bytes :: "NewsCat \<Rightarrow> bytes" where
  "NewsCat_bytes c =
     be16 (nc_Type c) @
     be16 (u16 (length (nil_map (nc_Articles c)) + length (nil_map (nc_SubCats c)))) @
     (if nc_Type c = NewsCategory
      then be_bytes 16 (nc_GUID c) @ be32 (nc_AddSN c) @ be32 (nc_DeleteSN c) else []) @
     nc_nameLen c @ nc_Name c"

text \<open>The parser of a category, with the bytes it has collected so far.\<close>

definition NewsCat_Write :: "bytes \<Rightarrow> NewsCat \<times> bytes \<Rightarrow> NewsCat \<times> bytes" where
  "NewsCat_Write p s =
     (case s of (c, buf0) \<Rightarrow>
        let buf = buf0 @ p in
        if length buf < 5 then (c, buf)
        else
          let ty = be_word (take 2 buf);
              c1 = NewsCategoryListData15 ty (nc_Name c) (nc_Articles c) (nc_SubCats c) (nc_GUID c) (nc_AddSN c) (nc_DeleteSN c)
          in if ty = NewsCategory \<and> length buf < 28 then (c1, buf)
             else
               let c2 = (if ty = NewsCategory then
                     NewsCategoryListData15 ty (nc_Name c) (nc_Articles c) (nc_SubCats c)
                       (be_word (take 16 (drop 4 buf))) (be_word (take 4 (drop 20 buf))) (be_word (take 4 (drop 24 buf)))
                   else c1);
                   offset = (if ty = NewsCategory then 28 else 4)
               in if length buf < offset + 1 then (c2, buf)
                  else
                    let nameLen = unat (buf ! offset); offset = offset + 1 in
                    if length buf < offset + nameLen then (c2, buf)
                    else (NewsCategoryListData15 (nc_Type c2) (take nameLen (drop offset buf))
                           (Some (nil_map (nc_Articles c2))) (Some (nil_map (nc_SubCats c2)))
                           (nc_GUID c2) (nc_AddSN c2) (nc_DeleteSN c2),
                         drop (offset + nameLen) buf))"

section \<open>An article list read in pieces\<close>

definition wf_artlist :: "NewsArtListData \<Rightarrow> bool" where
  "wf_artlist n \<longleftrightarrow> length (nd_Name n) < 256 \<and> length (nd_Description n) < 256 \<and> nd_Count n < 4294967296"

definition artlist_header :: "NewsArtListData \<Rightarrow> nat" where
  "artlist_header n = 10 + length (nd_Name n) + length (nd_Description n)"

text \<open>What the parser holds after the prefix \<open>b\<close> of the bytes of \<open>n\<close>.\<close>

definition artlist_after :: "NewsArtListData \<Rightarrow> bytes \<Rightarrow> NewsArtListData \<Rightarrow> bool" where
  "artlist_after n b s \<longleftrightarrow>
     (if length b < artlist_header n then nd_writeOffset s = 0 \<and> nd_writeBuf s = b
      else nd_writeOffset s = artlist_header n \<and> nd_ID s = nd_ID n \<and> nd_Count s = nd_Count n \<and>
        nd_Name s = nd_Name n \<and> nd_Description s = nd_Description n \<and>
        nd_NewsArtList s = drop (artlist_header n) b)"

lemma artlist_after_step:
  assumes wf: "wf_artlist n" and T: "NewsArtListData_bytes n = b @ p @ r" and s: "artlist_after n b s"
  shows "artlist_after n (b @ p) (NewsArtListData_Write p s)"
proof (cases "length b < artlist_header n")
  case False
  then have "0 < nd_writeOffset s" using s by (simp add: artlist_after_def artlist_header_def)
  with False s show ?thesis by (simp add: artlist_after_def NewsArtListData_Write_def Let_def)
next
  case True
  let ?T = "NewsArtListData_bytes n" and ?B = "b @ p" and ?n = "length (nd_Name n)" and ?d = "length (nd_Description n)"
  have st: "nd_writeOffset s = 0" "nd_writeBuf s = b" using True s by (auto simp: artlist_after_def)
  have nth: "i < length ?B \<Longrightarrow> ?B ! i = ?T ! i" for i
    using nth_append[of ?B r i] by (simp add: T)
  have n8: "8 < length ?B \<Longrightarrow> unat (?B ! 8) = ?n"
    using nth[of 8] wf by (simp add: NewsArtListData_bytes_def nth_append wf_artlist_def unat_u8)
  have n9: "9 + ?n < length ?B \<Longrightarrow> unat (?B ! (9 + ?n)) = ?d"
    using nth[of "9 + ?n"] wf by (simp add: NewsArtListData_bytes_def nth_append wf_artlist_def unat_u8)
  show ?thesis
  proof (cases "length ?B < artlist_header n")
    case short: True
    then show ?thesis using st n8 n9
      by (auto simp: artlist_after_def NewsArtListData_Write_def Let_def artlist_header_def)
  next
    case False
    then have len: "10 + ?n + ?d \<le> length ?B" by (simp add: artlist_header_def)
    have ne: "?B \<noteq> []" using len by auto
    have pre: "take k (drop i ?B) = take k (drop i ?T)" if "i + k \<le> length ?B" for i k
      unfolding T using that by simp
    have parts: "take 4 (drop 0 ?B) = be32 (nd_ID n)" "take 4 (drop 4 ?B) = be32 (u32 (nd_Count n))"
      "take ?n (drop 9 ?B) = nd_Name n" "take ?d (drop (10 + ?n) ?B) = nd_Description n"
      using len by (subst pre; simp add: NewsArtListData_bytes_def)+
    have c: "unat (u32 (nd_Count n)) = nd_Count n" using wf by (simp add: wf_artlist_def unat_u32)
    have u: "unat (?B ! 8) = ?n" "unat (?B ! (9 + ?n)) = ?d" using n8 n9 len by auto
    have "NewsArtListData_Write p s = s\<lparr>nd_writeBuf := [], nd_ID := nd_ID n, nd_Count := nd_Count n,
        nd_Name := nd_Name n, nd_Description := nd_Description n,
        nd_NewsArtList := drop (artlist_header n) ?B, nd_writeOffset := artlist_header n\<rparr>"
      using len st u parts c
      by (simp add: NewsArtListData_Write_def Let_def artlist_header_def)
    then show ?thesis using False by (simp add: artlist_after_def)
  qed
qed

text \<open>C31: the client reads an article list however the network cuts it.  Feeding the bytes of a list
  to \<^verbatim>\<open>NewsArtListData.Write\<close> in any pieces gives its ID, count, name, description and articles.\<close>

theorem artlist_in_pieces:
  assumes "wf_artlist n" "concat cs = NewsArtListData_bytes n"
  shows "let s = fold NewsArtListData_Write cs zero_artlist in
    nd_ID s = nd_ID n \<and> nd_Count s = nd_Count n \<and> nd_Name s = nd_Name n \<and>
    nd_Description s = nd_Description n \<and> nd_NewsArtList s = nd_NewsArtList n"
proof -
  have "NewsArtListData_bytes n = concat cs @ r \<Longrightarrow>
      artlist_after n (concat cs) (fold NewsArtListData_Write cs zero_artlist)" for r
  proof (induction cs arbitrary: r rule: rev_induct)
    case Nil
    then show ?case by (simp add: artlist_after_def artlist_header_def zero_artlist_def)
  next
    case (snoc p cs)
    then show ?case using artlist_after_step[OF assms(1), of "concat cs" p r] by simp
  qed
  from this[of "[]"] have "artlist_after n (NewsArtListData_bytes n) (fold NewsArtListData_Write cs zero_artlist)"
    using assms(2) by simp
  moreover have "length (NewsArtListData_bytes n) = artlist_header n + length (nd_NewsArtList n)"
    by (simp add: NewsArtListData_bytes_def artlist_header_def)
  moreover have "drop (artlist_header n) (NewsArtListData_bytes n) = nd_NewsArtList n"
    by (simp add: NewsArtListData_bytes_def artlist_header_def)
  ultimately show ?thesis by (simp add: artlist_after_def Let_def)
qed

theorem artlist_in_pieces_witness:
  "let n = zero_artlist\<lparr>nd_Name := [65, 66], nd_Count := 1, nd_NewsArtList := [7, 8, 9]\<rparr>;
       s = fold NewsArtListData_Write [take 3 (NewsArtListData_bytes n), drop 3 (NewsArtListData_bytes n)] zero_artlist
   in nd_Name s = [65, 66] \<and> nd_NewsArtList s = [7, 8, 9]"
  using artlist_in_pieces[of "zero_artlist\<lparr>nd_Name := [65, 66], nd_Count := 1, nd_NewsArtList := [7, 8, 9]\<rparr>"
      "[take 3 (NewsArtListData_bytes (zero_artlist\<lparr>nd_Name := [65, 66], nd_Count := 1, nd_NewsArtList := [7, 8, 9]\<rparr>)),
        drop 3 (NewsArtListData_bytes (zero_artlist\<lparr>nd_Name := [65, 66], nd_Count := 1, nd_NewsArtList := [7, 8, 9]\<rparr>))]"]
  by (simp add: wf_artlist_def zero_artlist_def Let_def)

text \<open>A category sent by the server is read back with its type, name and serial numbers.\<close>

lemma NewsCat_Write_bytes:
  assumes "length (nc_Name c) < 256" "nc_Type c = NewsCategory"
  shows "NewsCat_Write (NewsCat_bytes c) (zero_cat, []) =
    (NewsCategoryListData15 (nc_Type c) (nc_Name c) (Some []) (Some []) (nc_GUID c) (nc_AddSN c) (nc_DeleteSN c), [])"
proof -
  let ?B = "NewsCat_bytes c"
  have "?B ! 28 = u8 (length (nc_Name c))" "length ?B = 29 + length (nc_Name c)"
    "take 2 ?B = be16 NewsCategory" "take 16 (drop 4 ?B) = be_bytes 16 (nc_GUID c)"
    "take 4 (drop 20 ?B) = be32 (nc_AddSN c)" "take 4 (drop 24 ?B) = be32 (nc_DeleteSN c)"
    "drop 29 ?B = nc_Name c"
    using assms by (simp_all add: NewsCat_bytes_def nc_nameLen_def nth_append)
  then show ?thesis using assms
    by (simp add: NewsCat_Write_def Let_def unat_u8 zero_cat_def nil_map_def)
qed

end
