(* ===== verification/HL_Threaded_News.thy ===== *)
theory HL_Threaded_News
  imports HL_News_Wire
begin

text \<open>
  The threaded news manager of \<^verbatim>\<open>internal/mobius/threaded_news.go\<close>: a tree of bundles and categories,
  changed in place at a path and saved to a YAML file through a temporary file, with a rollback when
  saving fails.  The YAML library is a parameter.
\<close>

record ThreadedNewsYAML =
  tn_Categories :: cats
  tn_filePath :: bytes

text \<open>
  Every operation returns \<open>N_ok\<close>, an error or a run-time panic, and the state it leaves in each case:
  what was changed in place before a panic stays changed.
\<close>

datatype news_result = N_ok | N_err go_error | N_panic

type_synonym news_out = "cats \<Rightarrow> bytes option"
type_synonym news_in = "bytes \<Rightarrow> go_error option \<times> cats"

section \<open>The tree\<close>

definition lookup_cat :: "cats \<Rightarrow> bytes \<Rightarrow> NewsCat" where
  "lookup_cat m name = (case map_of (nil_map m) name of Some c \<Rightarrow> c | None \<Rightarrow> zero_cat)"

text \<open>\<^verbatim>\<open>getCatByPath\<close>: reading a nil map gives the zero category, whose maps are nil.\<close>

fun getCatByPath :: "bytes list \<Rightarrow> cats \<Rightarrow> cats" where
  "getCatByPath [] m = m"
| "getCatByPath (p # ps) m = getCatByPath ps (nc_SubCats (lookup_cat m p))"

text \<open>A change of the map that \<^verbatim>\<open>getCatByPath\<close> returned, as it shows in the tree; a nil map stays nil.\<close>

fun update_path :: "bytes list \<Rightarrow> ((bytes, NewsCat) gmap \<Rightarrow> (bytes, NewsCat) gmap) \<Rightarrow> cats \<Rightarrow> cats" where
  "update_path [] f m = map_option f m"
| "update_path (p # ps) f m =
     (case m of
        None \<Rightarrow> None
      | Some xs \<Rightarrow>
          (case map_of xs p of
             None \<Rightarrow> Some xs
           | Some c \<Rightarrow> Some (mput p (with_SubCats (update_path ps f (nc_SubCats c)) c) xs)))"

section \<open>Saving\<close>

definition tn_writeFile :: "news_out \<Rightarrow> ThreadedNewsYAML \<Rightarrow> disk \<Rightarrow> go_error option \<times> disk" where
  "tn_writeFile marshal n d =
     (case marshal (tn_Categories n) of
        None \<Rightarrow> (Some (Msg ''marshal''), d)
      | Some out \<Rightarrow>
          let tempFilePath = tn_filePath n @ go_str ''.tmp'' in
          (case os_WriteFile tempFilePath out d of
             (Some e, d1) \<Rightarrow> (Some e, d1)
           | (None, d1) \<Rightarrow> os_Rename tempFilePath (tn_filePath n) d1))"

definition tn_Load :: "news_in \<Rightarrow> ThreadedNewsYAML \<times> disk \<Rightarrow> go_error option \<times> ThreadedNewsYAML \<times> disk" where
  "tn_Load unmarshal s =
     (case s of (n, d) \<Rightarrow>
        (case os_ReadFile (tn_filePath n) d of
           (Inl e, d1) \<Rightarrow> (Some e, n, d1)
         | (Inr b, d1) \<Rightarrow> (fst (unmarshal b), n\<lparr>tn_Categories := snd (unmarshal b)\<rparr>, d1)))"

definition NewThreadedNewsYAML :: "news_in \<Rightarrow> bytes \<Rightarrow> disk \<Rightarrow> go_error option \<times> ThreadedNewsYAML \<times> disk" where
  "NewThreadedNewsYAML unmarshal filePath d =
     tn_Load unmarshal (\<lparr>tn_Categories = None, tn_filePath = filePath\<rparr>, d)"

section \<open>Groupings\<close>

definition on_path :: "bytes list \<Rightarrow> ((bytes, NewsCat) gmap \<Rightarrow> (bytes, NewsCat) gmap) \<Rightarrow> ThreadedNewsYAML \<Rightarrow> ThreadedNewsYAML" where
  "on_path ps f n = n\<lparr>tn_Categories := update_path ps f (tn_Categories n)\<rparr>"

definition new_group :: "bytes \<Rightarrow> 16 word \<Rightarrow> NewsCat" where
  "new_group name t = NewsCategoryListData15 t name (Some []) (Some []) 0 0 0"

text \<open>The rollback deletes the name, also if the new group had replaced an old one.\<close>

definition tn_CreateGrouping :: "news_out \<Rightarrow> bytes list \<Rightarrow> bytes \<Rightarrow> 16 word \<Rightarrow> ThreadedNewsYAML \<times> disk \<Rightarrow>
    news_result \<times> ThreadedNewsYAML \<times> disk" where
  "tn_CreateGrouping marshal newsPath name t s =
     (case s of (n, d) \<Rightarrow>
        if getCatByPath newsPath (tn_Categories n) = None then (N_panic, n, d)
        else
          let n1 = on_path newsPath (mput name (new_group name t)) n in
          (case tn_writeFile marshal n1 d of
             (Some e, d1) \<Rightarrow> (N_err e, on_path newsPath (mdel name) n1, d1)
           | (None, d1) \<Rightarrow> (N_ok, n1, d1)))"

text \<open>The handlers call the next two with a path that is not empty.\<close>

definition tn_NewsItem :: "bytes list \<Rightarrow> ThreadedNewsYAML \<Rightarrow> NewsCat" where
  "tn_NewsItem newsPath n = lookup_cat (getCatByPath (butlast newsPath) (tn_Categories n)) (last newsPath)"

definition tn_DeleteNewsItem :: "news_out \<Rightarrow> bytes list \<Rightarrow> ThreadedNewsYAML \<times> disk \<Rightarrow>
    news_result \<times> ThreadedNewsYAML \<times> disk" where
  "tn_DeleteNewsItem marshal newsPath s =
     (case s of (n, d) \<Rightarrow>
        let par = butlast newsPath; delName = last newsPath;
            cats = getCatByPath par (tn_Categories n);
            oldVal = lookup_cat cats delName;
            n1 = on_path par (mdel delName) n
        in (case tn_writeFile marshal n1 d of
              (Some e, d1) \<Rightarrow>
                if cats = None then (N_panic, n1, d1)
                else (N_err e, on_path par (mput delName oldVal) n1, d1)
            | (None, d1) \<Rightarrow> (N_ok, n1, d1)))"

definition tn_GetCategories :: "bytes list \<Rightarrow> ThreadedNewsYAML \<Rightarrow> NewsCat list" where
  "tn_GetCategories paths n =
     sort_key nc_Name (map snd (nil_map (getCatByPath paths (tn_Categories n))))"

section \<open>Articles\<close>

text \<open>The loop of \<^verbatim>\<open>GetArticle\<close> and \<^verbatim>\<open>ListArticles\<close>: the category at the whole path.\<close>

fun walk_cat :: "bytes list \<Rightarrow> NewsCat \<Rightarrow> cats \<Rightarrow> NewsCat" where
  "walk_cat [] c m = c"
| "walk_cat (p # ps) c m = walk_cat ps (lookup_cat m p) (nc_SubCats (lookup_cat m p))"

definition lookup_art :: "articles option \<Rightarrow> 32 word \<Rightarrow> NewsArtData option" where
  "lookup_art as i = (case map_of (nil_map as) i of Some a \<Rightarrow> a | None \<Rightarrow> None)"

definition tn_GetArticle :: "bytes list \<Rightarrow> 32 word \<Rightarrow> ThreadedNewsYAML \<Rightarrow> NewsArtData option" where
  "tn_GetArticle newsPath articleID n =
     lookup_art (nc_Articles (walk_cat newsPath zero_cat (tn_Categories n))) articleID"

definition tn_ListArticles :: "bytes list \<Rightarrow> ThreadedNewsYAML \<Rightarrow> NewsArtListData outcome" where
  "tn_ListArticles newsPath n = GetNewsArtListData (walk_cat newsPath zero_cat (tn_Categories n))"

text \<open>
  \<open>put_arts par name as\<close> is \<^verbatim>\<open>cats[name] = cat\<close> with \<open>as\<close> as the articles of \<^verbatim>\<open>cat\<close>.  Where the
  category exists and its article map is not nil, every change of that map or of an article in it
  shows in the tree at once; otherwise the map is a local one until the assignment.
\<close>

definition put_arts :: "bytes list \<Rightarrow> bytes \<Rightarrow> NewsCat \<Rightarrow> articles option \<Rightarrow> ThreadedNewsYAML \<Rightarrow> ThreadedNewsYAML" where
  "put_arts par name c as n = on_path par (mput name (with_Articles as c)) n"

definition in_place :: "bytes list \<Rightarrow> bytes \<Rightarrow> NewsCat \<Rightarrow> articles \<Rightarrow> ThreadedNewsYAML \<Rightarrow> ThreadedNewsYAML" where
  "in_place par name c as n = (if nc_Articles c = None then n else put_arts par name c (Some as) n)"

definition max_key :: "articles \<Rightarrow> 32 word" where
  "max_key as = Max (set (map fst as))"

text \<open>
  \<^verbatim>\<open>PostArticle\<close>.  The first pointer followed is that of the last article, the second that of the
  parent: a nil one panics, the second after the last article was already linked to the new ID.
\<close>

definition tn_PostArticle :: "news_out \<Rightarrow> bytes list \<Rightarrow> 32 word \<Rightarrow> NewsArtData \<Rightarrow> ThreadedNewsYAML \<times> disk \<Rightarrow>
    news_result \<times> ThreadedNewsYAML \<times> disk" where
  "tn_PostArticle marshal newsPath parentID article s =
     (case s of (n, d) \<Rightarrow>
        let art = article\<lparr>na_ParentArt := parentID\<rparr> in
        if newsPath = [] then (N_err (Msg ''invalid news path''), n, d)
        else if getCatByPath (butlast newsPath) (tn_Categories n) = None
        then (N_err (Msg ''parent category path does not exist''), n, d)
        else
          let par = butlast newsPath; catName = last newsPath;
              c = lookup_cat (getCatByPath par (tn_Categories n)) catName;
              as0 = nil_map (nc_Articles c)
          in if as0 \<noteq> [] \<and> lookup_art (Some as0) (max_key as0) = None then (N_panic, n, d)
             else
               let hasPrev = (as0 \<noteq> []); prevID = max_key as0;
                   nextID = (if hasPrev then prevID + 1 else 1);
                   prev = the (lookup_art (Some as0) prevID);
                   art1 = (if hasPrev then art\<lparr>na_PrevArt := prevID\<rparr> else art);
                   as1 = (if hasPrev then mput prevID (Some (prev\<lparr>na_NextArt := nextID\<rparr>)) as0 else as0)
               in if parentID \<noteq> 0 \<and> lookup_art (Some as1) parentID = None
                  then (N_panic, in_place par catName c as1 n, d)
                  else
                    let parent = the (lookup_art (Some as1) parentID);
                        setFirstChild = (parentID \<noteq> 0 \<and> na_FirstChildArt parent = 0);
                        as2 = (if setFirstChild then mput parentID (Some (parent\<lparr>na_FirstChildArt := nextID\<rparr>)) as1 else as1);
                        as3 = mput nextID (Some art1) as2;
                        n1 = put_arts par catName c (Some as3) n
                    in (case tn_writeFile marshal n1 d of
                          (None, d1) \<Rightarrow> (N_ok, n1, d1)
                        | (Some e, d1) \<Rightarrow>
                            let as4 = mdel nextID as3 in
                            if hasPrev \<and> lookup_art (Some as4) prevID = None
                            then (N_panic, put_arts par catName c (Some as4) n1, d1)
                            else
                              let as5 = (if hasPrev
                                    then mput prevID (Some ((the (lookup_art (Some as4) prevID))\<lparr>na_NextArt := na_NextArt prev\<rparr>)) as4
                                    else as4)
                              in if setFirstChild \<and> lookup_art (Some as5) parentID = None
                                 then (N_panic, put_arts par catName c (Some as5) n1, d1)
                                 else
                                   let as6 = (if setFirstChild
                                         then mput parentID (Some ((the (lookup_art (Some as5) parentID))\<lparr>na_FirstChildArt := 0\<rparr>)) as5
                                         else as5)
                                   in (N_err e, put_arts par catName c (Some as6) n1, d1)))"

text \<open>
  \<^verbatim>\<open>DeleteArticle\<close>.  Assigning the category to a nil map panics; so does the rollback into a nil
  article map, and the rollback of a missing article leaves a nil pointer under its ID.
\<close>

definition tn_DeleteArticle :: "news_out \<Rightarrow> bytes list \<Rightarrow> 32 word \<Rightarrow> ThreadedNewsYAML \<times> disk \<Rightarrow>
    news_result \<times> ThreadedNewsYAML \<times> disk" where
  "tn_DeleteArticle marshal newsPath articleID s =
     (case s of (n, d) \<Rightarrow>
        if newsPath = [] then (N_err (Msg ''invalid news path''), n, d)
        else
          let par = butlast newsPath; catName = last newsPath;
              cats = getCatByPath par (tn_Categories n);
              c = lookup_cat cats catName;
              oldArticle = lookup_art (nc_Articles c) articleID;
              as1 = map_option (mdel articleID) (nc_Articles c)
          in if cats = None then (N_panic, n, d)
             else
               let n1 = put_arts par catName c as1 n in
               (case tn_writeFile marshal n1 d of
                  (None, d1) \<Rightarrow> (N_ok, n1, d1)
                | (Some e, d1) \<Rightarrow>
                    (case as1 of
                       None \<Rightarrow> (N_panic, n1, d1)
                     | Some as \<Rightarrow> (N_err e, put_arts par catName c (Some (mput articleID oldArticle as)) n1, d1))))"

section \<open>The tree after a change\<close>

lemma lookup_cat_None [simp]: "lookup_cat None p = zero_cat"
  by (simp add: lookup_cat_def nil_map_def)

lemma zero_cat_sel [simp]: "nc_SubCats zero_cat = None" "nc_Articles zero_cat = None"
  by (simp_all add: zero_cat_def)

lemma lookup_cat_mput [simp]: "lookup_cat (Some (mput k c m)) p = (if p = k then c else lookup_cat (Some m) p)"
  by (simp add: lookup_cat_def nil_map_def)

lemma lookup_cat_mdel [simp]: "lookup_cat (Some (mdel k m)) p = (if p = k then zero_cat else lookup_cat (Some m) p)"
  by (simp add: lookup_cat_def nil_map_def)

lemma getCatByPath_None [simp]: "getCatByPath ps None = None"
  by (induction ps) simp_all

lemma lookup_cat_Some: "map_of xs p = Some c \<Longrightarrow> lookup_cat (Some xs) p = c"
  by (simp add: lookup_cat_def nil_map_def)

lemma lookup_cat_missing: "map_of xs p = None \<Longrightarrow> lookup_cat (Some xs) p = zero_cat"
  by (simp add: lookup_cat_def nil_map_def)

lemma getCatByPath_update: "getCatByPath ps (update_path ps f m) = map_option f (getCatByPath ps m)"
  by (induction ps f m rule: update_path.induct) (auto simp: lookup_cat_Some lookup_cat_missing split: option.splits)

lemma update_path_comp: "update_path ps g (update_path ps f m) = update_path ps (g \<circ> f) m"
proof (induction ps f m arbitrary: g rule: update_path.induct)
  case (2 p ps f m)
  show ?case
  proof (cases m)
    case (Some xs)
    with 2 show ?thesis by (cases "map_of xs p") (auto simp: with_SubCats_def)
  qed simp
qed (simp add: option.map_comp)

lemma walk_cat_snoc: "walk_cat (ps @ [name]) c m = lookup_cat (getCatByPath ps m) name"
  by (induction ps arbitrary: c m) simp_all

lemma walk_cat_None: "walk_cat ps zero_cat None = zero_cat"
  by (induction ps) simp_all

lemma walk_cat_skip: "ps \<noteq> [] \<Longrightarrow> walk_cat ps c m = walk_cat ps c' m"
  by (cases ps) simp_all

text \<open>Replacing the articles of one category leaves the articles of every other path alone.\<close>

lemma articles_frame:
  "qs \<noteq> ps @ [name] \<Longrightarrow>
   nc_Articles (walk_cat qs zero_cat (update_path ps (mput name (with_Articles as (lookup_cat (getCatByPath ps m) name))) m)) =
   nc_Articles (walk_cat qs zero_cat m)"
proof (induction ps arbitrary: qs m)
  case Nil
  show ?case
  proof (cases qs)
    case (Cons q qs')
    with Nil show ?thesis
      by (cases m; cases qs') auto
  qed simp
next
  case (Cons p ps)
  show ?case
  proof (cases qs)
    case q: (Cons q qs')
    show ?thesis
    proof (cases m)
      case m: (Some xs)
      show ?thesis
      proof (cases "map_of xs p")
        case (Some c)
        let ?new = "update_path ps (mput name (with_Articles as (lookup_cat (getCatByPath ps (nc_SubCats c)) name))) (nc_SubCats c)"
        have l: "lookup_cat (Some xs) p = c" using Some by (rule lookup_cat_Some)
        show ?thesis
        proof (cases "q = p \<and> qs' \<noteq> []")
          case True
          then have "nc_Articles (walk_cat qs' zero_cat ?new) = nc_Articles (walk_cat qs' zero_cat (nc_SubCats c))"
            using Cons q by auto
          then show ?thesis using True q m Some l
            by (simp add: walk_cat_skip[of qs' "with_SubCats _ _" _ zero_cat] walk_cat_skip[of qs' c _ zero_cat])
        qed (use q m Some l in auto)
      qed (use q m in auto)
    qed simp
  qed simp
qed

section \<open>Lookups of articles\<close>

lemma lookup_art_mput [simp]: "lookup_art (Some (mput i x as)) j = (if j = i then x else lookup_art (Some as) j)"
  by (simp add: lookup_art_def nil_map_def)

lemma lookup_art_mdel [simp]: "lookup_art (Some (mdel i as)) j = (if j = i then None else lookup_art (Some as) j)"
  by (simp add: lookup_art_def nil_map_def)

lemma lookup_art_nil_map [simp]: "lookup_art (Some (nil_map as)) = lookup_art as"
  by (rule ext) (simp add: lookup_art_def nil_map_def split: option.splits)

lemma max_key_in: "as \<noteq> [] \<Longrightarrow> max_key as \<in> set (map fst as)"
  unfolding max_key_def by (rule Max_in) auto

lemma lookup_art_max: "as \<noteq> [] \<Longrightarrow> None \<notin> set (map snd as) \<Longrightarrow> lookup_art (Some as) (max_key as) \<noteq> None"
proof -
  assume a: "as \<noteq> []" "None \<notin> set (map snd as)"
  obtain x where "map_of as (max_key as) = Some x"
    using max_key_in[OF a(1)] by (metis map_of_eq_None_iff option.exhaust set_map)
  moreover from this have "x \<in> set (map snd as)" by (force dest: map_of_SomeD)
  then have "x \<noteq> None" using a(2) by metis
  ultimately show ?thesis by (simp add: lookup_art_def nil_map_def)
qed

lemma lookup_art_above: "as \<noteq> [] \<Longrightarrow> max_key as + 1 \<noteq> 0 \<Longrightarrow> lookup_art (Some as) (max_key as + 1) = None"
proof -
  assume a: "as \<noteq> []" "max_key as + 1 \<noteq> 0"
  have "max_key as < max_key as + 1" using a(2) unatSuc[of "max_key as"] by (simp add: word_less_nat_alt add.commute)
  moreover have "i \<in> set (map fst as) \<Longrightarrow> i \<le> max_key as" for i unfolding max_key_def by simp
  ultimately have "max_key as + 1 \<notin> set (map fst as)" by fastforce
  then have "map_of as (max_key as + 1) = None" by (simp add: map_of_eq_None_iff)
  then show ?thesis by (simp add: lookup_art_def nil_map_def)
qed

section \<open>Posting an article\<close>

lemma path_split: "ps \<noteq> [] \<Longrightarrow> butlast ps @ [last ps] = ps"
  by (rule append_butlast_last_id)

lemma GetArticle_put_arts:
  assumes "ps \<noteq> []" "getCatByPath (butlast ps) (tn_Categories n) = Some m"
    and c: "c = lookup_cat (Some m) (last ps)"
  shows "tn_GetArticle ps i (put_arts (butlast ps) (last ps) c as n) = lookup_art as i"
    and "qs \<noteq> ps \<Longrightarrow> tn_GetArticle qs i (put_arts (butlast ps) (last ps) c as n) = tn_GetArticle qs i n"
proof -
  show "tn_GetArticle ps i (put_arts (butlast ps) (last ps) c as n) = lookup_art as i"
    using assms walk_cat_snoc[of "butlast ps" "last ps"]
    by (simp add: tn_GetArticle_def put_arts_def on_path_def getCatByPath_update)
  show "qs \<noteq> ps \<Longrightarrow> tn_GetArticle qs i (put_arts (butlast ps) (last ps) c as n) = tn_GetArticle qs i n"
    using articles_frame[of qs "butlast ps" "last ps" as "tn_Categories n"] assms
    by (simp add: tn_GetArticle_def put_arts_def on_path_def)
qed

lemma GetArticle_at:
  "ps \<noteq> [] \<Longrightarrow> getCatByPath (butlast ps) (tn_Categories n) = Some m \<Longrightarrow>
   tn_GetArticle ps i n = lookup_art (nc_Articles (lookup_cat (Some m) (last ps))) i"
  using walk_cat_snoc[of "butlast ps" "last ps"] by (simp add: tn_GetArticle_def)

lemma mput_mput: "mput k x (mput k y m) = mput k x m"
  by (induction m) auto

lemma put_arts_put_arts: "put_arts ps k c as (put_arts ps k c bs n) = put_arts ps k c as n"
proof -
  have "mput k x \<circ> mput k y = mput k x" for x y :: NewsCat
    by (rule ext) (simp add: mput_mput)
  then show ?thesis by (simp add: put_arts_def on_path_def update_path_comp)
qed

lemma tn_writeFile_ok:
  "tn_writeFile marshal n d = (None, d') \<Longrightarrow> dk_get d' (tn_filePath n) = marshal (tn_Categories n)"
  by (auto simp: tn_writeFile_def Let_def dest!: os_WriteFile_ok os_Rename_ok split: option.splits prod.splits)

text \<open>The part of \<^verbatim>\<open>PostArticle\<close> before saving, for a category whose pointers are all set.\<close>

definition linked :: "32 word \<Rightarrow> 32 word \<Rightarrow> articles \<Rightarrow> 32 word \<Rightarrow> NewsArtData \<Rightarrow> NewsArtData" where
  "linked parentID newID as i a =
     (let a1 = (if as \<noteq> [] \<and> i = max_key as then a\<lparr>na_NextArt := newID\<rparr> else a)
      in if parentID \<noteq> 0 \<and> i = parentID \<and> na_FirstChildArt a1 = 0 then a1\<lparr>na_FirstChildArt := newID\<rparr> else a1)"

definition new_id :: "articles \<Rightarrow> 32 word" where
  "new_id as = (if as = [] then 1 else max_key as + 1)"

definition posted :: "32 word \<Rightarrow> articles \<Rightarrow> NewsArtData \<Rightarrow> NewsArtData" where
  "posted parentID as article =
     (let a = article\<lparr>na_ParentArt := parentID\<rparr> in if as = [] then a else a\<lparr>na_PrevArt := max_key as\<rparr>)"

definition postable :: "bytes list \<Rightarrow> 32 word \<Rightarrow> ThreadedNewsYAML \<Rightarrow> bool" where
  "postable ps parentID n \<longleftrightarrow> ps \<noteq> [] \<and>
     (case getCatByPath (butlast ps) (tn_Categories n) of
        None \<Rightarrow> False
      | Some m \<Rightarrow>
          let as = nil_map (nc_Articles (lookup_cat (Some m) (last ps))) in
          None \<notin> set (map snd as) \<and> (parentID = 0 \<or> lookup_art (Some as) parentID \<noteq> None))"

definition arts_at :: "bytes list \<Rightarrow> ThreadedNewsYAML \<Rightarrow> articles" where
  "arts_at ps n = nil_map (nc_Articles (lookup_cat (getCatByPath (butlast ps) (tn_Categories n)) (last ps)))"

text \<open>What the three stages of the code make of the articles of the category.\<close>

lemma PostArticle_unfold:
  assumes "postable ps parentID n"
  obtains m as3 where
    "getCatByPath (butlast ps) (tn_Categories n) = Some m"
    "\<And>j. lookup_art (Some as3) j = (if j = new_id (arts_at ps n) then Some (posted parentID (arts_at ps n) article)
       else map_option (linked parentID (new_id (arts_at ps n)) (arts_at ps n) j) (lookup_art (Some (arts_at ps n)) j))"
    "\<And>n' d'. tn_PostArticle marshal ps parentID article (n, d) = (N_ok, n', d') \<Longrightarrow>
       n' = put_arts (butlast ps) (last ps) (lookup_cat (Some m) (last ps)) (Some as3) n \<and>
       tn_writeFile marshal n' d = (None, d')"
    "\<And>e n' d'. tn_PostArticle marshal ps parentID article (n, d) = (N_err e, n', d') \<Longrightarrow>
       new_id (arts_at ps n) \<noteq> 0 \<Longrightarrow>
       \<exists>as6. n' = put_arts (butlast ps) (last ps) (lookup_cat (Some m) (last ps)) (Some as6) n \<and>
         (\<forall>j. lookup_art (Some as6) j = lookup_art (Some (arts_at ps n)) j)"
proof -
  obtain m where m: "getCatByPath (butlast ps) (tn_Categories n) = Some m" and ps: "ps \<noteq> []"
    using assms by (auto simp: postable_def split: option.splits)
  define as where "as = arts_at ps n"
  define c where "c = lookup_cat (Some m) (last ps)"
  have as: "nil_map (nc_Articles c) = as" by (simp add: as_def arts_at_def c_def m)
  have nn: "None \<notin> set (map snd as)" and par: "parentID = 0 \<or> lookup_art (Some as) parentID \<noteq> None"
    using assms m as by (auto simp: postable_def Let_def c_def)
  have mx: "as \<noteq> [] \<Longrightarrow> lookup_art (Some as) (max_key as) \<noteq> None" using lookup_art_max nn by blast
  let ?new = "new_id as"
  let ?prev = "the (lookup_art (Some as) (max_key as))"
  define as1 where "as1 = (if as \<noteq> [] then mput (max_key as) (Some (?prev\<lparr>na_NextArt := ?new\<rparr>)) as else as)"
  let ?parent = "the (lookup_art (Some as1) parentID)"
  define sfc where "sfc = (parentID \<noteq> 0 \<and> na_FirstChildArt ?parent = 0)"
  define as2 where "as2 = (if sfc then mput parentID (Some (?parent\<lparr>na_FirstChildArt := ?new\<rparr>)) as1 else as1)"
  define as3 where "as3 = mput ?new (Some (posted parentID as article)) as2"
  have par1: "parentID \<noteq> 0 \<Longrightarrow> lookup_art (Some as1) parentID \<noteq> None"
    using par by (auto simp: as1_def)
  have l1: "lookup_art (Some as1) j = map_option (\<lambda>a. if as \<noteq> [] \<and> j = max_key as then a\<lparr>na_NextArt := ?new\<rparr> else a)
      (lookup_art (Some as) j)" for j
    using mx by (cases "as \<noteq> [] \<and> j = max_key as") (auto simp: as1_def option.map_ident)
  have l3: "lookup_art (Some as3) j = (if j = ?new then Some (posted parentID as article)
       else map_option (linked parentID ?new as j) (lookup_art (Some as) j))" for j
  proof (cases "lookup_art (Some as) j")
    case None
    then show ?thesis using par1 l1[of parentID] by (auto simp: as3_def as2_def sfc_def l1)
  next
    case (Some a)
    then show ?thesis by (auto simp: as3_def as2_def sfc_def l1 linked_def Let_def)
  qed
  define n1 where "n1 = put_arts (butlast ps) (last ps) c (Some as3) n"
  have hp: "\<not> (as \<noteq> [] \<and> lookup_art (Some as) (max_key as) = None)" using mx by blast
  have pp: "\<not> (parentID \<noteq> 0 \<and> lookup_art (Some as1) parentID = None)" using par1 by blast
  have nid: "(if as \<noteq> [] then max_key as + 1 else 1) = ?new" by (simp add: new_id_def)
  have art: "(if as \<noteq> [] then article\<lparr>na_ParentArt := parentID\<rparr>\<lparr>na_PrevArt := max_key as\<rparr>
      else article\<lparr>na_ParentArt := parentID\<rparr>) = posted parentID as article"
    by (simp add: posted_def)
  have post: "tn_PostArticle marshal ps parentID article (n, d) =
      (case tn_writeFile marshal n1 d of
         (None, d1) \<Rightarrow> (N_ok, n1, d1)
       | (Some e, d1) \<Rightarrow>
           let as4 = mdel ?new as3 in
           if as \<noteq> [] \<and> lookup_art (Some as4) (max_key as) = None
           then (N_panic, put_arts (butlast ps) (last ps) c (Some as4) n1, d1)
           else
             let as5 = (if as \<noteq> [] then mput (max_key as) (Some ((the (lookup_art (Some as4) (max_key as)))\<lparr>na_NextArt := na_NextArt ?prev\<rparr>)) as4 else as4)
             in if sfc \<and> lookup_art (Some as5) parentID = None
                then (N_panic, put_arts (butlast ps) (last ps) c (Some as5) n1, d1)
                else
                  let as6 = (if sfc then mput parentID (Some ((the (lookup_art (Some as5) parentID))\<lparr>na_FirstChildArt := 0\<rparr>)) as5 else as5)
                  in (N_err e, put_arts (butlast ps) (last ps) c (Some as6) n1, d1))"
    by (simp only: tn_PostArticle_def Let_def prod.case ps m if_False option.distinct c_def[symmetric] as
        hp nid art as1_def[symmetric] pp sfc_def[symmetric] as2_def[symmetric] as3_def[symmetric] n1_def[symmetric])
  obtain r d1 where w: "tn_writeFile marshal n1 d = (r, d1)" by fastforce
  define as4 where "as4 = mdel ?new as3"
  define as5 where "as5 = (if as \<noteq> [] then mput (max_key as) (Some ((the (lookup_art (Some as4) (max_key as)))\<lparr>na_NextArt := na_NextArt ?prev\<rparr>)) as4 else as4)"
  define as6 where "as6 = (if sfc then mput parentID (Some ((the (lookup_art (Some as5) parentID))\<lparr>na_FirstChildArt := 0\<rparr>)) as5 else as5)"

  have err: "tn_PostArticle marshal ps parentID article (n, d) =
      (N_err e, put_arts (butlast ps) (last ps) c (Some as6) n1, d1) \<and>
      (\<forall>j. lookup_art (Some as6) j = lookup_art (Some as) j)"
    if r: "r = Some e" and nz: "?new \<noteq> 0" for e
  proof -
    have new: "lookup_art (Some as) ?new = None"
      using lookup_art_above nz by (auto simp: new_id_def lookup_art_def nil_map_def)
    have mn: "as \<noteq> [] \<Longrightarrow> max_key as \<noteq> ?new" using mx new by auto
    have pn: "sfc \<Longrightarrow> parentID \<noteq> ?new" using par new by (auto simp: sfc_def)
    have l4: "lookup_art (Some as4) j = map_option (linked parentID ?new as j) (lookup_art (Some as) j)" for j
      using new by (auto simp: as4_def l3)
    have p4: "as \<noteq> [] \<Longrightarrow> lookup_art (Some as4) (max_key as) \<noteq> None" using mx by (simp add: l4)
    have l5: "lookup_art (Some as5) j = map_option (\<lambda>a. if sfc \<and> j = parentID then a\<lparr>na_FirstChildArt := ?new\<rparr> else a)
        (lookup_art (Some as) j)" for j
    proof (cases "lookup_art (Some as) j")
      case None
      then show ?thesis using mx by (cases "as = []") (auto simp: as5_def l4)
    next
      case (Some a)
      have s: "j = parentID \<Longrightarrow> sfc \<longleftrightarrow> parentID \<noteq> 0 \<and> na_FirstChildArt a = 0"
        using Some by (auto simp: sfc_def l1)
      show ?thesis
      proof (cases "as \<noteq> [] \<and> j = max_key as")
        case True
        then show ?thesis using Some s by (cases a) (auto simp: as5_def l4 linked_def Let_def)
      next
        case False
        then have "linked parentID ?new as j a = (if parentID \<noteq> 0 \<and> j = parentID \<and> na_FirstChildArt a = 0
            then a\<lparr>na_FirstChildArt := ?new\<rparr> else a)" by (auto simp: linked_def)
        then show ?thesis using Some s False by (auto simp: as5_def l4)
      qed
    qed
    have p5: "sfc \<Longrightarrow> lookup_art (Some as5) parentID \<noteq> None" using par by (auto simp: l5 sfc_def)
    have l6: "lookup_art (Some as6) j = lookup_art (Some as) j" for j
    proof (cases "sfc \<and> j = parentID")
      case True
      then obtain a where a: "lookup_art (Some as) j = Some a" using par by (auto simp: sfc_def)
      then have "na_FirstChildArt a = 0" using True by (auto simp: sfc_def l1 split: if_splits)
      then show ?thesis using True a by (cases a) (simp add: as6_def l5)
    qed (cases "lookup_art (Some as) j", auto simp: as6_def l5)
    have h4: "\<not> (as \<noteq> [] \<and> lookup_art (Some as4) (max_key as) = None)" using p4 by blast
    have h5: "\<not> (sfc \<and> lookup_art (Some as5) parentID = None)" using p5 by blast
    have "tn_PostArticle marshal ps parentID article (n, d) =
        (N_err e, put_arts (butlast ps) (last ps) c (Some as6) n1, d1)"
      by (simp only: post w r prod.case option.case Let_def as4_def[symmetric] as5_def[symmetric]
          as6_def[symmetric] h4 h5 if_False)
    then show ?thesis using l6 by blast
  qed
  show thesis
  proof (rule that[OF m])
    show "lookup_art (Some as3) j = (if j = new_id (arts_at ps n) then Some (posted parentID (arts_at ps n) article)
       else map_option (linked parentID (new_id (arts_at ps n)) (arts_at ps n) j) (lookup_art (Some (arts_at ps n)) j))" for j
      using l3 by (simp add: as_def)
  next
    fix n' d' assume "tn_PostArticle marshal ps parentID article (n, d) = (N_ok, n', d')"
    note post_ok = this
    show "n' = put_arts (butlast ps) (last ps) (lookup_cat (Some m) (last ps)) (Some as3) n \<and>
       tn_writeFile marshal n' d = (None, d')"
    proof (cases r)
      case None
      then show ?thesis using post_ok w by (simp add: post n1_def c_def)
    next
      case (Some e)
      have False
        using post_ok
        unfolding post w Some prod.case option.case Let_def as4_def[symmetric] as5_def[symmetric] as6_def[symmetric]
        by (auto split: if_splits)
      then show ?thesis ..
    qed
  next
    fix e n' d' assume e: "tn_PostArticle marshal ps parentID article (n, d) = (N_err e, n', d')"
      and nz: "new_id (arts_at ps n) \<noteq> 0"
    obtain e' where r: "r = Some e'" using e w by (cases r) (auto simp: post)
    show "\<exists>as6. n' = put_arts (butlast ps) (last ps) (lookup_cat (Some m) (last ps)) (Some as6) n \<and>
         (\<forall>j. lookup_art (Some as6) j = lookup_art (Some (arts_at ps n)) j)"
      using err[OF r] nz e unfolding as_def[symmetric] c_def[symmetric]
      by (auto simp: n1_def put_arts_put_arts)
  qed
qed

lemma GetArticle_arts_at:
  "ps \<noteq> [] \<Longrightarrow> getCatByPath (butlast ps) (tn_Categories n) = Some m \<Longrightarrow>
   tn_GetArticle ps i n = lookup_art (Some (arts_at ps n)) i"
  using GetArticle_at[of ps n m i] by (simp add: arts_at_def)

text \<open>C25: posting links the article into its category and nothing else changes.  The new article gets the
  next ID, points back at the last one and at its parent; the last article points forward to it, a
  parent without a reply gets it as its first child; every other article of this and of every other
  category is as before, and the tree on disk is the tree in memory.\<close>

theorem PostArticle_links:
  assumes p: "postable ps parentID n"
    and ok: "tn_PostArticle marshal ps parentID article (n, d) = (N_ok, n', d')"
  shows "tn_GetArticle ps (new_id (arts_at ps n)) n' = Some (posted parentID (arts_at ps n) article) \<and>
    (\<forall>j. j \<noteq> new_id (arts_at ps n) \<longrightarrow> tn_GetArticle ps j n' =
       map_option (linked parentID (new_id (arts_at ps n)) (arts_at ps n) j) (tn_GetArticle ps j n)) \<and>
    (\<forall>qs j. qs \<noteq> ps \<longrightarrow> tn_GetArticle qs j n' = tn_GetArticle qs j n) \<and>
    dk_get d' (tn_filePath n) = marshal (tn_Categories n')"
proof -
  have ps: "ps \<noteq> []" using p by (simp add: postable_def)
  obtain m as3 where m: "getCatByPath (butlast ps) (tn_Categories n) = Some m"
    and l: "\<And>j. lookup_art (Some as3) j = (if j = new_id (arts_at ps n) then Some (posted parentID (arts_at ps n) article)
       else map_option (linked parentID (new_id (arts_at ps n)) (arts_at ps n) j) (lookup_art (Some (arts_at ps n)) j))"
    and n': "n' = put_arts (butlast ps) (last ps) (lookup_cat (Some m) (last ps)) (Some as3) n"
    and w: "tn_writeFile marshal n' d = (None, d')"
    by (rule PostArticle_unfold[OF p, of article marshal d]) (use ok in blast)
  have "tn_filePath n' = tn_filePath n" by (simp add: n' put_arts_def on_path_def)
  then show ?thesis
    using GetArticle_put_arts[OF ps m refl, where as = "Some as3"] GetArticle_arts_at[OF ps m] l tn_writeFile_ok[OF w]
    by (simp add: n')
qed

text \<open>C26: a post that cannot be saved leaves no trace.  If \<^verbatim>\<open>PostArticle\<close> reports an error after its
  changes, every article of every category reads as before: the links it had set are taken back.\<close>

theorem PostArticle_rollback:
  assumes p: "postable ps parentID n" and nz: "new_id (arts_at ps n) \<noteq> 0"
    and err: "tn_PostArticle marshal ps parentID article (n, d) = (N_err e, n', d')"
  shows "tn_GetArticle qs j n' = tn_GetArticle qs j n"
proof -
  have ps: "ps \<noteq> []" using p by (simp add: postable_def)
  obtain m as6 where m: "getCatByPath (butlast ps) (tn_Categories n) = Some m"
    and n': "n' = put_arts (butlast ps) (last ps) (lookup_cat (Some m) (last ps)) (Some as6) n"
    and l: "\<forall>j. lookup_art (Some as6) j = lookup_art (Some (arts_at ps n)) j"
    by (rule PostArticle_unfold[OF p, of article marshal d]) (use err nz in blast)
  show ?thesis
    using GetArticle_put_arts[OF ps m refl, where as = "Some as6"] GetArticle_arts_at[OF ps m] l
    by (cases "qs = ps") (simp_all add: n')
qed

text \<open>A category with one article, to which a reply is posted, saved and not saved.\<close>

definition first_post :: NewsArtData where
  "first_post = \<lparr>na_Title = go_str ''hi'', na_Poster = go_str ''ann'', na_Date = 0, na_PrevArt = 0,
     na_NextArt = 0, na_ParentArt = 0, na_FirstChildArt = 0, na_DataFlav = NewsFlavor, na_Data = []\<rparr>"

definition one_post :: ThreadedNewsYAML where
  "one_post = \<lparr>tn_Categories = Some [(go_str ''General'', NewsCategoryListData15 NewsCategory (go_str ''General'')
       (Some [(1, Some first_post)]) (Some []) 0 0 0)], tn_filePath = go_str ''News.yaml''\<rparr>"

lemma one_post_ok: "postable [go_str ''General''] 1 one_post" "arts_at [go_str ''General''] one_post = [(1, Some first_post)]"
  by (simp_all add: postable_def arts_at_def one_post_def lookup_cat_def lookup_art_def nil_map_def Let_def)

lemma one_post_new: "new_id [(1, Some first_post)] = 2" "max_key [(1, Some first_post)] = 1"
  by (simp_all add: new_id_def max_key_def)

theorem PostArticle_links_witness:
  "\<exists>n' d' a b. tn_PostArticle (\<lambda>_. Some []) [go_str ''General''] 1 first_post (one_post, no_files) = (N_ok, n', d') \<and>
     tn_GetArticle [go_str ''General''] 2 n' = Some a \<and> na_PrevArt a = 1 \<and> na_ParentArt a = 1 \<and>
     tn_GetArticle [go_str ''General''] 1 n' = Some b \<and> na_NextArt b = 2 \<and> na_FirstChildArt b = 2"
proof -
  obtain n' d' where ok: "tn_PostArticle (\<lambda>_. Some []) [go_str ''General''] 1 first_post (one_post, no_files) = (N_ok, n', d')"
    by (simp add: tn_PostArticle_def one_post_def lookup_cat_def lookup_art_def nil_map_def max_key_def
        Let_def tn_writeFile_def disk_ops no_files_def put_arts_def on_path_def)
  have "tn_GetArticle [go_str ''General''] 1 one_post = Some first_post"
    by (simp add: tn_GetArticle_def one_post_def lookup_cat_def lookup_art_def nil_map_def)
  then have "tn_GetArticle [go_str ''General''] 2 n' = Some (posted 1 [(1, Some first_post)] first_post)"
    "tn_GetArticle [go_str ''General''] 1 n' = Some (linked 1 2 [(1, Some first_post)] 1 first_post)"
    using PostArticle_links[OF one_post_ok(1) ok] unfolding one_post_ok(2) one_post_new by simp_all
  moreover have "na_FirstChildArt first_post = 0" by (simp add: first_post_def)
  ultimately show ?thesis using ok
    by (simp add: posted_def linked_def one_post_new)
qed

theorem PostArticle_rollback_witness:
  "\<exists>e n' d'. tn_PostArticle (\<lambda>_. None) [go_str ''General''] 1 first_post (one_post, no_files) = (N_err e, n', d') \<and>
     tn_GetArticle [go_str ''General''] 1 n' = Some first_post \<and> tn_GetArticle [go_str ''General''] 2 n' = None"
proof -
  obtain e n' d' where err: "tn_PostArticle (\<lambda>_. None) [go_str ''General''] 1 first_post (one_post, no_files) = (N_err e, n', d')"
    by (simp add: tn_PostArticle_def one_post_def lookup_cat_def lookup_art_def nil_map_def max_key_def
        Let_def tn_writeFile_def put_arts_def on_path_def first_post_def)
  have "new_id (arts_at [go_str ''General''] one_post) \<noteq> 0" by (simp add: one_post_ok(2) one_post_new)
  moreover have "tn_GetArticle [go_str ''General''] 1 one_post = Some first_post"
    "tn_GetArticle [go_str ''General''] 2 one_post = None"
    by (simp_all add: tn_GetArticle_def one_post_def lookup_cat_def lookup_art_def nil_map_def)
  ultimately show ?thesis using err PostArticle_rollback[OF one_post_ok(1) _ err] by auto
qed

section \<open>Creating and deleting groupings\<close>

lemma CreateGrouping_NewsItem:
  assumes "tn_CreateGrouping marshal ps name t (n, d) = (N_ok, n', d')"
  shows "tn_NewsItem (ps @ [name]) n' = new_group name t \<and>
    walk_cat (ps @ [name]) zero_cat (tn_Categories n') = new_group name t"
  using assms
  by (auto simp: tn_CreateGrouping_def tn_NewsItem_def walk_cat_snoc on_path_def getCatByPath_update Let_def
      split: if_splits prod.splits option.splits)

text \<open>Creating a category empties one of the same name.  \<^verbatim>\<open>CreateGrouping\<close> does not look whether the
  name is taken: after a success no article can be read at the new path, whatever was there before.\<close>

theorem CreateGrouping_empties:
  assumes "tn_CreateGrouping marshal ps name t (n, d) = (N_ok, n', d')"
  shows "tn_GetArticle (ps @ [name]) i n' = None \<and> tn_GetCategories (ps @ [name]) n' = []"
proof -
  have w: "walk_cat (ps @ [name]) zero_cat (tn_Categories n') = new_group name t"
    and l: "lookup_cat (getCatByPath ps (tn_Categories n')) name = new_group name t"
    using CreateGrouping_NewsItem[OF assms] by (simp_all add: tn_NewsItem_def)
  have "getCatByPath (ps @ qs) m = getCatByPath qs (getCatByPath ps m)" for qs m
    by (induction ps arbitrary: m) simp_all
  then show ?thesis using w l
    by (simp add: tn_GetArticle_def tn_GetCategories_def new_group_def lookup_art_def nil_map_def)
qed

theorem CreateGrouping_empties_witness:
  "\<exists>n' d'. tn_GetArticle [go_str ''General''] 1 one_post = Some first_post \<and>
     tn_CreateGrouping (\<lambda>_. Some []) [] (go_str ''General'') NewsCategory (one_post, no_files) = (N_ok, n', d') \<and>
     tn_GetArticle [go_str ''General''] 1 n' = None"
proof -
  obtain n' d' where ok: "tn_CreateGrouping (\<lambda>_. Some []) [] (go_str ''General'') NewsCategory (one_post, no_files) = (N_ok, n', d')"
    by (simp add: tn_CreateGrouping_def one_post_def tn_writeFile_def Let_def disk_ops no_files_def on_path_def)
  moreover have "tn_GetArticle [go_str ''General''] 1 one_post = Some first_post"
    by (simp add: tn_GetArticle_def one_post_def lookup_cat_def lookup_art_def nil_map_def)
  ultimately show ?thesis using CreateGrouping_empties[OF ok] by auto
qed

text \<open>A failed delete of a missing article breaks the listing.  When the article is not there and
  saving fails, the rollback stores a nil pointer under its ID, and from then on listing the category panics.\<close>

theorem failed_delete_breaks_listing:
  assumes "tn_DeleteArticle marshal ps i (n, d) = (N_err e, n', d')" "ps \<noteq> []"
    and "tn_GetArticle ps i n = None"
  shows "tn_ListArticles ps n' = Panic"
proof -
  obtain m where m: "getCatByPath (butlast ps) (tn_Categories n) = Some m"
    using assms(1,2) by (cases "getCatByPath (butlast ps) (tn_Categories n)") (auto simp: tn_DeleteArticle_def Let_def)
  have old: "lookup_art (nc_Articles (lookup_cat (Some m) (last ps))) i = None"
    using assms(3) GetArticle_at[OF assms(2) m] by simp
  obtain as where n': "n' = put_arts (butlast ps) (last ps) (lookup_cat (Some m) (last ps)) (Some (mput i None as)) n"
    using assms(1,2) m old
    by (auto simp: tn_DeleteArticle_def Let_def put_arts_put_arts split: prod.splits option.splits)
  have "(i, None) \<in> set xs \<Longrightarrow> art_entries xs = Panic" for xs :: articles
    by (induction xs rule: art_entries.induct) (auto split: option.splits)
  moreover have "(i, None) \<in> set (mput i None as)"
    using map_of_SomeD[of "mput i None as" i None] by simp
  moreover have "walk_cat ps zero_cat (tn_Categories n') = with_Articles (Some (mput i None as)) (lookup_cat (Some m) (last ps))"
    using walk_cat_snoc[of "butlast ps" "last ps"] assms(2) m
    by (simp add: n' put_arts_def on_path_def getCatByPath_update)
  ultimately show ?thesis
    by (simp add: tn_ListArticles_def GetNewsArtListData_def nil_map_def)
qed

theorem failed_delete_breaks_listing_witness:
  "\<exists>e n' d'. tn_DeleteArticle (\<lambda>_. None) [go_str ''General''] 9 (one_post, no_files) = (N_err e, n', d') \<and>
     tn_ListArticles [go_str ''General''] n' = Panic"
proof -
  obtain e n' d' where err: "tn_DeleteArticle (\<lambda>_. None) [go_str ''General''] 9 (one_post, no_files) = (N_err e, n', d')"
    by (simp add: tn_DeleteArticle_def one_post_def lookup_cat_def lookup_art_def nil_map_def tn_writeFile_def Let_def)
  moreover have "tn_GetArticle [go_str ''General''] 9 one_post = None"
    by (simp add: tn_GetArticle_def one_post_def lookup_cat_def lookup_art_def nil_map_def)
  ultimately show ?thesis using failed_delete_breaks_listing[OF err] by simp
qed

end
