(* ===== verification/HL_Board.thy ===== *)
theory HL_Board
  imports HL_Threaded_News
begin

text \<open>
  The message board of \<^verbatim>\<open>internal/mobius/news.go\<close> and the server agreement of
  \<^verbatim>\<open>internal/mobius/agreement.go\<close>: a text read through one shared offset that the server resets with
  \<^verbatim>\<open>Seek\<close> before each reading.
\<close>

text \<open>\<^verbatim>\<open>strings.ReplaceAll\<close> of a pattern that is not empty.\<close>

function ReplaceAll :: "bytes \<Rightarrow> bytes \<Rightarrow> bytes \<Rightarrow> bytes" where
  "ReplaceAll old new [] = []"
| "ReplaceAll old new (c # cs) =
     (if old \<noteq> [] \<and> take (length old) (c # cs) = old
      then new @ ReplaceAll old new (drop (length old - 1) cs)
      else c # ReplaceAll old new cs)"
  by pat_completeness auto
termination by (relation "measure (\<lambda>(old, new, s). length s)") auto

section \<open>The message board\<close>

record FlatNews =
  fl_data :: bytes
  fl_filePath :: bytes
  fl_readOffset :: nat

definition FlatNews_Reload :: "FlatNews \<times> disk \<Rightarrow> go_error option \<times> FlatNews \<times> disk" where
  "FlatNews_Reload s =
     (case s of (f, d) \<Rightarrow>
        (case os_ReadFile (fl_filePath f) d of
           (Inl e, d1) \<Rightarrow> (Some e, f, d1)
         | (Inr dat, d1) \<Rightarrow>
             let agreement = ReplaceAll [10] [13] dat;
                 agreement = ReplaceAll [13, 10] [13] agreement
             in (None, f\<lparr>fl_data := agreement\<rparr>, d1)))"

definition NewFlatNews :: "bytes \<Rightarrow> disk \<Rightarrow> go_error option \<times> FlatNews \<times> disk" where
  "NewFlatNews path d = FlatNews_Reload (\<lparr>fl_data = [], fl_filePath = path, fl_readOffset = 0\<rparr>, d)"

definition FlatNews_Read :: "nat \<Rightarrow> FlatNews \<Rightarrow> (bytes \<times> go_error option) \<times> FlatNews" where
  "FlatNews_Read n f =
     (case readFrom n (fl_readOffset f) (fl_data f) of (r, off) \<Rightarrow> (r, f\<lparr>fl_readOffset := off\<rparr>))"

text \<open>The post is prepended before saving, and stays when saving fails.\<close>

definition FlatNews_Write :: "bytes \<Rightarrow> FlatNews \<times> disk \<Rightarrow> go_error option \<times> FlatNews \<times> disk" where
  "FlatNews_Write p s =
     (case s of (f, d) \<Rightarrow>
        let f1 = f\<lparr>fl_data := p @ fl_data f\<rparr>; tempFilePath = fl_filePath f @ go_str ''.tmp'' in
        (case os_WriteFile tempFilePath (fl_data f1) d of
           (Some e, d1) \<Rightarrow> (Some e, f1, d1)
         | (None, d1) \<Rightarrow>
             (case os_Rename tempFilePath (fl_filePath f) d1 of
                (Some e, d2) \<Rightarrow> (Some e, f1, d2)
              | (None, d2) \<Rightarrow> (None, f1, d2))))"

definition FlatNews_Seek :: "nat \<Rightarrow> FlatNews \<Rightarrow> FlatNews" where
  "FlatNews_Seek offset f = f\<lparr>fl_readOffset := offset\<rparr>"

text \<open>\<^verbatim>\<open>io.ReadAll\<close>: \<^verbatim>\<open>Read\<close> until the end, the \<open>k\<close>-th time into \<open>Suc (sz k)\<close> bytes.\<close>

definition FlatNews_ReadAll :: "(nat \<Rightarrow> nat) \<Rightarrow> FlatNews \<Rightarrow> bytes \<times> FlatNews" where
  "FlatNews_ReadAll sz f =
     (case drain sz 0 (fl_readOffset f) (fl_data f) of (b, off) \<Rightarrow> (b, f\<lparr>fl_readOffset := off\<rparr>))"

section \<open>The agreement\<close>

record Agreement =
  ag_data :: bytes
  ag_filePath :: bytes
  ag_lineEndings :: bytes
  ag_readOffset :: nat

definition NewAgreement :: "bytes \<Rightarrow> bytes \<Rightarrow> disk \<Rightarrow> go_error option \<times> Agreement \<times> disk" where
  "NewAgreement path lineEndings d =
     (let file = path_Join [path, go_str ''Agreement.txt''] in
      case os_ReadFile file d of
        (Inl e, d1) \<Rightarrow> (Some e, \<lparr>ag_data = [], ag_filePath = [], ag_lineEndings = [], ag_readOffset = 0\<rparr>, d1)
      | (Inr dat, d1) \<Rightarrow>
          let agreement = ReplaceAll [10] lineEndings dat;
              agreement = ReplaceAll [13, 10] lineEndings agreement
          in (None, \<lparr>ag_data = agreement, ag_filePath = file, ag_lineEndings = lineEndings, ag_readOffset = 0\<rparr>, d1))"

definition Agreement_Reload :: "Agreement \<times> disk \<Rightarrow> go_error option \<times> Agreement \<times> disk" where
  "Agreement_Reload s =
     (case s of (a, d) \<Rightarrow>
        (case os_ReadFile (ag_filePath a) d of
           (Inl e, d1) \<Rightarrow> (Some e, a, d1)
         | (Inr dat, d1) \<Rightarrow>
             let agreement = ReplaceAll [10] (ag_lineEndings a) dat;
                 agreement = ReplaceAll [13, 10] (ag_lineEndings a) agreement
             in (None, a\<lparr>ag_data := agreement\<rparr>, d1)))"

definition Agreement_Read :: "nat \<Rightarrow> Agreement \<Rightarrow> (bytes \<times> go_error option) \<times> Agreement" where
  "Agreement_Read n a =
     (case readFrom n (ag_readOffset a) (ag_data a) of (r, off) \<Rightarrow> (r, a\<lparr>ag_readOffset := off\<rparr>))"

definition Agreement_Seek :: "nat \<Rightarrow> Agreement \<Rightarrow> Agreement" where
  "Agreement_Seek offset a = a\<lparr>ag_readOffset := offset\<rparr>"

definition Agreement_ReadAll :: "(nat \<Rightarrow> nat) \<Rightarrow> Agreement \<Rightarrow> bytes \<times> Agreement" where
  "Agreement_ReadAll sz a =
     (case drain sz 0 (ag_readOffset a) (ag_data a) of (b, off) \<Rightarrow> (b, a\<lparr>ag_readOffset := off\<rparr>))"

section \<open>Reading what was posted\<close>

lemma FlatNews_Seek_ReadAll:
  "FlatNews_ReadAll sz (FlatNews_Seek 0 f) = (fl_data f, f\<lparr>fl_readOffset := length (fl_data f)\<rparr>)"
  by (simp add: FlatNews_ReadAll_def FlatNews_Seek_def drain_eq)

lemma Agreement_Seek_ReadAll:
  "Agreement_ReadAll sz (Agreement_Seek 0 a) = (ag_data a, a\<lparr>ag_readOffset := length (ag_data a)\<rparr>)"
  by (simp add: Agreement_ReadAll_def Agreement_Seek_def drain_eq)

lemma FlatNews_Write_ok:
  "FlatNews_Write p (f, d) = (None, f', d') \<Longrightarrow>
   f' = f\<lparr>fl_data := p @ fl_data f\<rparr> \<and> dk_get d' (fl_filePath f) = Some (p @ fl_data f)"
  by (auto simp: FlatNews_Write_def Let_def dest!: os_WriteFile_ok os_Rename_ok split: prod.splits option.splits)

fun post_all :: "bytes list \<Rightarrow> FlatNews \<times> disk \<Rightarrow> (FlatNews \<times> disk) option" where
  "post_all [] s = Some s"
| "post_all (p # ps) s =
     (case FlatNews_Write p s of (None, s') \<Rightarrow> post_all ps s' | (Some e, s') \<Rightarrow> None)"

lemma post_all_data:
  "post_all ps (f, d) = Some (f', d') \<Longrightarrow> fl_data f' = concat (rev ps) @ fl_data f \<and> fl_filePath f' = fl_filePath f"
  by (induction ps arbitrary: f d)
    (fastforce dest!: FlatNews_Write_ok split: prod.splits option.splits)+

text \<open>C38: the board shows every post, newest first.  After any sequence of saved posts, seeking to the
  start and reading to the end gives the posts in reverse order followed by the old text, whatever
  buffer sizes the reader uses, and the file holds the same text.\<close>

theorem board_reads_posts:
  assumes "post_all (p # ps) (f, d) = Some (f', d')"
  shows "fst (FlatNews_ReadAll sz (FlatNews_Seek 0 f')) = concat (rev (p # ps)) @ fl_data f \<and>
    dk_get d' (fl_filePath f) = Some (fst (FlatNews_ReadAll sz (FlatNews_Seek 0 f')))"
proof -
  have "post_all (p # ps) (f, d) = Some (f', d') \<Longrightarrow> dk_get d' (fl_filePath f) = Some (fl_data f')" for p f d
  proof (induction ps arbitrary: p f d)
    case Nil
    then show ?case by (auto dest!: FlatNews_Write_ok split: prod.splits option.splits)
  next
    case (Cons q ps)
    obtain f1 d1 where w: "FlatNews_Write p (f, d) = (None, f1, d1)" "post_all (q # ps) (f1, d1) = Some (f', d')"
      using Cons.prems by (auto split: prod.splits option.splits)
    have "fl_filePath f1 = fl_filePath f" using FlatNews_Write_ok[OF w(1)] by simp
    then show ?case using Cons.IH[OF w(2)] by simp
  qed
  then show ?thesis using assms post_all_data[OF assms] by (simp add: FlatNews_Seek_ReadAll del: post_all.simps)
qed

theorem board_reads_posts_witness:
  "\<exists>f' d'. post_all [[1, 2], [3]] (\<lparr>fl_data = [9], fl_filePath = [77], fl_readOffset = 4\<rparr>, no_files) = Some (f', d') \<and>
     fst (FlatNews_ReadAll (\<lambda>_. 0) (FlatNews_Seek 0 f')) = [3, 1, 2, 9]"
proof -
  obtain f' d' where p: "post_all [[1, 2], [3]] (\<lparr>fl_data = [9], fl_filePath = [77], fl_readOffset = 4\<rparr>, no_files) = Some (f', d')"
    by (auto simp: FlatNews_Write_def disk_ops no_files_def Let_def go_str_def)
  from board_reads_posts[OF p, of "\<lambda>_. 0"] p show ?thesis by auto
qed

section \<open>Line endings\<close>

lemma ReplaceAll_byte: "ReplaceAll [a] [b] s = map (\<lambda>c. if c = a then b else c) s"
  by (induction s) auto

lemma ReplaceAll_absent: "b \<notin> set s \<Longrightarrow> ReplaceAll [a, b] new s = s"
proof (induction s)
  case (Cons c s)
  then show ?case by (cases s) auto
qed simp

text \<open>Text files with Windows line endings get doubled line breaks.  The replacement of line feeds
  runs first, so the one for carriage return and line feed never finds anything: both bytes of a
  Windows line ending become a carriage return.\<close>

theorem Reload_doubles_crlf:
  assumes "FlatNews_Reload (f, d) = (None, f', d')" "dk_get d (fl_filePath f) = Some s"
  shows "fl_data f' = map (\<lambda>c. if c = 10 then 13 else c) s"
proof -
  have "10 \<notin> set (ReplaceAll [10] [13] s)" by (auto simp: ReplaceAll_byte)
  then have "ReplaceAll [13, 10] [13] (ReplaceAll [10] [13] s) = ReplaceAll [10] [13] s"
    by (rule ReplaceAll_absent)
  then show ?thesis using assms
    by (auto simp: FlatNews_Reload_def os_ReadFile_def Let_def ReplaceAll_byte split: option.splits)
qed

theorem Reload_doubles_crlf_example:
  "\<exists>f' d'. FlatNews_Reload (\<lparr>fl_data = [], fl_filePath = [77], fl_readOffset = 0\<rparr>,
       no_files\<lparr>dk_files := [([77], [65, 13, 10, 66])]\<rparr>) = (None, f', d') \<and> fl_data f' = [65, 13, 13, 66]"
proof -
  let ?f = "\<lparr>fl_data = [], fl_filePath = [77], fl_readOffset = 0\<rparr>"
  let ?d = "no_files\<lparr>dk_files := [([77], [65, 13, 10, 66])]\<rparr>"
  obtain f' d' where r: "FlatNews_Reload (?f, ?d) = (None, f', d')"
    by (simp add: FlatNews_Reload_def os_ReadFile_def no_files_def)
  have "dk_get ?d (fl_filePath ?f) = Some [65, 13, 10, 66]" by simp
  from Reload_doubles_crlf[OF r this] r show ?thesis by simp
qed

end
