(* ===== verification/HL_File_Store.thy ===== *)
theory HL_File_Store
  imports HL_Board
begin

text \<open>
  The shared files: the file system behind \<^verbatim>\<open>hotline/file_store.go\<close>, whose \<^verbatim>\<open>OSFileStore\<close> calls the
  operating system.  A file system is a map from locations (lists of names from the root) to
  directories, regular files and symbolic links.
\<close>

section \<open>The file system\<close>

datatype node = Dir time | Reg bytes time | Link bytes

type_synonym nodes = "(bytes list, node) gmap"

text \<open>
  \<open>fs_oracle\<close> says for each coming call whether the operating system refuses it, for want of a
  permission, of space or for any other reason; \<open>fs_dirsize\<close> is the size it reports for a directory.
\<close>

record filesystem =
  fs_nodes :: nodes
  fs_cwd :: "bytes list"
  fs_now :: time
  fs_dirsize :: "bytes list \<Rightarrow> nat"
  fs_oracle :: "nat \<Rightarrow> go_error option"

abbreviation fs_get :: "filesystem \<Rightarrow> bytes list \<Rightarrow> node option" where
  "fs_get fs \<equiv> map_of (fs_nodes fs)"

definition fs_segs :: "bytes \<Rightarrow> bytes list" where
  "fs_segs p = filter (\<lambda>s. s \<noteq> [] \<and> s \<noteq> dot) (split_slash p)"

text \<open>
  Walking a path: \<open>n\<close> is the number of symbolic links that may still be followed (the kernel allows
  40), \<open>follow\<close> says whether a link in the last place is followed.  The result is a location whose
  parent is a directory; there need not be anything at it.
\<close>

function walk :: "nat \<Rightarrow> (bytes list \<Rightarrow> node option) \<Rightarrow> bool \<Rightarrow> bytes list \<Rightarrow> bytes list \<Rightarrow> go_error + bytes list" where
  "walk n m follow base [] = Inr base"
| "walk n m follow base (c # rest) =
     (if c = dotdot then walk n m follow (butlast base) rest
      else
        (case m (base @ [c]) of
           Some (Link t) \<Rightarrow>
             if rest = [] \<and> \<not> follow then Inr (base @ [c])
             else
               (case n of
                  0 \<Rightarrow> Inl (Msg ''too many levels of symbolic links'')
                | Suc k \<Rightarrow> walk k m follow (if rooted t then [] else base) (fs_segs t @ rest))
         | Some (Reg b t) \<Rightarrow> if rest = [] then Inr (base @ [c]) else Inl (Msg ''not a directory'')
         | Some (Dir t) \<Rightarrow> walk n m follow (base @ [c]) rest
         | None \<Rightarrow> if rest = [] then Inr (base @ [c]) else Inl NotExist))"
  by pat_completeness auto
termination
  by (relation "measures [\<lambda>(n, m, follow, base, rest). n, \<lambda>(n, m, follow, base, rest). length rest]") auto

definition fs_resolve :: "bool \<Rightarrow> bytes \<Rightarrow> filesystem \<Rightarrow> go_error + bytes list" where
  "fs_resolve follow p fs =
     (if p = [] then Inl NotExist
      else walk 40 (fs_get fs) follow [] (if rooted p then fs_segs p else fs_cwd fs @ fs_segs p))"

definition fs_tick :: "filesystem \<Rightarrow> filesystem" where
  "fs_tick fs = fs\<lparr>fs_oracle := \<lambda>i. fs_oracle fs (Suc i)\<rparr>"

definition fs_call :: "(filesystem \<Rightarrow> (go_error + 'a) \<times> filesystem) \<Rightarrow> filesystem \<Rightarrow> (go_error + 'a) \<times> filesystem" where
  "fs_call f fs = (case fs_oracle fs 0 of Some e \<Rightarrow> (Inl e, fs_tick fs) | None \<Rightarrow> f (fs_tick fs))"

definition fs_at :: "bool \<Rightarrow> bytes \<Rightarrow> (bytes list \<Rightarrow> filesystem \<Rightarrow> (go_error + 'a) \<times> filesystem) \<Rightarrow>
    filesystem \<Rightarrow> (go_error + 'a) \<times> filesystem" where
  "fs_at follow p f = fs_call (\<lambda>fs. case fs_resolve follow p fs of Inl e \<Rightarrow> (Inl e, fs) | Inr q \<Rightarrow> f q fs)"

definition is_dir :: "node option \<Rightarrow> bool" where
  "is_dir v = (case v of Some (Dir t) \<Rightarrow> True | _ \<Rightarrow> False)"

definition fs_put :: "bytes list \<Rightarrow> node \<Rightarrow> filesystem \<Rightarrow> filesystem" where
  "fs_put q v fs = fs\<lparr>fs_nodes := mput q v (fs_nodes fs)\<rparr>"

text \<open>The names in a directory, and everything at or below a location.\<close>

definition fs_children :: "bytes list \<Rightarrow> filesystem \<Rightarrow> bytes list" where
  "fs_children q fs = sort (map (last \<circ> fst) (filter (\<lambda>e. fst e \<noteq> [] \<and> butlast (fst e) = q) (fs_nodes fs)))"

definition below :: "bytes list \<Rightarrow> bytes list \<Rightarrow> bool" where
  "below q p \<longleftrightarrow> take (length q) p = q"

definition fs_tree :: "bytes list \<Rightarrow> filesystem \<Rightarrow> nodes" where
  "fs_tree q fs = filter (\<lambda>e. below q (fst e)) (fs_nodes fs)"

text \<open>A walk ends at a directory that was reached through directories, or at a name in one.\<close>

definition real_dir :: "(bytes list \<Rightarrow> node option) \<Rightarrow> bytes list \<Rightarrow> bool" where
  "real_dir m q \<longleftrightarrow> (\<forall>k. 0 < k \<longrightarrow> k \<le> length q \<longrightarrow> is_dir (m (take k q)))"

lemma real_dir_Nil [simp]: "real_dir m []"
  by (simp add: real_dir_def)

lemma real_dir_snoc: "real_dir m (q @ [c]) \<longleftrightarrow> real_dir m q \<and> is_dir (m (q @ [c]))"
  by (auto simp: real_dir_def le_Suc_eq)

lemma real_dir_butlast: "real_dir m q \<Longrightarrow> real_dir m (butlast q)"
  by (cases q rule: rev_cases) (auto simp: real_dir_snoc)

lemma real_dir_is_dir: "real_dir m q \<Longrightarrow> q \<noteq> [] \<Longrightarrow> is_dir (m q)"
  by (cases q rule: rev_cases) (auto simp: real_dir_snoc)

lemma walk_end:
  "walk n m follow base rest = Inr q \<Longrightarrow> real_dir m base \<Longrightarrow>
   real_dir m q \<or> (q \<noteq> [] \<and> real_dir m (butlast q) \<and> \<not> is_dir (m q) \<and> (follow \<longrightarrow> (\<forall>l. m q \<noteq> Some (Link l))))"
proof (induction n m follow base rest rule: walk.induct)
  case (2 n m follow base c rest)
  show ?case
  proof (cases "c = dotdot")
    case True
    then show ?thesis using 2 by (simp add: real_dir_butlast)
  next
    case False
    show ?thesis
    proof (cases "m (base @ [c])")
      case None
      then show ?thesis using 2 False by (auto simp: is_dir_def split: if_splits)
    next
      case (Some v)
      show ?thesis
      proof (cases v)
        case (Dir t)
        have "real_dir m (base @ [c])" using "2.prems"(2) Some Dir(1) by (simp add: real_dir_snoc is_dir_def)
        then show ?thesis using 2 False Some Dir by simp
      next
        case (Reg b t)
        then show ?thesis using 2 False Some by (auto simp: is_dir_def split: if_splits)
      next
        case (Link l)
        show ?thesis
        proof (cases "rest = [] \<and> \<not> follow")
          case True
          then show ?thesis using 2 False Some Link by (auto simp: is_dir_def)
        next
          case nf: False
          then obtain k where "n = Suc k" using "2.prems"(1) False Some Link by (cases n) auto
          then show ?thesis using 2 nf False Some Link by auto
        qed
      qed
    qed
  qed
qed auto

lemma resolve_end:
  "fs_resolve follow p fs = Inr q \<Longrightarrow>
   real_dir (fs_get fs) q \<or> (q \<noteq> [] \<and> real_dir (fs_get fs) (butlast q) \<and> \<not> is_dir (fs_get fs q) \<and>
     (follow \<longrightarrow> (\<forall>l. fs_get fs q \<noteq> Some (Link l))))"
  using walk_end[of 40 "fs_get fs" follow "[]"] by (auto simp: fs_resolve_def split: if_splits)

section \<open>Names\<close>

text \<open>\<^verbatim>\<open>filepath.Base\<close> and \<^verbatim>\<open>filepath.Dir\<close>.\<close>

definition filepath_Base :: "bytes \<Rightarrow> bytes" where
  "filepath_Base p =
     (if p = [] then dot
      else
        let q = rev (dropWhile (\<lambda>c. c = slash) (rev p)) in
        if q = [] then [slash] else last (split_slash q))"

definition filepath_Dir :: "bytes \<Rightarrow> bytes" where
  "filepath_Dir p = path_Clean (take (length p - length (last (split_slash p))) p)"

section \<open>The calls of \<^verbatim>\<open>OSFileStore\<close>\<close>

datatype file_mode = ModeDir | ModeRegular | ModeSymlink

record FileInfo =
  nf_Name :: bytes
  nf_Size :: nat
  nf_Mode :: file_mode
  nf_ModTime :: time

definition node_info :: "filesystem \<Rightarrow> bytes list \<Rightarrow> bytes \<Rightarrow> node \<Rightarrow> FileInfo" where
  "node_info fs q name v =
     (case v of
        Dir t \<Rightarrow> \<lparr>nf_Name = name, nf_Size = fs_dirsize fs q, nf_Mode = ModeDir, nf_ModTime = t\<rparr>
      | Reg b t \<Rightarrow> \<lparr>nf_Name = name, nf_Size = length b, nf_Mode = ModeRegular, nf_ModTime = t\<rparr>
      | Link t \<Rightarrow> \<lparr>nf_Name = name, nf_Size = length t, nf_Mode = ModeSymlink, nf_ModTime = fs_now fs\<rparr>)"

definition stat_at :: "bool \<Rightarrow> bytes \<Rightarrow> filesystem \<Rightarrow> (go_error + FileInfo) \<times> filesystem" where
  "stat_at follow p = fs_at follow p (\<lambda>q fs.
     (case (if q = [] then Some (Dir (fs_now fs)) else fs_get fs q) of
        None \<Rightarrow> (Inl NotExist, fs)
      | Some v \<Rightarrow> (Inr (node_info fs q (filepath_Base p) v), fs)))"

definition FS_Stat :: "bytes \<Rightarrow> filesystem \<Rightarrow> (go_error + FileInfo) \<times> filesystem" where
  "FS_Stat = stat_at True"

definition FS_Lstat :: "bytes \<Rightarrow> filesystem \<Rightarrow> (go_error + FileInfo) \<times> filesystem" where
  "FS_Lstat = stat_at False"

definition FS_Mkdir :: "bytes \<Rightarrow> filesystem \<Rightarrow> (go_error + unit) \<times> filesystem" where
  "FS_Mkdir p = fs_at False p (\<lambda>q fs.
     if q = [] \<or> fs_get fs q \<noteq> None then (Inl (Msg ''file exists''), fs)
     else (Inr (), fs_put q (Dir (fs_now fs)) fs))"

definition FS_Symlink :: "bytes \<Rightarrow> bytes \<Rightarrow> filesystem \<Rightarrow> (go_error + unit) \<times> filesystem" where
  "FS_Symlink oldname newname = fs_at False newname (\<lambda>q fs.
     if q = [] \<or> fs_get fs q \<noteq> None then (Inl (Msg ''file exists''), fs)
     else (Inr (), fs_put q (Link oldname) fs))"

text \<open>\<^verbatim>\<open>Remove\<close> takes a directory only if it is empty.\<close>

definition FS_Remove :: "bytes \<Rightarrow> filesystem \<Rightarrow> (go_error + unit) \<times> filesystem" where
  "FS_Remove p = fs_at False p (\<lambda>q fs.
     if q = [] then (Inl (Msg ''device or resource busy''), fs)
     else if fs_get fs q = None then (Inl NotExist, fs)
     else if fs_children q fs \<noteq> [] then (Inl (Msg ''directory not empty''), fs)
     else (Inr (), fs\<lparr>fs_nodes := mdel q (fs_nodes fs)\<rparr>))"

text \<open>\<^verbatim>\<open>RemoveAll\<close> of a path that leads nowhere is no error.\<close>

definition FS_RemoveAll :: "bytes \<Rightarrow> filesystem \<Rightarrow> (go_error + unit) \<times> filesystem" where
  "FS_RemoveAll p = fs_call (\<lambda>fs.
     (case fs_resolve False p fs of
        Inl e \<Rightarrow> (if e = NotExist then Inr () else Inl e, fs)
      | Inr q \<Rightarrow>
          if q = [] then (Inl (Msg ''device or resource busy''), fs)
          else (Inr (), fs\<lparr>fs_nodes := filter (\<lambda>e. \<not> below q (fst e)) (fs_nodes fs)\<rparr>)))"

text \<open>
  \<^verbatim>\<open>Rename\<close>: Go refuses a target that is a directory; the system refuses to put a directory over a
  file or into itself.  Everything below moves along.
\<close>

definition FS_Rename :: "bytes \<Rightarrow> bytes \<Rightarrow> filesystem \<Rightarrow> (go_error + unit) \<times> filesystem" where
  "FS_Rename oldpath newpath = fs_at False oldpath (\<lambda>q fs.
     (case (if q = [] then None else fs_get fs q) of
        None \<Rightarrow> (Inl NotExist, fs)
      | Some v \<Rightarrow>
          (case fs_resolve False newpath fs of
             Inl e \<Rightarrow> (Inl e, fs)
           | Inr r \<Rightarrow>
               if r = [] \<or> is_dir (fs_get fs r) then (Inl (Msg ''file exists''), fs)
               else if r = q then (Inr (), fs)
               else if is_dir (Some v) \<and> fs_get fs r \<noteq> None then (Inl (Msg ''not a directory''), fs)
               else if below q r then (Inl (Msg ''invalid argument''), fs)
               else (Inr (), fs\<lparr>fs_nodes :=
                 map (\<lambda>e. if below q (fst e) then (r @ drop (length q) (fst e), snd e) else e)
                   (mdel r (fs_nodes fs))\<rparr>))))"

definition FS_ReadFile :: "bytes \<Rightarrow> filesystem \<Rightarrow> (go_error + bytes) \<times> filesystem" where
  "FS_ReadFile p = fs_at True p (\<lambda>q fs.
     (case fs_get fs q of
        Some (Reg b t) \<Rightarrow> (Inr b, fs)
      | Some _ \<Rightarrow> (Inl (Msg ''is a directory''), fs)
      | None \<Rightarrow> (Inl NotExist, fs)))"

text \<open>\<^verbatim>\<open>os.OpenFile\<close> for writing with \<^verbatim>\<open>O_CREATE\<close>, with \<^verbatim>\<open>O_TRUNC\<close> or without: the location written to.\<close>

definition FS_OpenWrite :: "bool \<Rightarrow> bytes \<Rightarrow> filesystem \<Rightarrow> (go_error + bytes list) \<times> filesystem" where
  "FS_OpenWrite trunc p = fs_at True p (\<lambda>q fs.
     (case fs_get fs q of
        Some (Reg b t) \<Rightarrow> (Inr q, if trunc then fs_put q (Reg [] (fs_now fs)) fs else fs)
      | None \<Rightarrow> if q = [] then (Inl (Msg ''is a directory''), fs) else (Inr q, fs_put q (Reg [] (fs_now fs)) fs)
      | Some _ \<Rightarrow> (Inl (Msg ''is a directory''), fs)))"

text \<open>
  Writing to an open file, at its end or over its start: a refused write leaves the file as it is.
\<close>

definition FS_Append :: "bytes list \<Rightarrow> bytes \<Rightarrow> filesystem \<Rightarrow> (go_error + unit) \<times> filesystem" where
  "FS_Append q b = fs_call (\<lambda>fs.
     (case fs_get fs q of
        Some (Reg c t) \<Rightarrow> (Inr (), fs_put q (Reg (c @ b) (fs_now fs)) fs)
      | _ \<Rightarrow> (Inr (), fs)))"

definition FS_Overwrite :: "bytes list \<Rightarrow> bytes \<Rightarrow> filesystem \<Rightarrow> (go_error + unit) \<times> filesystem" where
  "FS_Overwrite q b = fs_call (\<lambda>fs.
     (case fs_get fs q of
        Some (Reg c t) \<Rightarrow> (Inr (), fs_put q (Reg (b @ drop (length b) c) (fs_now fs)) fs)
      | _ \<Rightarrow> (Inr (), fs)))"

definition FS_Readlink :: "bytes \<Rightarrow> filesystem \<Rightarrow> (go_error + bytes) \<times> filesystem" where
  "FS_Readlink p = fs_at False p (\<lambda>q fs.
     (case fs_get fs q of
        Some (Link t) \<Rightarrow> (Inr t, fs)
      | Some _ \<Rightarrow> (Inl (Msg ''invalid argument''), fs)
      | None \<Rightarrow> (Inl NotExist, fs)))"

text \<open>\<^verbatim>\<open>os.ReadDir\<close>: the names in order.\<close>

definition FS_ReadDir :: "bytes \<Rightarrow> filesystem \<Rightarrow> (go_error + bytes list) \<times> filesystem" where
  "FS_ReadDir p = fs_at True p (\<lambda>q fs.
     (case (if q = [] then Some (Dir (fs_now fs)) else fs_get fs q) of
        Some (Dir t) \<Rightarrow> (Inr (fs_children q fs), fs)
      | Some _ \<Rightarrow> (Inl (Msg ''not a directory''), fs)
      | None \<Rightarrow> (Inl NotExist, fs)))"

text \<open>
  \<^verbatim>\<open>filepath.Walk\<close>: what it visits, with the sizes and names; links are not followed.  The callbacks
  of this program stop at the first error and do not depend on the order.
\<close>

definition FS_Walk :: "bytes \<Rightarrow> filesystem \<Rightarrow> (go_error + FileInfo list) \<times> filesystem" where
  "FS_Walk p = fs_at False p (\<lambda>q fs.
     (case (if q = [] then Some (Dir (fs_now fs)) else fs_get fs q) of
        None \<Rightarrow> (Inl NotExist, fs)
      | Some v \<Rightarrow>
          (Inr (node_info fs q (filepath_Base p) v #
             map (\<lambda>(l, w). node_info fs l (last l) w) (filter (\<lambda>e. fst e \<noteq> q) (fs_tree q fs))), fs)))"


text \<open>\<^verbatim>\<open>Stat\<close> follows links to their end.\<close>

lemma FS_Stat_mode: "FS_Stat p fs = (Inr info, fs') \<Longrightarrow> nf_Mode info \<noteq> ModeSymlink"
  by (auto simp: FS_Stat_def stat_at_def fs_at_def fs_call_def node_info_def is_dir_def dest!: resolve_end real_dir_is_dir
      split: option.splits sum.splits node.splits if_splits)

end
