(* ===== verification/HL_Files.thy ===== *)
theory HL_Files
  imports HL_File_Store
begin

text \<open>
  Hotline files on the file system: \<^verbatim>\<open>hotline/file_wrapper.go\<close>, \<^verbatim>\<open>hotline/files.go\<close> and the time format of
  \<^verbatim>\<open>hotline/time.go\<close>.
\<close>

section \<open>Hotline times\<close>

text \<open>
  A time is a number of nanoseconds, a Hotline time eight bytes.  The calendar of the standard library is a
  parameter: \<open>ca_year\<close>, and \<open>ca_new_year y\<close> for the local midnight that starts the year \<open>y\<close>.  \<^verbatim>\<open>Seconds\<close> is a
  floating point number cut to an integer: the model divides exactly (the two differ only in the last
  nanosecond of a second).
\<close>

record calendar =
  ca_year :: "time \<Rightarrow> int"
  ca_new_year :: "int \<Rightarrow> time"
  ca_format :: "time \<Rightarrow> bytes \<Rightarrow> bytes"

definition NewTime :: "calendar \<Rightarrow> time \<Rightarrow> 64 word" where
  "NewTime ca t = be_word (be16 (word_of_int (ca_year ca t)) @ [0, 0] @
     be32 (word_of_int ((t - ca_new_year ca (ca_year ca t)) div 1000000000)))"

definition Time_Time :: "calendar \<Rightarrow> 64 word \<Rightarrow> time" where
  "Time_Time ca b =
     ca_new_year ca (uint (be_word (take 2 (be64 b)) :: 16 word)) + uint (be_word (drop 4 (be64 b)) :: 32 word) * 1000000000"

definition Time_Format :: "calendar \<Rightarrow> bytes \<Rightarrow> 64 word \<Rightarrow> bytes" where
  "Time_Format ca layout b = ca_format ca (Time_Time ca b) layout"

section \<open>A file and its forks\<close>

definition IncompleteFileSuffix :: bytes where "IncompleteFileSuffix = go_str ''.incomplete''"
definition InfoForkName :: "bytes \<Rightarrow> bytes" where "InfoForkName name = go_str ''.info_'' @ name"
definition RsrcForkName :: "bytes \<Rightarrow> bytes" where "RsrcForkName name = go_str ''.rsrc_'' @ name"

record File =
  fl_Name :: bytes
  fl_path :: bytes
  fl_dataPath :: bytes
  fl_dataOffset :: nat
  fl_rsrcPath :: bytes
  fl_infoPath :: bytes
  fl_incompletePath :: bytes
  fl_Ffo :: flattenedFileObject

definition fileTypeFromInfo :: "FileInfo \<Rightarrow> fileType" where
  "fileTypeFromInfo info =
     (if nf_Mode info = ModeDir then \<lparr>TypeCode = go_str ''fldr'', CreatorCode = go_str ''n/a ''\<rparr>
      else FileTypeFromFilename (nf_Name info))"

definition file_rsrcForkSize :: "File \<Rightarrow> filesystem \<Rightarrow> 32 word \<times> filesystem" where
  "file_rsrcForkSize f fs =
     (case FS_Stat (fl_rsrcPath f) fs of
        (Inl e, fs1) \<Rightarrow> (0, fs1)
      | (Inr info, fs1) \<Rightarrow> (u32 (nf_Size info), fs1))"

definition file_rsrcForkHeader :: "File \<Rightarrow> filesystem \<Rightarrow> FlatFileForkHeader \<times> filesystem" where
  "file_rsrcForkHeader f fs =
     (case file_rsrcForkSize f fs of (n, fs1) \<Rightarrow>
        (zero_fork_header\<lparr>ff_ForkType := ForkTypeMACR, ff_DataSize := n\<rparr>, fs1))"

text \<open>What the flattened object needs from \<^verbatim>\<open>Stat\<close>: time, size less the offset, and type.\<close>

definition data_info :: "calendar \<Rightarrow> nat \<Rightarrow> FileInfo \<Rightarrow> 64 word \<times> 32 word \<times> fileType" where
  "data_info ca off info =
     (NewTime ca (nf_ModTime info), word_of_int (int (nf_Size info) - int off), fileTypeFromInfo info)"

definition file_data_info :: "calendar \<Rightarrow> File \<Rightarrow> filesystem \<Rightarrow> (go_error + 64 word \<times> 32 word \<times> fileType) \<times> filesystem" where
  "file_data_info ca f fs =
     (case FS_Stat (fl_dataPath f) fs of
        (Inr info, fs1) \<Rightarrow> (Inr (data_info ca (fl_dataOffset f) info), fs1)
      | (Inl e, fs1) \<Rightarrow>
          if e \<noteq> NotExist then (Inl e, fs1)
          else
            (case FS_Stat (fl_incompletePath f) fs1 of
               (Inr info, fs2) \<Rightarrow> (Inr (data_info ca (fl_dataOffset f) info), fs2)
             | (Inl e, fs2) \<Rightarrow> (Inr (0, 0, defaultFileType), fs2)))"

definition new_info_fork :: "bytes \<Rightarrow> 64 word \<Rightarrow> fileType \<Rightarrow> FlatFileInformationFork" where
  "new_info_fork name mTime ft =
     zero_info_fork\<lparr>if_Platform := PlatformAMAC, if_TypeSignature := be_word (take 4 (TypeCode ft)),
       if_CreatorSignature := be_word (take 4 (CreatorCode ft)), if_PlatformFlags := 0x100,
       if_CreateDate := mTime, if_ModifyDate := mTime, if_Name := name, if_NameSize := u16 (length name)\<rparr>"

text \<open>
  The information fork: parsed from its own file if there is one, else made up.  Parsing a file that
  is too short panics.
\<close>

definition file_info_fork :: "bytes \<Rightarrow> bytes \<Rightarrow> 64 word \<Rightarrow> fileType \<Rightarrow> filesystem \<Rightarrow>
    (16 word \<times> FlatFileInformationFork) outcome \<times> filesystem" where
  "file_info_fork infoPath name mTime ft fs =
     (case FS_Stat infoPath fs of
        (Inl e, fs1) \<Rightarrow> (Ok (2, new_info_fork name mTime ft), fs1)
      | (Inr i, fs1) \<Rightarrow>
          (case FS_ReadFile infoPath fs1 of
             (Inl e, fs2) \<Rightarrow> (Err e, fs2)
           | (Inr b, fs2) \<Rightarrow>
               (obind (if b = [] then Ok zero_info_fork else ffif_Write zero_info_fork b) (\<lambda>i. Ok (3, i)), fs2)))"

definition file_flattenedFileObject :: "calendar \<Rightarrow> File \<Rightarrow> filesystem \<Rightarrow> flattenedFileObject outcome \<times> filesystem" where
  "file_flattenedFileObject ca f fs =
     (case file_data_info ca f fs of
        (Inl e, fs1) \<Rightarrow> (Err e, fs1)
      | (Inr (mTime, dataSize, ft), fs1) \<Rightarrow>
          (case file_info_fork (fl_infoPath f) (fl_Name f) mTime ft fs1 of
             (Panic, fs2) \<Rightarrow> (Panic, fs2)
           | (Err e, fs2) \<Rightarrow> (Err e, fs2)
           | (Ok (forks, info), fs2) \<Rightarrow>
               (case file_rsrcForkHeader f fs2 of (rh, fs3) \<Rightarrow>
                  (Ok \<lparr>fo_Header = \<lparr>fh_Format = FormatFILP, fh_Version = 1, fh_RSVD = 0, fh_ForkCount = forks\<rparr>,
                       fo_InfoForkHeader = zero_fork_header\<lparr>ff_ForkType := ForkTypeINFO, ff_DataSize := ffif_Size info\<rparr>,
                       fo_InfoFork = info,
                       fo_DataForkHeader = zero_fork_header\<lparr>ff_ForkType := ForkTypeDATA, ff_DataSize := dataSize\<rparr>,
                       fo_ResForkHeader = rh\<rparr>, fs3))))"

definition NewFile :: "calendar \<Rightarrow> bytes \<Rightarrow> nat \<Rightarrow> filesystem \<Rightarrow> File outcome \<times> filesystem" where
  "NewFile ca path dataOffset fs =
     (let dir = filepath_Dir path; fName = filepath_Base path;
          f = \<lparr>fl_Name = fName, fl_path = dir, fl_dataPath = path, fl_dataOffset = dataOffset,
               fl_rsrcPath = path_Join [dir, RsrcForkName fName], fl_infoPath = path_Join [dir, InfoForkName fName],
               fl_incompletePath = path_Join [dir, fName @ IncompleteFileSuffix], fl_Ffo = zero_ffo\<rparr>
      in (case file_flattenedFileObject ca f fs of
            (r, fs1) \<Rightarrow> (obind r (\<lambda>ffo. Ok (f\<lparr>fl_Ffo := ffo\<rparr>)), fs1)))"

definition file_TotalSize :: "File \<Rightarrow> filesystem \<Rightarrow> 32 word \<times> filesystem" where
  "file_TotalSize f fs =
     (case FS_Stat (fl_dataPath f) fs of (r, fs1) \<Rightarrow>
        let s = (case r of Inr info \<Rightarrow> int (nf_Size info) - int (fl_dataOffset f) | Inl e \<Rightarrow> 0) in
        (case FS_Stat (fl_rsrcPath f) fs1 of
           (Inr info, fs2) \<Rightarrow> (word_of_int (s + int (nf_Size info)), fs2)
         | (Inl e, fs2) \<Rightarrow> (word_of_int s, fs2)))"

definition file_incompleteDataName :: "File \<Rightarrow> bytes" where
  "file_incompleteDataName f = fl_Name f @ IncompleteFileSuffix"

definition file_rsrcForkName :: "File \<Rightarrow> bytes" where
  "file_rsrcForkName f = RsrcForkName (fl_Name f)"

definition file_infoForkName :: "File \<Rightarrow> bytes" where
  "file_infoForkName f = InfoForkName (fl_Name f)"

text \<open>The writers: the resource fork is neither truncated nor appended to, so writing starts over it.\<close>

definition file_InfoForkWriter :: "File \<Rightarrow> filesystem \<Rightarrow> (go_error + bytes list) \<times> filesystem" where
  "file_InfoForkWriter f = FS_OpenWrite True (fl_infoPath f)"

definition file_incFileWriter :: "File \<Rightarrow> filesystem \<Rightarrow> (go_error + bytes list) \<times> filesystem" where
  "file_incFileWriter f = FS_OpenWrite False (fl_incompletePath f)"

definition file_rsrcForkWriter :: "File \<Rightarrow> filesystem \<Rightarrow> (go_error + bytes list) \<times> filesystem" where
  "file_rsrcForkWriter f = FS_OpenWrite False (fl_rsrcPath f)"

definition file_DataFile :: "File \<Rightarrow> filesystem \<Rightarrow> (go_error + FileInfo) \<times> filesystem" where
  "file_DataFile f fs =
     (case FS_Stat (fl_dataPath f) fs of
        (Inr fi, fs1) \<Rightarrow> (Inr fi, fs1)
      | (Inl e, fs1) \<Rightarrow>
          (case FS_Stat (fl_incompletePath f) fs1 of
             (Inr fi, fs2) \<Rightarrow> (Inr fi, fs2)
           | (Inl e, fs2) \<Rightarrow> (Inl (Msg ''file or directory not found''), fs2)))"

section \<open>Moving and deleting\<close>

text \<open>
  A list of calls, of which the first must succeed and the others may fail with \<^verbatim>\<open>ErrNotExist\<close>; it stops
  at the first failure.
\<close>

fun meta_calls :: "(filesystem \<Rightarrow> (go_error + unit) \<times> filesystem) list \<Rightarrow> filesystem \<Rightarrow> go_error option \<times> filesystem" where
  "meta_calls [] fs = (None, fs)"
| "meta_calls (f # fs') fs =
     (case f fs of
        (Inl e, fs1) \<Rightarrow> if e \<noteq> NotExist then (Some e, fs1) else meta_calls fs' fs1
      | (Inr u, fs1) \<Rightarrow> meta_calls fs' fs1)"

definition first_then_meta :: "(filesystem \<Rightarrow> (go_error + unit) \<times> filesystem) \<Rightarrow>
    (filesystem \<Rightarrow> (go_error + unit) \<times> filesystem) list \<Rightarrow> filesystem \<Rightarrow> go_error option \<times> filesystem" where
  "first_then_meta f fs' fs =
     (case f fs of (Inl e, fs1) \<Rightarrow> (Some e, fs1) | (Inr u, fs1) \<Rightarrow> meta_calls fs' fs1)"

definition file_Move :: "bytes \<Rightarrow> File \<Rightarrow> filesystem \<Rightarrow> go_error option \<times> filesystem" where
  "file_Move newPath f =
     first_then_meta (FS_Rename (fl_dataPath f) (path_Join [newPath, fl_Name f]))
       [FS_Rename (fl_incompletePath f) (path_Join [newPath, file_incompleteDataName f]),
        FS_Rename (fl_rsrcPath f) (path_Join [newPath, file_rsrcForkName f]),
        FS_Rename (fl_infoPath f) (path_Join [newPath, file_infoForkName f])]"

definition file_Delete :: "File \<Rightarrow> filesystem \<Rightarrow> go_error option \<times> filesystem" where
  "file_Delete f =
     first_then_meta (FS_RemoveAll (fl_dataPath f))
       [FS_Remove (fl_incompletePath f), FS_Remove (fl_rsrcPath f), FS_Remove (fl_infoPath f)]"

section \<open>Listing a folder\<close>

text \<open>\<open>re\<close> is \<^verbatim>\<open>regexp.MatchString\<close>, false for a pattern that does not compile.\<close>

definition ignoreFile :: "(bytes \<Rightarrow> bytes \<Rightarrow> bool) \<Rightarrow> bytes list \<Rightarrow> bytes \<Rightarrow> bool" where
  "ignoreFile re ignoreList fileName \<longleftrightarrow> 0 < length (filter (\<lambda>pattern. re pattern fileName) ignoreList)"

abbreviation (input) maxFileSize :: nat where "maxFileSize \<equiv> 4294967296"

definition sig4 :: "bytes \<Rightarrow> 32 word" where
  "sig4 code = be_word (copy_into [0, 0, 0, 0] code)"

text \<open>Size, type and creator of an entry; \<open>Ok None\<close> skips it.\<close>

definition folder_entry :: "bytes \<Rightarrow> (bytes \<Rightarrow> bool) \<Rightarrow> filesystem \<Rightarrow> (32 word \<times> 32 word \<times> 32 word) option outcome \<times> filesystem" where
  "folder_entry path ignore fs =
     (case FS_ReadDir path fs of
        (Inl e, fs1) \<Rightarrow> (Err e, fs1)
      | (Inr names, fs1) \<Rightarrow> (Ok (Some (u32 (length (filter (\<lambda>n. \<not> ignore n) names)), sig4 (go_str ''fldr''), 0)), fs1))"

text \<open>A link is followed by a \<^verbatim>\<open>Stat\<close> of the text in it.\<close>

definition link_entry :: "bytes \<Rightarrow> (bytes \<Rightarrow> bool) \<Rightarrow> filesystem \<Rightarrow> (32 word \<times> 32 word \<times> 32 word) option outcome \<times> filesystem" where
  "link_entry path ignore fs =
     (case FS_Readlink path fs of
        (Inl e, fs1) \<Rightarrow> (Err e, fs1)
      | (Inr resolvedPath, fs1) \<Rightarrow>
          (case FS_Stat resolvedPath fs1 of
             (Inl e, fs2) \<Rightarrow> (if e = NotExist then Ok None else Err e, fs2)
           | (Inr r, fs2) \<Rightarrow>
               if nf_Mode r = ModeDir then folder_entry path ignore fs2
               else (Ok (Some (u32 (nf_Size r), sig4 (TypeCode (FileTypeFromFilename (nf_Name r))),
                       sig4 (CreatorCode (FileTypeFromFilename (nf_Name r))))), fs2)))"

definition file_entry :: "calendar \<Rightarrow> bytes \<Rightarrow> filesystem \<Rightarrow> (32 word \<times> 32 word \<times> 32 word) option outcome \<times> filesystem" where
  "file_entry ca path fs =
     (case NewFile ca path 0 fs of
        (Panic, fs1) \<Rightarrow> (Panic, fs1)
      | (Err e, fs1) \<Rightarrow> (Err e, fs1)
      | (Ok f, fs1) \<Rightarrow>
          (case file_TotalSize f fs1 of (n, fs2) \<Rightarrow>
             (Ok (Some (n, if_TypeSignature (fo_InfoFork (fl_Ffo f)), if_CreatorSignature (fo_InfoFork (fl_Ffo f)))), fs2)))"

definition dir_entry :: "calendar \<Rightarrow> bytes \<Rightarrow> bytes \<Rightarrow> (bytes \<Rightarrow> bool) \<Rightarrow> filesystem \<Rightarrow>
    (32 word \<times> 32 word \<times> 32 word) option outcome \<times> filesystem" where
  "dir_entry ca path name ignore fs =
     (let full = path_Join [path, name] in
      case FS_Lstat full fs of
        (Inl e, fs1) \<Rightarrow> (Err e, fs1)
      | (Inr info, fs1) \<Rightarrow>
          (case nf_Mode info of
             ModeSymlink \<Rightarrow> link_entry full ignore fs1
           | ModeDir \<Rightarrow> folder_entry full ignore fs1
           | ModeRegular \<Rightarrow>
               if maxFileSize < nf_Size info then (Ok None, fs1)
               else file_entry ca (path @ slash # name) fs1))"

definition name_with_info :: "bytes \<Rightarrow> 32 word \<Rightarrow> 32 word \<Rightarrow> 32 word \<Rightarrow> FileNameWithInfo" where
  "name_with_info name fileSize type creator =
     \<lparr>fn_Type = type, fn_Creator = creator, fn_FileSize = fileSize, fn_RSVD = 0, fn_NameScript = 0,
      fn_NameSize = u16 (length name), fn_Name = name\<rparr>"

fun list_entries :: "calendar \<Rightarrow> (bytes \<Rightarrow> bytes option) \<Rightarrow> bytes \<Rightarrow> (bytes \<Rightarrow> bool) \<Rightarrow> bytes list \<Rightarrow> filesystem \<Rightarrow>
    hl_field list outcome \<times> filesystem" where
  "list_entries ca encoder path ignore [] fs = (Ok [], fs)"
| "list_entries ca encoder path ignore (n # ns) fs =
     (if ignore n then list_entries ca encoder path ignore ns fs
      else
        (case dir_entry ca path n ignore fs of
           (Panic, fs1) \<Rightarrow> (Panic, fs1)
         | (Err e, fs1) \<Rightarrow> (Err e, fs1)
         | (Ok None, fs1) \<Rightarrow> list_entries ca encoder path ignore ns fs1
         | (Ok (Some (fileSize, type, creator)), fs1) \<Rightarrow>
             (case encoder (ReplaceAll IncompleteFileSuffix [] n) of
                None \<Rightarrow> list_entries ca encoder path ignore ns fs1
              | Some name \<Rightarrow>
                  (case list_entries ca encoder path ignore ns fs1 of (r, fs2) \<Rightarrow>
                     (obind r (\<lambda>fields. Ok (NewField FieldFileNameWithInfo
                        (FileNameWithInfo_bytes (name_with_info name fileSize type creator)) # fields)), fs2)))))"

definition GetFileNameList :: "calendar \<Rightarrow> (bytes \<Rightarrow> bytes \<Rightarrow> bool) \<Rightarrow> (bytes \<Rightarrow> bytes option) \<Rightarrow> bytes \<Rightarrow> bytes list \<Rightarrow>
    filesystem \<Rightarrow> hl_field list outcome \<times> filesystem" where
  "GetFileNameList ca re encoder path ignoreList fs =
     (case FS_ReadDir path fs of
        (Inl e, fs1) \<Rightarrow> (Err e, fs1)
      | (Inr names, fs1) \<Rightarrow> list_entries ca encoder path (ignoreFile re ignoreList) names fs1)"

section \<open>Sizes of folders\<close>

definition CalcTotalSize :: "bytes \<Rightarrow> filesystem \<Rightarrow> (go_error + 32 word) \<times> filesystem" where
  "CalcTotalSize filePath fs =
     (case FS_Walk filePath fs of
        (Inl e, fs1) \<Rightarrow> (Inl e, fs1)
      | (Inr infos, fs1) \<Rightarrow>
          (Inr (fold (\<lambda>i n. if nf_Mode i = ModeDir then n else n + u32 (nf_Size i)) infos 0), fs1))"

definition hidden :: "bytes \<Rightarrow> bool" where
  "hidden name \<longleftrightarrow> take 1 name = [46]"

definition CalcItemCount :: "bytes \<Rightarrow> filesystem \<Rightarrow> (go_error + 16 word) \<times> filesystem" where
  "CalcItemCount filePath fs =
     (case FS_Walk filePath fs of
        (Inl e, fs1) \<Rightarrow> (Inl e, fs1)
      | (Inr infos, fs1) \<Rightarrow> (Inr (fold (\<lambda>i n. if hidden (nf_Name i) then n else n + 1) infos 0 - 1), fs1))"

end
