(* ===== verification/HL_Transactions.thy ===== *)
theory HL_Transactions
  imports HL_Fields
begin

text \<open>
  \<^verbatim>\<open>hotline/transaction.go\<close>: transactions, their serialisation (\<^verbatim>\<open>Read\<close>), their parsing (\<^verbatim>\<open>Write\<close>)
  and the split function that cuts a connection's byte stream into transactions.
\<close>

section \<open>Transaction types\<close>

type_synonym TranType = "16 word"

abbreviation (input) TranError :: TranType where "TranError \<equiv> 0"
abbreviation (input) TranGetMsgs :: TranType where "TranGetMsgs \<equiv> 101"
abbreviation (input) TranNewMsg :: TranType where "TranNewMsg \<equiv> 102"
abbreviation (input) TranOldPostNews :: TranType where "TranOldPostNews \<equiv> 103"
abbreviation (input) TranServerMsg :: TranType where "TranServerMsg \<equiv> 104"
abbreviation (input) TranChatSend :: TranType where "TranChatSend \<equiv> 105"
abbreviation (input) TranChatMsg :: TranType where "TranChatMsg \<equiv> 106"
abbreviation (input) TranLogin :: TranType where "TranLogin \<equiv> 107"
abbreviation (input) TranSendInstantMsg :: TranType where "TranSendInstantMsg \<equiv> 108"
abbreviation (input) TranShowAgreement :: TranType where "TranShowAgreement \<equiv> 109"
abbreviation (input) TranDisconnectUser :: TranType where "TranDisconnectUser \<equiv> 110"
abbreviation (input) TranDisconnectMsg :: TranType where "TranDisconnectMsg \<equiv> 111"
abbreviation (input) TranInviteNewChat :: TranType where "TranInviteNewChat \<equiv> 112"
abbreviation (input) TranInviteToChat :: TranType where "TranInviteToChat \<equiv> 113"
abbreviation (input) TranRejectChatInvite :: TranType where "TranRejectChatInvite \<equiv> 114"
abbreviation (input) TranJoinChat :: TranType where "TranJoinChat \<equiv> 115"
abbreviation (input) TranLeaveChat :: TranType where "TranLeaveChat \<equiv> 116"
abbreviation (input) TranNotifyChatChangeUser :: TranType where "TranNotifyChatChangeUser \<equiv> 117"
abbreviation (input) TranNotifyChatDeleteUser :: TranType where "TranNotifyChatDeleteUser \<equiv> 118"
abbreviation (input) TranNotifyChatSubject :: TranType where "TranNotifyChatSubject \<equiv> 119"
abbreviation (input) TranSetChatSubject :: TranType where "TranSetChatSubject \<equiv> 120"
abbreviation (input) TranAgreed :: TranType where "TranAgreed \<equiv> 121"
abbreviation (input) TranServerBanner :: TranType where "TranServerBanner \<equiv> 122"
abbreviation (input) TranGetFileNameList :: TranType where "TranGetFileNameList \<equiv> 200"
abbreviation (input) TranDownloadFile :: TranType where "TranDownloadFile \<equiv> 202"
abbreviation (input) TranUploadFile :: TranType where "TranUploadFile \<equiv> 203"
abbreviation (input) TranNewFolder :: TranType where "TranNewFolder \<equiv> 205"
abbreviation (input) TranDeleteFile :: TranType where "TranDeleteFile \<equiv> 204"
abbreviation (input) TranGetFileInfo :: TranType where "TranGetFileInfo \<equiv> 206"
abbreviation (input) TranSetFileInfo :: TranType where "TranSetFileInfo \<equiv> 207"
abbreviation (input) TranMoveFile :: TranType where "TranMoveFile \<equiv> 208"
abbreviation (input) TranMakeFileAlias :: TranType where "TranMakeFileAlias \<equiv> 209"
abbreviation (input) TranDownloadFldr :: TranType where "TranDownloadFldr \<equiv> 210"
abbreviation (input) TranDownloadInfo :: TranType where "TranDownloadInfo \<equiv> 211"
abbreviation (input) TranDownloadBanner :: TranType where "TranDownloadBanner \<equiv> 212"
abbreviation (input) TranUploadFldr :: TranType where "TranUploadFldr \<equiv> 213"
abbreviation (input) TranGetUserNameList :: TranType where "TranGetUserNameList \<equiv> 300"
abbreviation (input) TranNotifyChangeUser :: TranType where "TranNotifyChangeUser \<equiv> 301"
abbreviation (input) TranNotifyDeleteUser :: TranType where "TranNotifyDeleteUser \<equiv> 302"
abbreviation (input) TranGetClientInfoText :: TranType where "TranGetClientInfoText \<equiv> 303"
abbreviation (input) TranSetClientUserInfo :: TranType where "TranSetClientUserInfo \<equiv> 304"
abbreviation (input) TranListUsers :: TranType where "TranListUsers \<equiv> 348"
abbreviation (input) TranUpdateUser :: TranType where "TranUpdateUser \<equiv> 349"
abbreviation (input) TranNewUser :: TranType where "TranNewUser \<equiv> 350"
abbreviation (input) TranDeleteUser :: TranType where "TranDeleteUser \<equiv> 351"
abbreviation (input) TranGetUser :: TranType where "TranGetUser \<equiv> 352"
abbreviation (input) TranSetUser :: TranType where "TranSetUser \<equiv> 353"
abbreviation (input) TranUserAccess :: TranType where "TranUserAccess \<equiv> 354"
abbreviation (input) TranUserBroadcast :: TranType where "TranUserBroadcast \<equiv> 355"
abbreviation (input) TranGetNewsCatNameList :: TranType where "TranGetNewsCatNameList \<equiv> 370"
abbreviation (input) TranGetNewsArtNameList :: TranType where "TranGetNewsArtNameList \<equiv> 371"
abbreviation (input) TranDelNewsItem :: TranType where "TranDelNewsItem \<equiv> 380"
abbreviation (input) TranNewNewsFldr :: TranType where "TranNewNewsFldr \<equiv> 381"
abbreviation (input) TranNewNewsCat :: TranType where "TranNewNewsCat \<equiv> 382"
abbreviation (input) TranGetNewsArtData :: TranType where "TranGetNewsArtData \<equiv> 400"
abbreviation (input) TranPostNewsArt :: TranType where "TranPostNewsArt \<equiv> 410"
abbreviation (input) TranDelNewsArt :: TranType where "TranDelNewsArt \<equiv> 411"
abbreviation (input) TranKeepAlive :: TranType where "TranKeepAlive \<equiv> 500"

text \<open>The names of the transaction types, for the logs of server and client.\<close>

definition tranTypeNames :: "(TranType \<times> string) list" where
  "tranTypeNames =
    [(TranServerMsg, ''Server Message''), (TranChatMsg, ''Receive chat''),
     (TranNotifyChangeUser, ''User change''), (TranError, ''Error''), (TranShowAgreement, ''Show agreement''),
     (TranUserAccess, ''User access''), (TranNotifyDeleteUser, ''User left''),
     (TranAgreed, ''Accept agreement''), (TranLogin, ''Log In''), (TranChatSend, ''Send chat''),
     (TranDelNewsArt, ''Delete news article''), (TranDelNewsItem, ''Delete news item''),
     (TranDeleteFile, ''Delete file''), (TranDeleteUser, ''Delete user''),
     (TranDisconnectUser, ''Disconnect user''), (TranDownloadFile, ''Download file''),
     (TranDownloadFldr, ''Download folder''), (TranGetClientInfoText, ''Get client info''),
     (TranGetFileInfo, ''Get file info''), (TranGetFileNameList, ''Get file list''),
     (TranGetMsgs, ''Get messages''), (TranGetNewsArtData, ''Get news article''),
     (TranGetNewsArtNameList, ''Get news article list''), (TranGetNewsCatNameList, ''Get news categories''),
     (TranGetUser, ''Get user''), (TranGetUserNameList, ''Get user list''),
     (TranInviteNewChat, ''Invite to new chat''), (TranInviteToChat, ''Invite to chat''),
     (TranJoinChat, ''Join chat''), (TranKeepAlive, ''Keepalive''), (TranLeaveChat, ''Leave chat''),
     (TranListUsers, ''List user accounts''), (TranMoveFile, ''Move file''), (TranNewFolder, ''Create folder''),
     (TranNewNewsCat, ''Create news category''), (TranNewNewsFldr, ''Create news bundle''),
     (TranNewUser, ''Create user account''), (TranUpdateUser, ''Update user account''),
     (TranOldPostNews, ''Post to message board''), (TranPostNewsArt, ''Create news article''),
     (TranRejectChatInvite, ''Decline chat invite''), (TranSendInstantMsg, ''Send message''),
     (TranSetChatSubject, ''Set chat subject''), (TranMakeFileAlias, ''Make file alias''),
     (TranSetClientUserInfo, ''Set client user info''), (TranSetFileInfo, ''Set file info''),
     (TranSetUser, ''Set user''), (TranUploadFile, ''Upload file''), (TranUploadFldr, ''Upload folder''),
     (TranUserBroadcast, ''Send broadcast''), (TranDownloadBanner, ''Download banner'')]"


section \<open>Transactions\<close>

record transaction =
  tr_Flags :: byte
  tr_IsReply :: byte
  tr_Type :: TranType
  tr_ID :: "32 word"
  tr_ErrorCode :: "32 word"
  tr_TotalSize :: "32 word"
  tr_DataSize :: "32 word"
  tr_ParamCount :: "16 word"
  tr_Fields :: "hl_field list"
  tr_ClientID :: "16 word"

definition zero_tran :: transaction where
  "zero_tran = \<lparr>tr_Flags = 0, tr_IsReply = 0, tr_Type = 0, tr_ID = 0, tr_ErrorCode = 0,
     tr_TotalSize = 0, tr_DataSize = 0, tr_ParamCount = 0, tr_Fields = [], tr_ClientID = 0\<rparr>"

text \<open>\<open>rid\<close> is the result of \<^verbatim>\<open>rand.Uint32()\<close>.\<close>

definition NewTransaction :: "32 word \<Rightarrow> TranType \<Rightarrow> 16 word \<Rightarrow> hl_field list \<Rightarrow> transaction" where
  "NewTransaction rid ty cid fs =
     zero_tran\<lparr>tr_Type := ty, tr_ClientID := cid, tr_Fields := fs, tr_ID := rid\<rparr>"

lemma NewTransaction_sel [simp]:
  "tr_Type (NewTransaction rid ty cid fs) = ty" "tr_ClientID (NewTransaction rid ty cid fs) = cid"
  "tr_Fields (NewTransaction rid ty cid fs) = fs" "tr_ID (NewTransaction rid ty cid fs) = rid"
  "tr_IsReply (NewTransaction rid ty cid fs) = 0" "tr_ErrorCode (NewTransaction rid ty cid fs) = 0"
  by (simp_all add: NewTransaction_def zero_tran_def)

text \<open>\<^verbatim>\<open>t.GetField\<close> returns the zero field, with nil data, where the field is missing.\<close>

definition Tran_GetField :: "FieldType \<Rightarrow> transaction \<Rightarrow> hl_field" where
  "Tran_GetField ty t = (case GetField ty (tr_Fields t) of Some f \<Rightarrow> f | None \<Rightarrow> zero_field)"

abbreviation field_data :: "transaction \<Rightarrow> FieldType \<Rightarrow> slice" where
  "field_data t ty \<equiv> fd_Data (Tran_GetField ty t)"

section \<open>Serialisation\<close>

definition Transaction_Size :: "transaction \<Rightarrow> bytes" where
  "Transaction_Size t = be32 (u32 (sum_list (map (\<lambda>f. length (sl (fd_Data f)) + 4) (tr_Fields t)) + 2))"

definition Transaction_bytes :: "transaction \<Rightarrow> bytes" where
  "Transaction_bytes t =
     [tr_Flags t, tr_IsReply t] @ be16 (tr_Type t) @ be32 (tr_ID t) @ be32 (tr_ErrorCode t) @
     Transaction_Size t @ Transaction_Size t @ be16 (u16 (length (tr_Fields t))) @
     concat (map Field_bytes (tr_Fields t))"

definition Transaction_Read :: "nat \<Rightarrow> nat \<Rightarrow> transaction \<Rightarrow> (bytes \<times> go_error option) \<times> nat" where
  "Transaction_Read n off t = readFrom n off (Transaction_bytes t)"

section \<open>Parsing\<close>

abbreviation (input) tranHeaderLen :: "32 word" where "tranHeaderLen \<equiv> 20"

fun read_fields :: "nat \<Rightarrow> scanner \<Rightarrow> (hl_field list \<times> scanner) outcome" where
  "read_fields 0 s = Ok ([], s)"
| "read_fields (Suc n) s =
     obind (scan FieldScanner s) (\<lambda>(more, s1).
       if \<not> more then Err (Msg ''error scanning field'')
       else obind (Field_Write (scan_bytes s1)) (\<lambda>(_, f).
         obind (read_fields n s1) (\<lambda>(fs, s2). Ok (f # fs, s2))))"

text \<open>
  \<^verbatim>\<open>int(20 + totalSize)\<close> adds in \<^verbatim>\<open>uint32\<close>, so the sum wraps before it becomes an \<^verbatim>\<open>int\<close>; the slice
  expression \<^verbatim>\<open>p[22:tranLen]\<close> panics where \<open>tranLen\<close> is below 22 or beyond the buffer.
\<close>

definition Transaction_Write :: "transaction \<Rightarrow> bytes \<Rightarrow> (nat \<times> transaction) outcome" where
  "Transaction_Write t p =
     (if length p < 22 then Err (Msg ''buffer too small'')
      else
        let totalSize = be_word (take 4 (drop 12 p)) :: 32 word;
            tranLen = unat (20 + totalSize);
            paramCount = be_word (take 2 (drop 20 p)) :: 16 word
        in obind (slice_at p 22 tranLen) (\<lambda>body.
             obind (read_fields (unat paramCount) (NewScanner (bytes_reader body))) (\<lambda>(fs, s).
               case scan_error s of
                 Some e \<Rightarrow> Err e
               | None \<Rightarrow> Ok (length p,
                   t\<lparr>tr_Flags := p ! 0, tr_IsReply := p ! 1, tr_Type := be_word (take 2 (drop 2 p)),
                     tr_ID := be_word (take 4 (drop 4 p)), tr_ErrorCode := be_word (take 4 (drop 8 p)),
                     tr_TotalSize := totalSize, tr_DataSize := be_word (take 4 (drop 16 p)),
                     tr_ParamCount := paramCount, tr_Fields := tr_Fields t @ fs\<rparr>))))"

definition transactionScanner :: split_func where
  "transactionScanner dat cap =
     (if length dat < 16 then Ok (0, None)
      else
        let totalSize = be_word (take 4 (drop 12 dat)) :: 32 word;
            tranLen = unat (tranHeaderLen + totalSize)
        in if length dat < tranLen then Ok (0, None)
           else Ok (tranLen, Some (take tranLen dat)))"

text \<open>
  A connection's loop \<^verbatim>\<open>for scanner.Scan() { t.Write(...) }\<close>, at most \<open>n\<close> rounds of it: the
  transactions read before the stream ends.  A parse error ends the connection.
\<close>

fun read_transactions :: "nat \<Rightarrow> scanner \<Rightarrow> transaction list outcome" where
  "read_transactions 0 s = Ok []"
| "read_transactions (Suc n) s =
     obind (scan transactionScanner s) (\<lambda>(more, s1).
       if \<not> more then Ok []
       else obind (Transaction_Write zero_tran (scan_bytes s1)) (\<lambda>(_, t).
         obind (read_transactions n s1) (\<lambda>ts. Ok (t # ts))))"

section \<open>Frames of a connection\<close>

definition tran_need :: "bytes \<Rightarrow> nat" where
  "tran_need d = unat (tranHeaderLen + (be_word (take 4 (drop 12 d)) :: 32 word))"

definition tran_frame :: "bytes \<Rightarrow> bool" where
  "tran_frame d \<longleftrightarrow> 16 \<le> length d \<and> length d = tran_need d"

lemma transactionScanner_eq: "transactionScanner d cap =
    (if length d < 16 \<or> length d < tran_need d then Ok (0, None)
     else Ok (tran_need d, Some (take (tran_need d) d)))"
  by (simp add: transactionScanner_def tran_need_def Let_def)

lemma tran_need_append: "16 \<le> length x \<Longrightarrow> tran_need (x @ y) = tran_need x"
  by (simp add: tran_need_def)

interpretation tran_scan: stream_frames transactionScanner tran_frame "\<lambda>t. t"
proof unfold_locales
  fix t assume "tran_frame t"
  then show "t \<noteq> []" by (auto simp: tran_frame_def)
next
  fix t r :: bytes and cap
  assume "tran_frame t"
  then show "transactionScanner (t @ r) cap = Ok (length t, Some t)"
    by (auto simp: transactionScanner_eq tran_frame_def tran_need_append)
next
  show "transactionScanner [] cap = Ok (0, None)" for cap by (simp add: transactionScanner_def)
next
  fix x y :: bytes and cap
  assume "tran_frame (x @ y)" "y \<noteq> []"
  then show "transactionScanner x cap = Ok (0, None)"
    by (cases "length x < 16")
      (auto simp: transactionScanner_eq tran_frame_def tran_need_append simp flip: length_greater_0_conv)
qed

interpretation tran_total: total_split transactionScanner
  by unfold_locales (auto simp: transactionScanner_eq)

interpretation field_total: total_split FieldScanner
  by unfold_locales (auto simp: FieldScanner_eq)

section \<open>Round trip\<close>

definition payload_len :: "transaction \<Rightarrow> nat" where
  "payload_len t = sum_list (map (\<lambda>f. length (sl (fd_Data f)) + 4) (tr_Fields t))"

definition wf_tran :: "transaction \<Rightarrow> bool" where
  "wf_tran t \<longleftrightarrow> (\<forall>f \<in> set (tr_Fields t). wf_field f \<and> length (sl (fd_Data f)) \<le> 65532) \<and>
     length (tr_Fields t) < 65536 \<and> 22 + payload_len t < 4294967296"

text \<open>What a transaction becomes on the wire: sizes and count are filled in, the internal target is lost.\<close>

definition wire_form :: "transaction \<Rightarrow> transaction" where
  "wire_form t = t\<lparr>tr_TotalSize := u32 (payload_len t + 2), tr_DataSize := u32 (payload_len t + 2),
     tr_ParamCount := u16 (length (tr_Fields t)), tr_ClientID := 0\<rparr>"

lemma length_fields_bytes:
  "\<forall>f \<in> set fs. wf_field f \<Longrightarrow>
   length (concat (map Field_bytes fs)) = sum_list (map (\<lambda>f. length (sl (fd_Data f)) + 4) fs)"
  by (induction fs) (auto simp: wf_field_length)

lemma Transaction_Size_eq: "Transaction_Size t = be32 (u32 (payload_len t + 2))"
  by (simp add: Transaction_Size_def payload_len_def)

lemma length_Transaction_bytes:
  "wf_tran t \<Longrightarrow> length (Transaction_bytes t) = 22 + payload_len t"
  by (simp add: Transaction_bytes_def Transaction_Size_eq payload_len_def length_fields_bytes wf_tran_def)

lemma tran_frame_bytes: "wf_tran t \<Longrightarrow> tran_frame (Transaction_bytes t)"
proof -
  assume wf: "wf_tran t"
  have "take 4 (drop 12 (Transaction_bytes t)) = Transaction_Size t"
    by (simp add: Transaction_bytes_def Transaction_Size_eq)
  then have "tran_need (Transaction_bytes t) = unat (20 + u32 (payload_len t + 2))"
    by (simp add: tran_need_def Transaction_Size_eq)
  also have "\<dots> = unat (u32 (22 + payload_len t))"
    by (simp add: algebra_simps)
  also have "\<dots> = length (Transaction_bytes t)"
    using wf by (simp add: length_Transaction_bytes wf_tran_def unat_u32 del: of_nat_add)
  finally show ?thesis
    using wf by (simp add: tran_frame_def length_Transaction_bytes)
qed

lemma read_fields_ok:
  assumes "sc_ok s" "pending s = concat (map Field_bytes fs)"
    "\<forall>f \<in> set fs. wf_field f \<and> length (sl (fd_Data f)) \<le> 65532"
  shows "\<exists>s'. read_fields (length fs) s = Ok (fs, s') \<and> scan_error s' = None"
  using assms
proof (induction fs arbitrary: s)
  case Nil
  then show ?case by (auto simp: sc_ok_def scan_error_def)
next
  case (Cons f fs)
  have "field_frame (Field_bytes f)" "length (Field_bytes f) \<le> MaxScanTokenSize"
    using Cons.prems by (auto simp: field_frame_bytes wf_field_length MaxScanTokenSize_def)
  then obtain s1 where s1: "scan FieldScanner s = Ok (True, s1)" "sc_ok s1"
    "scan_bytes s1 = Field_bytes f" "pending s1 = concat (map Field_bytes fs)"
    using field_scan.scan_stream[of s "Field_bytes f" "concat (map Field_bytes fs)"] Cons.prems by auto
  have "Field_Write (Field_bytes f) = Ok (length (Field_bytes f), f)"
    using Field_Write_bytes[of f "[]"] Cons.prems by simp
  with s1 show ?case using Cons.IH[of s1] Cons.prems by auto
qed

lemma Transaction_Write_bytes:
  assumes "wf_tran t"
  shows "Transaction_Write zero_tran (Transaction_bytes t) =
    Ok (length (Transaction_bytes t), wire_form t)"
proof -
  let ?p = "Transaction_bytes t" and ?fs = "tr_Fields t"
  let ?body = "concat (map Field_bytes ?fs)"
  have len: "length ?p = 22 + payload_len t" "length ?body = payload_len t"
    using assms by (auto simp: length_Transaction_bytes wf_tran_def length_fields_bytes payload_len_def)
  have need: "unat (20 + (be_word (take 4 (drop 12 ?p)) :: 32 word)) = length ?p"
    using tran_frame_bytes[OF assms] unfolding tran_frame_def tran_need_def by (elim conjE) (rule sym)
  have parts: "?p ! 0 = tr_Flags t" "?p ! Suc 0 = tr_IsReply t"
    "take 2 (drop 2 ?p) = be16 (tr_Type t)" "take 4 (drop 4 ?p) = be32 (tr_ID t)"
    "take 4 (drop 8 ?p) = be32 (tr_ErrorCode t)" "take 4 (drop 12 ?p) = Transaction_Size t"
    "take 4 (drop 16 ?p) = Transaction_Size t" "take 2 (drop 20 ?p) = be16 (u16 (length ?fs))"
    "drop 22 ?p = ?body"
    by (simp_all add: Transaction_bytes_def Transaction_Size_eq)
  have count: "unat (u16 (length ?fs)) = length ?fs"
    using assms by (simp add: wf_tran_def unat_u16)
  obtain s' where "read_fields (length ?fs) (NewScanner (bytes_reader ?body)) = Ok (?fs, s')"
    "scan_error s' = None"
    using read_fields_ok[of "NewScanner (bytes_reader ?body)" ?fs] assms by (auto simp: wf_tran_def)
  then show ?thesis
    using len need
    by (simp add: Transaction_Write_def Let_def parts count Transaction_Size_eq wire_form_def zero_tran_def)
qed

section \<open>No input makes the parser panic\<close>

lemma read_fields_no_panic: "sc_ok s \<Longrightarrow> read_fields n s \<noteq> Panic"
proof (induction n arbitrary: s)
  case (Suc n)
  obtain more s1 where "scan FieldScanner s = Ok (more, s1)" "more \<longrightarrow> sc_ok s1"
    using field_total.scan_total[OF Suc.prems] by blast
  then show ?case using Suc.IH[of s1]
    by (auto simp: obind_Panic_iff Field_Write_no_panic)
qed simp

lemma Transaction_Write_Panic:
  "Transaction_Write t p = Panic \<Longrightarrow> 22 \<le> length p \<and> slice_at p 22 (tran_need p) = Panic"
  by (auto simp: Transaction_Write_def obind_Panic_iff Let_def read_fields_no_panic
      tran_need_def[symmetric] split: if_splits option.splits)

lemma Transaction_Write_frame_no_panic:
  assumes "transactionScanner d cap = Ok (n, Some p)"
  shows "Transaction_Write t p \<noteq> Panic"
proof
  assume "Transaction_Write t p = Panic"
  note bad = Transaction_Write_Panic[OF this]
  have d: "16 \<le> length d" "p = take (tran_need d) d" "tran_need d \<le> length d"
    using assms by (auto simp: transactionScanner_eq split: if_splits)
  have len: "length p = tran_need d" unfolding d(2) using d(3) by simp
  have "tran_need p = tran_need (p @ drop (tran_need d) d)"
    by (rule tran_need_append [symmetric]) (use bad in simp)
  also have "p @ drop (tran_need d) d = d" unfolding d(2) by (rule append_take_drop_id)
  finally have "tran_need p = length p" by (simp only: len)
  with bad show False by (simp add: slice_at_Panic_iff)
qed

lemma read_transactions_no_panic_aux: "sc_ok s \<Longrightarrow> read_transactions n s \<noteq> Panic"
proof (induction n arbitrary: s)
  case (Suc n)
  obtain more s1 where s1: "scan transactionScanner s = Ok (more, s1)"
    "more \<longrightarrow> sc_ok s1 \<and> (\<exists>d k. transactionScanner d 0 = Ok (k, Some (scan_bytes s1)))"
    using tran_total.scan_total[OF Suc.prems] by blast
  show ?case
  proof (cases more)
    case True
    then obtain d k where "transactionScanner d 0 = Ok (k, Some (scan_bytes s1))" using s1(2) by blast
    then show ?thesis using s1 True Suc.IH[of s1] Transaction_Write_frame_no_panic
      by (auto simp: obind_Panic_iff)
  qed (use s1 in simp)
qed simp

text \<open>C1: the stream of a connection is parsed back exactly.  However the network cuts the
  serialised transactions into reads, the scanner and \<^verbatim>\<open>Transaction.Write\<close> return the same
  transactions in the same order, each as it is on the wire, and then the end of the stream.\<close>

theorem stream_of_transactions_roundtrip:
  assumes wf: "\<forall>t \<in> set ts. wf_tran t \<and> length (Transaction_bytes t) \<le> MaxScanTokenSize"
    and chunks: "concat chunks = concat (map Transaction_bytes ts)" "[] \<notin> set chunks"
    and n: "length ts < n"
  shows "read_transactions n (NewScanner chunks) = Ok (map wire_form ts)"
proof -
  have "sc_ok s \<Longrightarrow> pending s = concat (map Transaction_bytes ts) \<Longrightarrow>
      read_transactions n s = Ok (map wire_form ts)" for s
    using wf n
  proof (induction ts arbitrary: s n)
    case Nil
    then show ?case using tran_scan.scan_end[of s] by (cases n) auto
  next
    case (Cons t ts)
    then obtain m where m: "n = Suc m" by (cases n) auto
    obtain s1 where "scan transactionScanner s = Ok (True, s1)" "sc_ok s1"
      "scan_bytes s1 = Transaction_bytes t" "pending s1 = concat (map Transaction_bytes ts)"
      using tran_scan.scan_stream[of s "Transaction_bytes t" "concat (map Transaction_bytes ts)"]
        Cons.prems tran_frame_bytes by auto
    then show ?case
      using Cons.IH[of s1 m] Cons.prems m by (simp add: Transaction_Write_bytes)
  qed
  then show ?thesis using chunks by simp
qed

text \<open>A two-field transaction and an empty one, cut in the middle of the first header.\<close>

definition sample_stream :: "transaction list" where
  "sample_stream =
     [NewTransaction 7 TranChatSend 0 [NewField FieldData [104, 105], NewField FieldChatID [0, 0, 0, 1]],
      NewTransaction 8 TranKeepAlive 0 []]"

lemma sample_stream_wf:
  "\<forall>t \<in> set sample_stream. wf_tran t \<and> length (Transaction_bytes t) \<le> MaxScanTokenSize"
  by (auto simp: sample_stream_def wf_tran_def wf_field_def payload_len_def length_Transaction_bytes
      MaxScanTokenSize_def Transaction_bytes_def Transaction_Size_def Field_bytes_def)

theorem stream_of_transactions_roundtrip_witness:
  "let b = concat (map Transaction_bytes sample_stream) in
   read_transactions 3 (NewScanner [take 5 b, drop 5 b]) = Ok (map wire_form sample_stream)"
proof -
  have "Transaction_bytes (hd sample_stream) \<noteq> []" and "length sample_stream < 3"
    by (simp_all add: Transaction_bytes_def sample_stream_def)
  moreover have "length (Transaction_bytes (hd sample_stream)) > 5"
    by (simp add: sample_stream_def Transaction_bytes_def)
  ultimately show ?thesis
    unfolding Let_def
    by (intro stream_of_transactions_roundtrip[OF sample_stream_wf]) (auto simp: sample_stream_def)
qed

text \<open>A transaction that parses has taken up at least its header.\<close>

lemma transaction_token: "transactionScanner d cap = Ok (n, Some t) \<Longrightarrow> n = length t"
  by (auto simp: transactionScanner_eq split: if_splits)

lemma Transaction_Write_size: "Transaction_Write t p = Ok r \<Longrightarrow> 22 \<le> length p"
  by (auto simp: Transaction_Write_def split: if_splits)

lemma transaction_consumes:
  assumes "scan transactionScanner s = Ok (True, s1)" "Transaction_Write t (scan_bytes s1) = Ok r"
  shows "length (pending s1) + 22 \<le> length (pending s)"
  using scan_consumes[OF assms(1)] transaction_token Transaction_Write_size[OF assms(2)] by fastforce

text \<open>C22: parsing cannot crash a connection.  Whatever bytes a client sends, in whatever pieces, the
  scanner, \<^verbatim>\<open>Transaction.Write\<close> and \<^verbatim>\<open>Field.Write\<close> never panic.\<close>

theorem read_transactions_no_panic:
  assumes "[] \<notin> set chunks"
  shows "read_transactions n (NewScanner chunks) \<noteq> Panic"
  using assms by (simp add: read_transactions_no_panic_aux)

text \<open>Twenty-two bytes that claim a size of 2^32 - 1.\<close>

theorem read_transactions_no_panic_witness:
  "read_transactions 1 (NewScanner [replicate 12 0 @ replicate 4 255 @ replicate 6 0]) \<noteq> Panic"
  by (rule read_transactions_no_panic) simp

end
