(* ===== verification/HL_Server.thy ===== *)
theory HL_Server
  imports HL_Files HL_Transactions
begin

text \<open>
  The state of a running server, \<^verbatim>\<open>hotline/server.go\<close>, with the managers it holds: the client manager
  (\<^verbatim>\<open>client_manager.go\<close>), the private chats (\<^verbatim>\<open>chat.go\<close>), the transfer manager (the first part of
  \<^verbatim>\<open>file_transfer.go\<close>), the statistics (\<^verbatim>\<open>stats.go\<close>), and the methods of a connection
  (\<^verbatim>\<open>client_conn.go\<close>).  A \<^verbatim>\<open>*ClientConn\<close> is a number into the store \<open>sv_conns\<close>, a \<^verbatim>\<open>*FileTransfer\<close>
  one into \<open>sv_fts\<close>.
\<close>

section \<open>Connections, chats, transfers\<close>

abbreviation (input) FileDownload :: nat where "FileDownload \<equiv> 0"
abbreviation (input) FileUpload :: nat where "FileUpload \<equiv> 1"
abbreviation (input) FolderDownload :: nat where "FolderDownload \<equiv> 2"
abbreviation (input) FolderUpload :: nat where "FolderUpload \<equiv> 3"
abbreviation (input) BannerDownload :: nat where "BannerDownload \<equiv> 4"

text \<open>
  The account of a connection is a copy that nobody else points to, so it is a value; nil before the
  login is done.  \<open>cl_transfers\<close> has one map per transfer type.
\<close>

record ClientConn =
  cl_RemoteAddr :: bytes
  cl_ID :: "16 word"
  cl_Icon :: slice
  cl_Version :: slice
  cl_Flags :: UserFlags
  cl_UserName :: bytes
  cl_Account :: "account option"
  cl_IdleTime :: nat
  cl_AutoReply :: bytes
  cl_transfers :: "nat \<Rightarrow> (32 word, nat) gmap"
  cl_closed :: bool

record PrivateChat =
  ch_Subject :: bytes
  ch_ClientConn :: "(16 word, nat) gmap"

record FileTransfer =
  ft_FileRoot :: bytes
  ft_FileName :: slice
  ft_FilePath :: slice
  ft_RefNum :: "32 word"
  ft_Type :: nat
  ft_TransferSize :: slice
  ft_FolderItemCount :: slice
  ft_FileResumeData :: "FileResumeData option"
  ft_Options :: slice
  ft_sent :: nat
  ft_ClientConn :: nat

record Config =
  cf_Name :: bytes
  cf_Description :: bytes
  cf_BannerFile :: bytes
  cf_FileRoot :: bytes
  cf_EnableTrackerRegistration :: bool
  cf_Trackers :: "bytes list"
  cf_NewsDelimiter :: bytes
  cf_NewsDateFormat :: bytes
  cf_PreserveResourceForks :: bool
  cf_IgnoreFiles :: "bytes list"

section \<open>Statistics\<close>

abbreviation (input) StatCurrentlyConnected :: nat where "StatCurrentlyConnected \<equiv> 0"
abbreviation (input) StatDownloadsInProgress :: nat where "StatDownloadsInProgress \<equiv> 1"
abbreviation (input) StatUploadsInProgress :: nat where "StatUploadsInProgress \<equiv> 2"
abbreviation (input) StatWaitingDownloads :: nat where "StatWaitingDownloads \<equiv> 3"
abbreviation (input) StatConnectionPeak :: nat where "StatConnectionPeak \<equiv> 4"
abbreviation (input) StatConnectionCounter :: nat where "StatConnectionCounter \<equiv> 5"
abbreviation (input) StatDownloadCounter :: nat where "StatDownloadCounter \<equiv> 6"
abbreviation (input) StatUploadCounter :: nat where "StatUploadCounter \<equiv> 7"

type_synonym stats = "(nat, int) gmap"

definition NewStats :: stats where
  "NewStats = map (\<lambda>k. (k, 0)) [StatCurrentlyConnected, StatDownloadsInProgress, StatUploadsInProgress,
     StatWaitingDownloads, StatConnectionPeak, StatDownloadCounter, StatUploadCounter, StatConnectionCounter]"

text \<open>Reading a missing key of the map gives 0.\<close>

definition Stats_Get :: "nat \<Rightarrow> stats \<Rightarrow> int" where
  "Stats_Get key st = (case map_of st key of Some v \<Rightarrow> v | None \<Rightarrow> 0)"

definition Stats_Increment :: "nat list \<Rightarrow> stats \<Rightarrow> stats" where
  "Stats_Increment keys st = fold (\<lambda>k st. mput k (Stats_Get k st + 1) st) keys st"

definition Stats_Decrement :: "nat \<Rightarrow> stats \<Rightarrow> stats" where
  "Stats_Decrement key st = (if 0 < Stats_Get key st then mput key (Stats_Get key st - 1) st else st)"

definition Stats_Values :: "stats \<Rightarrow> (string \<times> int) list" where
  "Stats_Values st =
     [(''CurrentlyConnected'', Stats_Get StatCurrentlyConnected st), (''DownloadsInProgress'', Stats_Get StatDownloadsInProgress st),
      (''UploadsInProgress'', Stats_Get StatUploadsInProgress st), (''WaitingDownloads'', Stats_Get StatWaitingDownloads st),
      (''ConnectionPeak'', Stats_Get StatConnectionPeak st), (''ConnectionCounter'', Stats_Get StatConnectionCounter st),
      (''DownloadCounter'', Stats_Get StatDownloadCounter st), (''UploadCounter'', Stats_Get StatUploadCounter st)]"

definition Stats_Set :: "nat \<Rightarrow> int \<Rightarrow> stats \<Rightarrow> stats" where
  "Stats_Set key v st = mput key v st"

section \<open>The library code the server calls\<close>

text \<open>
  What the server calls but this repository does not define: bcrypt, the YAML library, the text
  encodings, the clock with its calendar and formatting, regular expressions, \<^verbatim>\<open>fmt.Sprintf\<close> of a template from the configuration, floating
  point numbers in decimal (\<open>x_percent\<close> of the bytes sent, \<open>x_size\<close> in kilo- or megabytes), and the
  buffer sizes of \<^verbatim>\<open>io.ReadAll\<close>.
\<close>

record externals =
  x_hash :: hasher
  x_check :: checker
  x_account_yaml :: yaml_out
  x_ban_yaml :: ban_yaml
  x_news_yaml :: news_out
  x_decode :: "bytes \<Rightarrow> bytes option"
  x_encode :: "bytes \<Rightarrow> bytes option"
  x_now :: time
  x_calendar :: calendar
  x_regexp :: "bytes \<Rightarrow> bytes \<Rightarrow> bool"
  x_sprintf :: "bytes \<Rightarrow> bytes list \<Rightarrow> bytes"
  x_percent :: "nat \<Rightarrow> 32 word \<Rightarrow> bytes"
  x_size :: "32 word \<Rightarrow> bytes"
  x_buf :: "nat \<Rightarrow> nat"

section \<open>The state of the server\<close>

text \<open>
  \<open>sv_outbox\<close> is everything sent to the outbox channel, in order; \<open>sv_later\<close> the connections that a
  background routine will disconnect after its sleep; \<open>sv_rand\<close> the random numbers still to come;
  \<open>sv_redis\<close> the set of online users kept in Redis, when a client is configured.  \<open>sv_disk\<close> holds the
  server's own files (accounts, bans, news), \<open>sv_files\<close> the file system with the shared files: the two
  are apart.
\<close>

record server =
  sv_conns :: "nat \<Rightarrow> ClientConn"
  sv_next :: nat
  sv_clients :: "(16 word, nat) gmap"
  sv_nextClientID :: "32 word"
  sv_chats :: "(32 word, PrivateChat) gmap"
  sv_fts :: "nat \<Rightarrow> FileTransfer"
  sv_next_ft :: nat
  sv_fileTransfers :: "(32 word, nat) gmap"
  sv_accounts :: YAMLAccountManager
  sv_bans :: "BanFile option"
  sv_news :: ThreadedNewsYAML
  sv_board :: FlatNews
  sv_agreement :: Agreement
  sv_stats :: stats
  sv_redis :: "bytes list option"
  sv_config :: Config
  sv_Banner :: bytes
  sv_disk :: disk
  sv_files :: filesystem
  sv_outbox :: "transaction list"
  sv_later :: "nat list"
  sv_rand :: "nat \<Rightarrow> 32 word"
  sv_Port :: nat
  sv_TLSPort :: nat
  sv_TrackerPassID :: "32 word"

abbreviation cc :: "server \<Rightarrow> nat \<Rightarrow> ClientConn" where
  "cc s r \<equiv> sv_conns s r"

definition upd_conn :: "nat \<Rightarrow> (ClientConn \<Rightarrow> ClientConn) \<Rightarrow> server \<Rightarrow> server" where
  "upd_conn r f s = s\<lparr>sv_conns := (sv_conns s)(r := f (sv_conns s r))\<rparr>"

definition skip_rand :: "nat \<Rightarrow> server \<Rightarrow> server" where
  "skip_rand n s = s\<lparr>sv_rand := \<lambda>i. sv_rand s (i + n)\<rparr>"

definition send :: "transaction list \<Rightarrow> server \<Rightarrow> server" where
  "send ts s = s\<lparr>sv_outbox := sv_outbox s @ ts\<rparr>"

section \<open>The client manager\<close>

text \<open>Sorting by ID: the IDs of listed clients are distinct, so the order is determined.\<close>

definition ClientMgr_List :: "server \<Rightarrow> nat list" where
  "ClientMgr_List s = sort_key (\<lambda>r. cl_ID (cc s r)) (map snd (sv_clients s))"

definition ClientMgr_Get :: "16 word \<Rightarrow> server \<Rightarrow> nat option" where
  "ClientMgr_Get i s = map_of (sv_clients s) i"

definition ClientMgr_Add :: "nat \<Rightarrow> server \<Rightarrow> server" where
  "ClientMgr_Add r s =
     (let n = sv_nextClientID s + 1; i = ucast n;
          s1 = upd_conn r (\<lambda>c. c\<lparr>cl_ID := i\<rparr>) (s\<lparr>sv_nextClientID := n\<rparr>)
      in s1\<lparr>sv_clients := mput i r (sv_clients s1)\<rparr>)"

definition ClientMgr_Delete :: "16 word \<Rightarrow> server \<Rightarrow> server" where
  "ClientMgr_Delete i s = s\<lparr>sv_clients := mdel i (sv_clients s)\<rparr>"

section \<open>Private chats\<close>

text \<open>A missing chat is a nil pointer: \<open>None\<close> stands for the panic of following it.\<close>

definition ChatMgr_New :: "nat \<Rightarrow> server \<Rightarrow> 32 word \<times> server" where
  "ChatMgr_New r s =
     (let i = sv_rand s 0 in
      (i, (skip_rand 1 s)\<lparr>sv_chats := mput i \<lparr>ch_Subject = [], ch_ClientConn = mput (cl_ID (cc s r)) r []\<rparr> (sv_chats s)\<rparr>))"

definition ChatMgr_Join :: "32 word \<Rightarrow> nat \<Rightarrow> server \<Rightarrow> server option" where
  "ChatMgr_Join i r s =
     (case map_of (sv_chats s) i of
        None \<Rightarrow> None
      | Some c \<Rightarrow> Some (s\<lparr>sv_chats := mput i (c\<lparr>ch_ClientConn := mput (cl_ID (cc s r)) r (ch_ClientConn c)\<rparr>) (sv_chats s)\<rparr>))"

definition ChatMgr_Leave :: "32 word \<Rightarrow> 16 word \<Rightarrow> server \<Rightarrow> server" where
  "ChatMgr_Leave i k s =
     (case map_of (sv_chats s) i of
        None \<Rightarrow> s
      | Some c \<Rightarrow> s\<lparr>sv_chats := mput i (c\<lparr>ch_ClientConn := mdel k (ch_ClientConn c)\<rparr>) (sv_chats s)\<rparr>)"

definition ChatMgr_GetSubject :: "32 word \<Rightarrow> server \<Rightarrow> bytes option" where
  "ChatMgr_GetSubject i s = map_option ch_Subject (map_of (sv_chats s) i)"

definition ChatMgr_Members :: "32 word \<Rightarrow> server \<Rightarrow> nat list option" where
  "ChatMgr_Members i s =
     map_option (\<lambda>c. sort_key (\<lambda>r. cl_ID (cc s r)) (map snd (ch_ClientConn c))) (map_of (sv_chats s) i)"

definition ChatMgr_SetSubject :: "32 word \<Rightarrow> bytes \<Rightarrow> server \<Rightarrow> server option" where
  "ChatMgr_SetSubject i subject s =
     (case map_of (sv_chats s) i of
        None \<Rightarrow> None
      | Some c \<Rightarrow> Some (s\<lparr>sv_chats := mput i (c\<lparr>ch_Subject := subject\<rparr>) (sv_chats s)\<rparr>))"

section \<open>File transfers\<close>

definition cftm_Add :: "nat \<Rightarrow> 32 word \<Rightarrow> nat \<Rightarrow> ClientConn \<Rightarrow> ClientConn" where
  "cftm_Add ty i f c = c\<lparr>cl_transfers := (cl_transfers c)(ty := mput i f (cl_transfers c ty))\<rparr>"

definition cftm_Delete :: "nat \<Rightarrow> 32 word \<Rightarrow> ClientConn \<Rightarrow> ClientConn" where
  "cftm_Delete ty i c = c\<lparr>cl_transfers := (cl_transfers c)(ty := mdel i (cl_transfers c ty))\<rparr>"

definition cftm_Get :: "nat \<Rightarrow> nat \<Rightarrow> server \<Rightarrow> FileTransfer list" where
  "cftm_Get ty r s = map (\<lambda>(i, f). sv_fts s f) (cl_transfers (cc s r) ty)"

definition upd_ft :: "nat \<Rightarrow> (FileTransfer \<Rightarrow> FileTransfer) \<Rightarrow> server \<Rightarrow> server" where
  "upd_ft f g s = s\<lparr>sv_fts := (sv_fts s)(f := g (sv_fts s f))\<rparr>"

text \<open>\<^verbatim>\<open>Add\<close> draws the reference number of the transfer.\<close>

definition FileTransferMgr_Add :: "nat \<Rightarrow> server \<Rightarrow> server" where
  "FileTransferMgr_Add f s =
     (let i = sv_rand s 0; s1 = upd_ft f (\<lambda>ft. ft\<lparr>ft_RefNum := i\<rparr>) (skip_rand 1 s);
          s2 = s1\<lparr>sv_fileTransfers := mput i f (sv_fileTransfers s1)\<rparr>; ft = sv_fts s2 f
      in upd_conn (ft_ClientConn ft) (cftm_Add (ft_Type ft) i f) s2)"

definition NewFileTransfer :: "nat \<Rightarrow> nat \<Rightarrow> bytes \<Rightarrow> slice \<Rightarrow> slice \<Rightarrow> slice \<Rightarrow> server \<Rightarrow> nat \<times> server" where
  "NewFileTransfer r ty fileroot fileName filePath sz s =
     (let f = sv_next_ft s;
          ft = \<lparr>ft_FileRoot = fileroot, ft_FileName = fileName, ft_FilePath = filePath, ft_RefNum = 0,
                ft_Type = ty, ft_TransferSize = sz, ft_FolderItemCount = None, ft_FileResumeData = None,
                ft_Options = None, ft_sent = 0, ft_ClientConn = r\<rparr>
      in (f, FileTransferMgr_Add f (s\<lparr>sv_fts := (sv_fts s)(f := ft), sv_next_ft := Suc f\<rparr>)))"

definition FileTransferMgr_Get :: "32 word \<Rightarrow> server \<Rightarrow> nat option" where
  "FileTransferMgr_Get i s = map_of (sv_fileTransfers s) i"

text \<open>Deleting an unknown transfer follows a nil pointer.\<close>

definition FileTransferMgr_Delete :: "32 word \<Rightarrow> server \<Rightarrow> server option" where
  "FileTransferMgr_Delete i s =
     (case map_of (sv_fileTransfers s) i of
        None \<Rightarrow> None
      | Some f \<Rightarrow>
          let ft = sv_fts s f;
              s1 = upd_conn (ft_ClientConn ft) (cftm_Delete (ft_Type ft) i) s
          in Some (s1\<lparr>sv_fileTransfers := mdel i (sv_fileTransfers s1)\<rparr>))"

section \<open>Methods of a connection\<close>

definition Authorize :: "nat \<Rightarrow> nat \<Rightarrow> server \<Rightarrow> bool" where
  "Authorize r access s =
     (case cl_Account (cc s r) of None \<Rightarrow> False | Some a \<Rightarrow> AccessBitmap_IsSet (ac_Access a) access)"

definition FileRoot :: "nat \<Rightarrow> server \<Rightarrow> bytes option" where
  "FileRoot r s =
     map_option (\<lambda>a. if ac_FileRoot a \<noteq> [] then ac_FileRoot a else cf_FileRoot (sv_config s)) (cl_Account (cc s r))"

definition NewReply :: "nat \<Rightarrow> transaction \<Rightarrow> hl_field list \<Rightarrow> server \<Rightarrow> transaction" where
  "NewReply r t fs s = zero_tran\<lparr>tr_IsReply := 1, tr_ID := tr_ID t, tr_ClientID := cl_ID (cc s r), tr_Fields := fs\<rparr>"

definition NewErrReply :: "nat \<Rightarrow> transaction \<Rightarrow> bytes \<Rightarrow> server \<Rightarrow> transaction list" where
  "NewErrReply r t errMsg s =
     [zero_tran\<lparr>tr_ClientID := cl_ID (cc s r), tr_IsReply := 1, tr_ID := tr_ID t, tr_ErrorCode := 1,
        tr_Fields := [NewField FieldError errMsg]\<rparr>]"

text \<open>One new transaction to each of the listed connections, with a fresh random ID each.\<close>

fun fan_out :: "TranType \<Rightarrow> hl_field list \<Rightarrow> nat list \<Rightarrow> server \<Rightarrow> transaction list \<times> server" where
  "fan_out ty fs [] s = ([], s)"
| "fan_out ty fs (r # rs) s =
     (case fan_out ty fs rs (skip_rand 1 s) of
        (ts, s') \<Rightarrow> (NewTransaction (sv_rand s 0) ty (cl_ID (cc s r)) fs # ts, s'))"

definition new_tran :: "TranType \<Rightarrow> 16 word \<Rightarrow> hl_field list \<Rightarrow> server \<Rightarrow> transaction \<times> server" where
  "new_tran ty i fs s = (NewTransaction (sv_rand s 0) ty i fs, skip_rand 1 s)"

definition SendAll :: "TranType \<Rightarrow> hl_field list \<Rightarrow> server \<Rightarrow> server" where
  "SendAll ty fs s = (case fan_out ty fs (ClientMgr_List s) s of (ts, s1) \<Rightarrow> send ts s1)"

definition NotifyOthers :: "nat \<Rightarrow> transaction \<Rightarrow> server \<Rightarrow> transaction list" where
  "NotifyOthers r t s =
     map (\<lambda>c. t\<lparr>tr_ClientID := cl_ID (cc s c)\<rparr>)
       (filter (\<lambda>c. cl_ID (cc s c) \<noteq> cl_ID (cc s r)) (ClientMgr_List s))"

definition Disconnect :: "nat \<Rightarrow> server \<Rightarrow> server" where
  "Disconnect r s =
     (let s1 = ClientMgr_Delete (cl_ID (cc s r)) s in
      case new_tran TranNotifyDeleteUser 0 [NewField FieldUserID (be16 (cl_ID (cc s1 r)))] s1 of
        (t, s2) \<Rightarrow> upd_conn r (\<lambda>c. c\<lparr>cl_closed := True\<rparr>) (send (NotifyOthers r t s2) s2))"

definition Authenticate :: "externals \<Rightarrow> bytes \<Rightarrow> bytes \<Rightarrow> server \<Rightarrow> bool" where
  "Authenticate x login password s =
     (case am_Get login (sv_accounts s) of
        Some acc \<Rightarrow> x_check x (ac_Password acc) password
      | None \<Rightarrow> False)"

definition NewClientConn :: "bytes \<Rightarrow> server \<Rightarrow> nat \<times> server" where
  "NewClientConn remoteAddr s =
     (let r = sv_next s;
          c = \<lparr>cl_RemoteAddr = remoteAddr, cl_ID = 0, cl_Icon = Some [0, 0], cl_Version = None, cl_Flags = 0,
               cl_UserName = [], cl_Account = None, cl_IdleTime = 0, cl_AutoReply = [],
               cl_transfers = \<lambda>_. [], cl_closed = False\<rparr>
      in (r, ClientMgr_Add r (s\<lparr>sv_conns := (sv_conns s)(r := c), sv_next := Suc r\<rparr>)))"

text \<open>\<^verbatim>\<open>net.SplitHostPort\<close>, the host part; every error of it leaves the empty string.\<close>

definition index_last :: "byte \<Rightarrow> bytes \<Rightarrow> nat option" where
  "index_last b s = (if b \<in> set s then Some (length s - 1 - length (takeWhile (\<lambda>c. c \<noteq> b) (rev s))) else None)"

definition split_host :: "bytes \<Rightarrow> bytes" where
  "split_host hp =
     (case index_last 58 hp of
        None \<Rightarrow> []
      | Some i \<Rightarrow>
          if take 1 hp = [91] then
            (let e = length (takeWhile (\<lambda>c. c \<noteq> 93) hp) in
             if e = length hp \<or> e + 1 \<noteq> i \<or> 91 \<in> set (drop 1 hp) \<or> 93 \<in> set (drop (e + 1) hp) then []
             else drop 1 (take e hp))
          else if 58 \<in> set (take i hp) \<or> 91 \<in> set hp \<or> 93 \<in> set hp then []
          else take i hp)"

definition conn_IP :: "nat \<Rightarrow> server \<Rightarrow> bytes" where
  "conn_IP r s = split_host (cl_RemoteAddr (cc s r))"

section \<open>Transactions going out\<close>

text \<open>
  \<^verbatim>\<open>sendTransaction\<close>: the connection a transaction of the outbox is written to, if its target is
  still registered.
\<close>

definition sendTransaction :: "transaction \<Rightarrow> server \<Rightarrow> (nat \<times> bytes) option" where
  "sendTransaction t s =
     map_option (\<lambda>r. (r, Transaction_bytes t)) (ClientMgr_Get (tr_ClientID t) s)"

section \<open>Handlers\<close>

text \<open>What a handler does: the new state and its result, or a panic and the state it left.\<close>

datatype handled = Done server "transaction list" | Crash server

type_synonym handler = "nat \<Rightarrow> transaction \<Rightarrow> server \<Rightarrow> handled"

text \<open>The conversions \<^verbatim>\<open>[2]byte(s)\<close> and \<^verbatim>\<open>[4]byte(s)\<close> of a slice panic if it is shorter.\<close>

definition arr2 :: "slice \<Rightarrow> 16 word option" where
  "arr2 v = (if 2 \<le> length (sl v) then Some (be_word (take 2 (sl v))) else None)"

definition arr4 :: "slice \<Rightarrow> 32 word option" where
  "arr4 v = (if 4 \<le> length (sl v) then Some (be_word (take 4 (sl v))) else None)"

definition change_user_fields :: "nat \<Rightarrow> server \<Rightarrow> hl_field list" where
  "change_user_fields r s =
     [NewField FieldUserID (be16 (cl_ID (cc s r))), NewField FieldUserFlags (be16 (cl_Flags (cc s r))),
      NewField FieldUserName (cl_UserName (cc s r)), NewField FieldUserIconID (sl (cl_Icon (cc s r)))]"

text \<open>
  \<^verbatim>\<open>handleTransaction\<close>, given the handler registered for the type: its transactions go to the outbox,
  then any transaction but a keep-alive resets the idle time and ends the away state.
\<close>

definition handleTransaction :: "(TranType \<Rightarrow> handler option) \<Rightarrow> nat \<Rightarrow> transaction \<Rightarrow> server \<Rightarrow> handled" where
  "handleTransaction handlers r t s =
     (case (case handlers (tr_Type t) of None \<Rightarrow> Done s [] | Some h \<Rightarrow> h r t s) of
        Crash s1 \<Rightarrow> Crash s1
      | Done s1 ts \<Rightarrow>
          let s2 = send ts s1 in
          if tr_Type t = TranKeepAlive then Done s2 []
          else
            let s3 = upd_conn r (\<lambda>c. c\<lparr>cl_IdleTime := 0\<rparr>) s2 in
            if UserFlags_IsSet (cl_Flags (cc s3 r)) UserFlagAway then
              let s4 = upd_conn r (\<lambda>c. c\<lparr>cl_Flags := UserFlags_Set (cl_Flags c) UserFlagAway False\<rparr>) s3
              in Done (SendAll TranNotifyChangeUser (change_user_fields r s4) s4) []
            else Done s3 [])"

section \<open>The idle check\<close>

abbreviation (input) userIdleSeconds :: nat where "userIdleSeconds \<equiv> 300"
abbreviation (input) idleCheckInterval :: nat where "idleCheckInterval \<equiv> 10"

definition idle_check :: "nat \<Rightarrow> server \<Rightarrow> server" where
  "idle_check r s =
     (let s1 = upd_conn r (\<lambda>c. c\<lparr>cl_IdleTime := cl_IdleTime c + idleCheckInterval\<rparr>) s in
      if userIdleSeconds < cl_IdleTime (cc s1 r) \<and> \<not> UserFlags_IsSet (cl_Flags (cc s1 r)) UserFlagAway then
        let s2 = upd_conn r (\<lambda>c. c\<lparr>cl_Flags := UserFlags_Set (cl_Flags c) UserFlagAway True\<rparr>) s1
        in SendAll TranNotifyChangeUser (change_user_fields r s2) s2
      else s1)"

text \<open>One tick of \<^verbatim>\<open>keepaliveHandler\<close>: the list of clients is taken once, before the loop.\<close>

definition keepalive_tick :: "server \<Rightarrow> server" where
  "keepalive_tick s = fold idle_check (ClientMgr_List s) s"

end
