(* ===== verification/HL_Chat_Handlers.thy ===== *)
theory HL_Chat_Handlers
  imports HL_Server
begin

text \<open>
  The handlers of \<^verbatim>\<open>internal/mobius/transaction_handlers.go\<close> for public chat, instant messages,
  broadcasts and private chats.
\<close>

section \<open>Formatting a chat line\<close>

text \<open>The width of the first UTF-8 sequence of a string as \<^verbatim>\<open>utf8.DecodeRune\<close> has it: 1 if invalid.\<close>

definition cont_byte :: "byte \<Rightarrow> byte \<Rightarrow> nat \<Rightarrow> bytes \<Rightarrow> bool" where
  "cont_byte lo hi i b \<longleftrightarrow> i < length b \<and> lo \<le> b ! i \<and> b ! i \<le> hi"

definition rune_width :: "bytes \<Rightarrow> nat" where
  "rune_width b =
     (let b0 = b ! 0; any = cont_byte 0x80 0xBF in
      if 0xC2 \<le> b0 \<and> b0 \<le> 0xDF then (if any 1 b then 2 else 1)
      else if 0xE0 \<le> b0 \<and> b0 \<le> 0xEF then
        (if cont_byte (if b0 = 0xE0 then 0xA0 else 0x80) (if b0 = 0xED then 0x9F else 0xBF) 1 b \<and> any 2 b then 3 else 1)
      else if 0xF0 \<le> b0 \<and> b0 \<le> 0xF4 then
        (if cont_byte (if b0 = 0xF0 then 0x90 else 0x80) (if b0 = 0xF4 then 0x8F else 0xBF) 1 b \<and> any 2 b \<and> any 3 b
         then 4 else 1)
      else 1)"

lemma rune_width_pos: "0 < rune_width b"
  by (simp add: rune_width_def Let_def)

function runes :: "bytes \<Rightarrow> bytes list" where
  "runes [] = []"
| "runes (b # bs) = take (rune_width (b # bs)) (b # bs) # runes (drop (rune_width (b # bs)) (b # bs))"
  by pat_completeness auto
termination
  by (relation "measure length") (auto simp: rune_width_pos Suc_diff_le intro: diff_less)

text \<open>\<^verbatim>\<open>%13.13s\<close>: at most 13 runes, padded with spaces on the left to 13 runes.\<close>

definition sprintf_13s :: "bytes \<Rightarrow> bytes" where
  "sprintf_13s b = (let rs = take 13 (runes b) in replicate (13 - length rs) 32 @ concat rs)"

abbreviation (input) LimitChatMsg :: nat where "LimitChatMsg \<equiv> 8192"

definition chat_line :: "bytes \<Rightarrow> transaction \<Rightarrow> bytes" where
  "chat_line userName t =
     (let dat = sl (field_data t FieldData);
          msg = (if field_data t FieldChatOptions = Some [0, 1]
                 then [13] @ go_str ''*** '' @ userName @ go_str '' '' @ dat
                 else [13] @ sprintf_13s userName @ go_str '':  '' @ dat)
      in take LimitChatMsg msg)"

section \<open>Chat\<close>

definition ErrMsgNotAllowedParticipateChat :: bytes where
  "ErrMsgNotAllowedParticipateChat = go_str ''You are not allowed to participate in chat.''"
definition ErrMsgNotAllowedSendPrivateMsg :: bytes where
  "ErrMsgNotAllowedSendPrivateMsg = go_str ''You are not allowed to send private messages.''"
definition ErrMsgNotAllowedRequestPrivateChat :: bytes where
  "ErrMsgNotAllowedRequestPrivateChat = go_str ''You are not allowed to request private chat.''"
definition ErrMsgNotAllowedSendBroadcast :: bytes where
  "ErrMsgNotAllowedSendBroadcast = go_str ''You are not allowed to send broadcast messages.''"

definition fan_out_done :: "TranType \<Rightarrow> hl_field list \<Rightarrow> nat list \<Rightarrow> server \<Rightarrow> handled" where
  "fan_out_done ty fs rs s = (case fan_out ty fs rs s of (ts, s1) \<Rightarrow> Done s1 ts)"

definition HandleChatSend :: handler where
  "HandleChatSend r t s =
     (if \<not> Authorize r AccessSendChat s then Done s (NewErrReply r t ErrMsgNotAllowedParticipateChat s)
      else
        let formattedMsg = chat_line (cl_UserName (cc s r)) t; chatID = field_data t FieldChatID in
        if chatID \<noteq> None \<and> chatID \<noteq> Some [0, 0, 0, 0] then
          (case arr4 chatID of
             None \<Rightarrow> Crash s
           | Some i \<Rightarrow>
               (case ChatMgr_Members i s of
                  None \<Rightarrow> Crash s
                | Some ms \<Rightarrow>
                    fan_out_done TranChatMsg [NewField FieldChatID (sl chatID), NewField FieldData formattedMsg] ms s))
        else
          fan_out_done TranChatMsg [NewField FieldData formattedMsg]
            (filter (\<lambda>c. Authorize c AccessReadChat s) (ClientMgr_List s)) s)"

definition does_not_accept :: "bytes \<Rightarrow> bytes \<Rightarrow> bytes" where
  "does_not_accept name what = name @ go_str '' does not accept '' @ what @ go_str ''.''"

definition opt_tran :: "bool \<Rightarrow> TranType \<Rightarrow> 16 word \<Rightarrow> hl_field list \<Rightarrow> server \<Rightarrow> transaction list \<times> server" where
  "opt_tran b ty i fs s = (if b then case new_tran ty i fs s of (t, s1) \<Rightarrow> ([t], s1) else ([], s))"

definition HandleSendInstantMsg :: handler where
  "HandleSendInstantMsg r t s =
     (if \<not> Authorize r AccessSendPrivMsg s then Done s (NewErrReply r t ErrMsgNotAllowedSendPrivateMsg s)
      else
        (case arr2 (field_data t FieldUserID) of
           None \<Rightarrow> Crash s
         | Some userID \<Rightarrow>
             let quote = (case field_data t FieldQuotingMsg of None \<Rightarrow> [] | Some q \<Rightarrow> [NewField FieldQuotingMsg q]);
                 fs = [NewField FieldData (sl (field_data t FieldData)), NewField FieldUserName (cl_UserName (cc s r)),
                       NewField FieldUserID (be16 (cl_ID (cc s r))), NewField FieldOptions [0, 1]] @ quote
             in (case new_tran TranServerMsg userID fs s of (reply, s1) \<Rightarrow>
                  (case ClientMgr_Get userID s1 of
                     None \<Rightarrow> Done s1 []
                   | Some other \<Rightarrow>
                       let o' = cc s1 other;
                           refuse = UserFlags_IsSet (cl_Flags o') UserFlagRefusePM;
                           about = [NewField FieldUserName (cl_UserName o'), NewField FieldUserID (be16 (cl_ID o'))]
                       in (case opt_tran refuse TranServerMsg (cl_ID (cc s1 r))
                              ([NewField FieldData (does_not_accept (cl_UserName o') (go_str ''private messages''))] @
                               about @ [NewField FieldOptions [0, 2]]) s1 of
                            (refused, s2) \<Rightarrow>
                              (case opt_tran (cl_AutoReply o' \<noteq> []) TranServerMsg (cl_ID (cc s2 r))
                                 ([NewField FieldData (cl_AutoReply o')] @ about @ [NewField FieldOptions [0, 1]]) s2 of
                                 (auto', s3) \<Rightarrow>
                                   Done s3 ((if refuse then refused else [reply]) @ auto' @ [NewReply r t [] s3])))))))"

definition HandleUserBroadcast :: handler where
  "HandleUserBroadcast r t s =
     (if \<not> Authorize r AccessBroadcast s then Done s (NewErrReply r t ErrMsgNotAllowedSendBroadcast s)
      else
        let s1 = SendAll TranServerMsg
          [NewField FieldData (sl (field_data t FieldData)), NewField FieldChatOptions [0]] s
        in Done s1 [NewReply r t [] s1])"

section \<open>Private chats\<close>

definition self_fields :: "nat \<Rightarrow> server \<Rightarrow> hl_field list" where
  "self_fields r s =
     [NewField FieldUserName (cl_UserName (cc s r)), NewField FieldUserID (be16 (cl_ID (cc s r))),
      NewField FieldUserIconID (sl (cl_Icon (cc s r))), NewField FieldUserFlags (be16 (cl_Flags (cc s r)))]"

text \<open>The chat is made before the target is looked up: the panics come after it.\<close>

definition HandleInviteNewChat :: handler where
  "HandleInviteNewChat r t s =
     (if \<not> Authorize r AccessOpenChat s then Done s (NewErrReply r t ErrMsgNotAllowedRequestPrivateChat s)
      else
        (case ChatMgr_New r s of (newChatID, s1) \<Rightarrow>
          (case arr2 (field_data t FieldUserID) of
             None \<Rightarrow> Crash s1
           | Some targetID \<Rightarrow>
               (case ClientMgr_Get targetID s1 of
                  None \<Rightarrow> Crash s1
                | Some target \<Rightarrow>
                    let o' = cc s1 target in
                    (case (if UserFlags_IsSet (cl_Flags o') UserFlagRefusePChat then
                             new_tran TranServerMsg (cl_ID (cc s1 r))
                               [NewField FieldData (does_not_accept (cl_UserName o') (go_str ''private chats'')),
                                NewField FieldUserName (cl_UserName o'), NewField FieldUserID (be16 (cl_ID o')),
                                NewField FieldOptions [0, 2]] s1
                           else
                             new_tran TranInviteToChat targetID
                               [NewField FieldChatID (be32 newChatID), NewField FieldUserName (cl_UserName (cc s1 r)),
                                NewField FieldUserID (be16 (cl_ID (cc s1 r)))] s1) of
                       (m, s2) \<Rightarrow>
                         Done s2 [m, NewReply r t (NewField FieldChatID (be32 newChatID) # self_fields r s2) s2])))))"

definition HandleInviteToChat :: handler where
  "HandleInviteToChat r t s =
     (if \<not> Authorize r AccessOpenChat s then Done s (NewErrReply r t ErrMsgNotAllowedRequestPrivateChat s)
      else
        (case arr2 (field_data t FieldUserID) of
           None \<Rightarrow> Crash s
         | Some targetID \<Rightarrow>
             let chatID = NewField FieldChatID (sl (field_data t FieldChatID)) in
             (case new_tran TranInviteToChat targetID
                 [chatID, NewField FieldUserName (cl_UserName (cc s r)), NewField FieldUserID (be16 (cl_ID (cc s r)))] s of
                (m, s1) \<Rightarrow> Done s1 [m, NewReply r t (chatID # self_fields r s1) s1])))"

definition HandleRejectChatInvite :: handler where
  "HandleRejectChatInvite r t s =
     (case arr4 (field_data t FieldChatID) of
        None \<Rightarrow> Crash s
      | Some chatID \<Rightarrow>
          (case ChatMgr_Members chatID s of
             None \<Rightarrow> Crash s
           | Some ms \<Rightarrow>
               fan_out_done TranChatMsg
                 [NewField FieldChatID (be32 chatID),
                  NewField FieldData (cl_UserName (cc s r) @ go_str '' declined invitation to chat'')] ms s))"

definition user_info :: "nat \<Rightarrow> server \<Rightarrow> bytes" where
  "user_info r s = User_bytes (User_norm
     \<lparr>us_ID = cl_ID (cc s r), us_Icon = cl_Icon (cc s r), us_Flags = Some (be16 (cl_Flags (cc s r))),
      us_Name = cl_UserName (cc s r)\<rparr>)"

definition HandleJoinChat :: handler where
  "HandleJoinChat r t s =
     (let chatID = field_data t FieldChatID in
      case arr4 chatID of
        None \<Rightarrow> Crash s
      | Some i \<Rightarrow>
          (case ChatMgr_Members i s of
             None \<Rightarrow> Crash s
           | Some ms \<Rightarrow>
               (case fan_out TranNotifyChatChangeUser (NewField FieldChatID (sl chatID) # self_fields r s) ms s of
                  (ts, s1) \<Rightarrow>
                    (case ChatMgr_Join i r s1 of
                       None \<Rightarrow> Crash s1
                     | Some s2 \<Rightarrow>
                         (case (ChatMgr_GetSubject i s2, ChatMgr_Members i s2) of
                            (Some subject, Some ms2) \<Rightarrow>
                              Done s2 (ts @ [NewReply r t
                                (NewField FieldChatSubject subject #
                                 map (\<lambda>c. NewField FieldUsernameWithInfo (user_info c s2)) ms2) s2])
                          | _ \<Rightarrow> Crash s2)))))"

definition HandleLeaveChat :: handler where
  "HandleLeaveChat r t s =
     (let chatID = field_data t FieldChatID in
      case arr4 chatID of
        None \<Rightarrow> Crash s
      | Some i \<Rightarrow>
          let s1 = ChatMgr_Leave i (cl_ID (cc s r)) s in
          (case ChatMgr_Members i s1 of
             None \<Rightarrow> Crash s1
           | Some ms \<Rightarrow>
               fan_out_done TranNotifyChatDeleteUser
                 [NewField FieldChatID (sl chatID), NewField FieldUserID (be16 (cl_ID (cc s1 r)))] ms s1))"

definition HandleSetChatSubject :: handler where
  "HandleSetChatSubject r t s =
     (let chatID = field_data t FieldChatID; subject = sl (field_data t FieldChatSubject) in
      case arr4 chatID of
        None \<Rightarrow> Crash s
      | Some i \<Rightarrow>
          (case ChatMgr_SetSubject i subject s of
             None \<Rightarrow> Crash s
           | Some s1 \<Rightarrow>
               (case ChatMgr_Members i s1 of
                  None \<Rightarrow> Crash s1
                | Some ms \<Rightarrow>
                    fan_out_done TranNotifyChatSubject
                      [NewField FieldChatID (sl chatID), NewField FieldChatSubject subject] ms s1)))"

definition HandleKeepAlive :: handler where
  "HandleKeepAlive r t s = Done s [NewReply r t [] s]"

definition HandleGetUserNameList :: handler where
  "HandleGetUserNameList r t s =
     Done s [NewReply r t (map (\<lambda>c. NewField FieldUsernameWithInfo (user_info c s)) (ClientMgr_List s)) s]"

end
