(* ===== verification/HL_User_Handlers.thy ===== *)
theory HL_User_Handlers
  imports HL_Chat_Handlers
begin

text \<open>
  The handlers of \<^verbatim>\<open>internal/mobius/transaction_handlers.go\<close> for accounts and connected users.
\<close>

section \<open>The managers behind the server\<close>

definition on_accounts :: "(YAMLAccountManager \<times> disk \<Rightarrow> go_error option \<times> YAMLAccountManager \<times> disk) \<Rightarrow>
    server \<Rightarrow> go_error option \<times> server" where
  "on_accounts f s =
     (case f (sv_accounts s, sv_disk s) of (e, am, d) \<Rightarrow> (e, s\<lparr>sv_accounts := am, sv_disk := d\<rparr>))"

text \<open>\<open>None\<close>: the ban list is a nil interface, or \<^verbatim>\<open>Add\<close> panics.  The error is only logged.\<close>

definition ban_address :: "externals \<Rightarrow> bytes \<Rightarrow> time option \<Rightarrow> server \<Rightarrow> server option" where
  "ban_address x ip until s =
     (case sv_bans s of
        None \<Rightarrow> None
      | Some bf \<Rightarrow>
          (case bf_Add (x_ban_yaml x) ip until (bf, sv_disk s) of
             Ok (e, bf', d) \<Rightarrow> Some (s\<lparr>sv_bans := Some bf', sv_disk := d\<rparr>)
           | _ \<Rightarrow> None))"

definition hash_password :: "externals \<Rightarrow> bytes \<Rightarrow> server \<Rightarrow> bytes \<times> server" where
  "hash_password x pwd s = (HashAndSalt (x_hash x) (sv_rand s 0) pwd, skip_rand 1 s)"

definition redis_SRem :: "bytes \<Rightarrow> server \<Rightarrow> server" where
  "redis_SRem e s = s\<lparr>sv_redis := map_option (removeAll e) (sv_redis s)\<rparr>"

definition redis_SAdd :: "bytes \<Rightarrow> server \<Rightarrow> server" where
  "redis_SAdd e s = s\<lparr>sv_redis := map_option (List.insert e) (sv_redis s)\<rparr>"

text \<open>The entry of an online user, \<^verbatim>\<open>login:nickname:ip\<close>.\<close>

definition online :: "bytes \<Rightarrow> bytes \<Rightarrow> bytes \<Rightarrow> bytes" where
  "online login nick ip = login @ go_str '':'' @ nick @ go_str '':'' @ ip"

definition disconnect_later :: "nat \<Rightarrow> server \<Rightarrow> server" where
  "disconnect_later r s = s\<lparr>sv_later := sv_later s @ [r]\<rparr>"

definition nickname_banned :: "bytes \<Rightarrow> server \<Rightarrow> bool" where
  "nickname_banned n s = (case sv_bans s of None \<Rightarrow> False | Some bf \<Rightarrow> bf_IsNicknameBanned n bf)"

section \<open>Messages\<close>

definition ErrMsgNotAllowedCreateAccounts :: bytes where
  "ErrMsgNotAllowedCreateAccounts = go_str ''You are not allowed to create new accounts.''"
definition ErrMsgNotAllowedViewAccounts :: bytes where
  "ErrMsgNotAllowedViewAccounts = go_str ''You are not allowed to view accounts.''"
definition ErrMsgNotAllowedModifyAccounts :: bytes where
  "ErrMsgNotAllowedModifyAccounts = go_str ''You are not allowed to modify accounts.''"
definition ErrMsgNotAllowedDeleteAccounts :: bytes where
  "ErrMsgNotAllowedDeleteAccounts = go_str ''You are not allowed to delete accounts.''"
definition ErrMsgNotAllowedGetClientInfo :: bytes where
  "ErrMsgNotAllowedGetClientInfo = go_str ''You are not allowed to get client info.''"
definition ErrMsgNotAllowedDisconnectUsers :: bytes where
  "ErrMsgNotAllowedDisconnectUsers = go_str ''You are not allowed to disconnect users.''"
definition ErrMsgAccountDeleted :: bytes where
  "ErrMsgAccountDeleted = go_str ''You are logged in with an account which was deleted.''"
definition ErrMsgAccountExists :: bytes where
  "ErrMsgAccountExists = go_str ''Cannot create account because there is already an account with that login.''"
definition ErrMsgAccountMoreAccess :: bytes where
  "ErrMsgAccountMoreAccess = go_str ''Cannot create account with more access than yourself.''"
definition ErrMsgAccountNotExist :: bytes where
  "ErrMsgAccountNotExist = go_str ''Account does not exist.''"
definition ErrMsgAccountNotFound :: bytes where
  "ErrMsgAccountNotFound = go_str ''Account not found.''"
definition ErrMsgUserNotFound :: bytes where
  "ErrMsgUserNotFound = go_str ''User not found.''"
definition ErrMsgUpdateAccount :: bytes where
  "ErrMsgUpdateAccount = go_str ''Error updating account.''"
definition ErrMsgTemporaryBan :: bytes where
  "ErrMsgTemporaryBan = go_str ''You are temporarily banned on this server''"
definition ErrMsgPermanentBan :: bytes where
  "ErrMsgPermanentBan = go_str ''You are permanently banned on this server''"

section \<open>Accounts\<close>

text \<open>
  The loop of \<^verbatim>\<open>HandleSetUser\<close> over the connected clients.  The admin flag is taken from the access
  the client had before; a client that is still logging in has no account and panics the loop.
\<close>

fun set_user_loop :: "bytes \<Rightarrow> AccessBitmap \<Rightarrow> bytes \<Rightarrow> nat list \<Rightarrow> server \<Rightarrow> handled" where
  "set_user_loop login access newAccessLvl [] s = Done s []"
| "set_user_loop login access newAccessLvl (c # cs) s =
     (case cl_Account (cc s c) of
        None \<Rightarrow> Crash s
      | Some a \<Rightarrow>
          if ac_Login a = login then
            (case new_tran TranUserAccess (cl_ID (cc s c)) [NewField FieldUserAccess newAccessLvl] s of (m, s1) \<Rightarrow>
               let s2 = upd_conn c (\<lambda>k. k\<lparr>cl_Flags := UserFlags_Set (cl_Flags k) UserFlagAdmin (Authorize c AccessDisconUser s1)\<rparr>) s1;
                   s3 = upd_conn c (\<lambda>k. k\<lparr>cl_Account := Some (a\<lparr>ac_Access := access\<rparr>)\<rparr>) s2;
                   s4 = SendAll TranNotifyChangeUser (change_user_fields c s3) s3
               in (case set_user_loop login access newAccessLvl cs s4 of
                     Done s5 ms \<Rightarrow> Done s5 (m # ms)
                   | Crash s5 \<Rightarrow> Crash s5))
          else set_user_loop login access newAccessLvl cs s)"

definition HandleSetUser :: "externals \<Rightarrow> handler" where
  "HandleSetUser x r t s =
     (if \<not> Authorize r AccessModifyUser s then Done s (NewErrReply r t ErrMsgNotAllowedModifyAccounts s)
      else
        let login = Field_DecodeObfuscatedString (Tran_GetField FieldUserLogin t);
            userName = sl (field_data t FieldUserName);
            newAccessLvl = sl (field_data t FieldUserAccess);
            pw = field_data t FieldUserPassword
        in (case am_Get login (sv_accounts s) of
              None \<Rightarrow> Done s (NewErrReply r t ErrMsgAccountNotFound s)
            | Some acc0 \<Rightarrow>
                let acc1 = acc0\<lparr>ac_Name := userName, ac_Access := copy_access (ac_Access acc0) newAccessLvl\<rparr> in
                (case (if pw = None then hash_password x [] s else (ac_Password acc1, s)) of (p1, s1) \<Rightarrow>
                (case (if sl pw \<noteq> [0] then hash_password x (sl pw) s1 else (p1, s1)) of (p2, s2) \<Rightarrow>
                   let acc = acc1\<lparr>ac_Password := p2\<rparr> in
                   (case on_accounts (am_Update (x_account_yaml x) acc (ac_Login acc)) s2 of
                      (Some e, s3) \<Rightarrow> Done s3 (NewErrReply r t ErrMsgUpdateAccount s3)
                    | (None, s3) \<Rightarrow>
                        (case set_user_loop login (ac_Access acc) newAccessLvl (ClientMgr_List s3) s3 of
                           Crash s4 \<Rightarrow> Crash s4
                         | Done s4 ms \<Rightarrow> Done s4 (ms @ [NewReply r t [] s4])))))))"

definition HandleGetUser :: handler where
  "HandleGetUser r t s =
     (if \<not> Authorize r AccessOpenUser s then Done s (NewErrReply r t ErrMsgNotAllowedViewAccounts s)
      else
        let login = sl (field_data t FieldUserLogin) in
        (case am_Get login (sv_accounts s) of
           None \<Rightarrow> Done s (NewErrReply r t ErrMsgAccountNotExist s)
         | Some a \<Rightarrow> Done s [NewReply r t
             [NewField FieldUserName (ac_Name a), NewField FieldUserLogin (EncodeString login),
              NewField FieldUserPassword (ac_Password a), NewField FieldUserAccess (be64 (ac_Access a))] s]))"

definition HandleListUsers :: "externals \<Rightarrow> handler" where
  "HandleListUsers x r t s =
     (if \<not> Authorize r AccessOpenUser s then Done s (NewErrReply r t ErrMsgNotAllowedViewAccounts s)
      else Done s [NewReply r t
        (map (\<lambda>a. NewField FieldData (Account_bytes (x_check x) a)) (am_List (sv_accounts s))) s])"

text \<open>The loop that tells the clients of a deleted account and has them disconnected later.\<close>

fun deleted_loop :: "(ClientConn \<Rightarrow> 16 word) \<Rightarrow> bytes \<Rightarrow> bytes \<Rightarrow> nat list \<Rightarrow> server \<Rightarrow> handled" where
  "deleted_loop target opts login [] s = Done s []"
| "deleted_loop target opts login (c # cs) s =
     (case cl_Account (cc s c) of
        None \<Rightarrow> Crash s
      | Some a \<Rightarrow>
          if ac_Login a = login then
            (case new_tran TranServerMsg (target (cc s c))
                [NewField FieldData ErrMsgAccountDeleted, NewField FieldChatOptions opts] s of
               (m, s1) \<Rightarrow>
                 (case deleted_loop target opts login cs (disconnect_later c s1) of
                    Done s2 ms \<Rightarrow> Done s2 (m # ms)
                  | Crash s2 \<Rightarrow> Crash s2))
          else deleted_loop target opts login cs s)"

definition HandleDeleteUser :: handler where
  "HandleDeleteUser r t s =
     (if \<not> Authorize r AccessDeleteUser s then Done s (NewErrReply r t ErrMsgNotAllowedDeleteAccounts s)
      else
        let login = Field_DecodeObfuscatedString (Tran_GetField FieldUserLogin t) in
        (case on_accounts (am_Delete login) s of
           (Some e, s1) \<Rightarrow> Done s1 []
         | (None, s1) \<Rightarrow>
             (case deleted_loop cl_ID [2] login (ClientMgr_List s1) s1 of
                Crash s2 \<Rightarrow> Crash s2
              | Done s2 ms \<Rightarrow> Done s2 (ms @ [NewReply r t [] s2]))))"

definition exceeds :: "nat \<Rightarrow> AccessBitmap \<Rightarrow> server \<Rightarrow> bool" where
  "exceeds r access s \<longleftrightarrow> list_ex (\<lambda>i. AccessBitmap_IsSet access i \<and> \<not> Authorize r i s) [0..<64]"

definition create_account :: "externals \<Rightarrow> bytes \<Rightarrow> bytes \<Rightarrow> bytes \<Rightarrow> AccessBitmap \<Rightarrow> server \<Rightarrow> go_error option \<times> server" where
  "create_account x login name password access s =
     on_accounts (am_Create (x_account_yaml x) (NewAccount (x_hash x) (sv_rand s 0) login name password access))
       (skip_rand 1 s)"

definition HandleNewUser :: "externals \<Rightarrow> handler" where
  "HandleNewUser x r t s =
     (if \<not> Authorize r AccessCreateUser s then Done s (NewErrReply r t ErrMsgNotAllowedCreateAccounts s)
      else
        let login = Field_DecodeObfuscatedString (Tran_GetField FieldUserLogin t) in
        if am_Get login (sv_accounts s) \<noteq> None then
          Done s (NewErrReply r t (go_str ''Cannot create account '' @ login @
            go_str '' because there is already an account with that login.'') s)
        else
          let newAccess = copy_access 0 (sl (field_data t FieldUserAccess)) in
          if exceeds r newAccess s then Done s (NewErrReply r t ErrMsgAccountMoreAccess s)
          else
            (case create_account x login (sl (field_data t FieldUserName)) (sl (field_data t FieldUserPassword)) newAccess s of
               (Some e, s1) \<Rightarrow> Done s1 (NewErrReply r t ErrMsgAccountExists s1)
             | (None, s1) \<Rightarrow> Done s1 [NewReply r t [] s1]))"

subsection \<open>The multi-user editor\<close>

text \<open>The sub-fields of one field: \<^verbatim>\<open>Scan\<close> is called without looking at its result.\<close>

fun sub_fields :: "nat \<Rightarrow> scanner \<Rightarrow> hl_field list outcome" where
  "sub_fields 0 sc = Ok []"
| "sub_fields (Suc n) sc =
     obind (scan FieldScanner sc) (\<lambda>(_, sc1).
       obind (Field_Write (scan_bytes sc1)) (\<lambda>(_, f).
         obind (sub_fields n sc1) (\<lambda>fs. Ok (f # fs))))"

text \<open>
  One turn of the loop over the fields, with the result so far: go on, return, or panic.  An early
  return with an error reply drops the result so far.
\<close>

datatype edit = Next server "transaction list" | Return server "transaction list" | Boom_at server

definition delete_one :: "nat \<Rightarrow> transaction \<Rightarrow> hl_field list \<Rightarrow> transaction list \<Rightarrow> server \<Rightarrow> edit" where
  "delete_one r t sub res s =
     (if \<not> Authorize r AccessDeleteUser s then Return s (NewErrReply r t ErrMsgNotAllowedDeleteAccounts s)
      else
        (case GetField FieldData sub of
           None \<Rightarrow> Boom_at s
         | Some f \<Rightarrow>
             let login = EncodeString (sl (fd_Data f)) in
             (case on_accounts (am_Delete login) s of
                (Some e, s1) \<Rightarrow> Return s1 res
              | (None, s1) \<Rightarrow>
                  (case deleted_loop (\<lambda>_. 0) [0] login (ClientMgr_List s1) s1 of
                     Crash s2 \<Rightarrow> Boom_at s2
                   | Done s2 ms \<Rightarrow> Next s2 (res @ ms)))))"

definition modify_one :: "externals \<Rightarrow> nat \<Rightarrow> transaction \<Rightarrow> account \<Rightarrow> hl_field list \<Rightarrow> bytes \<Rightarrow> transaction list \<Rightarrow> server \<Rightarrow> edit" where
  "modify_one x r t acc sub userLogin res s =
     (if \<not> Authorize r AccessModifyUser s then Return s (NewErrReply r t ErrMsgNotAllowedModifyAccounts s)
      else
        (case (case GetField FieldUserPassword sub of
                 None \<Rightarrow> hash_password x [] s
               | Some f \<Rightarrow> if sl (fd_Data f) \<noteq> [0] then hash_password x (sl (fd_Data f)) s else (ac_Password acc, s)) of
           (p, s1) \<Rightarrow>
             let acc1 = acc\<lparr>ac_Password := p,
                   ac_Access := (case GetField FieldUserAccess sub of None \<Rightarrow> ac_Access acc
                     | Some f \<Rightarrow> copy_access (ac_Access acc) (sl (fd_Data f)))\<rparr> in
             (case GetField FieldUserName sub of
                None \<Rightarrow> Boom_at s1
              | Some f \<Rightarrow>
                  (case on_accounts (am_Update (x_account_yaml x) (acc1\<lparr>ac_Name := sl (fd_Data f)\<rparr>) userLogin) s1 of
                     (Some e, s2) \<Rightarrow> Return s2 res
                   | (None, s2) \<Rightarrow> Next s2 res))))"

definition create_one :: "externals \<Rightarrow> nat \<Rightarrow> transaction \<Rightarrow> hl_field list \<Rightarrow> bytes \<Rightarrow> transaction list \<Rightarrow> server \<Rightarrow> edit" where
  "create_one x r t sub userLogin res s =
     (if \<not> Authorize r AccessCreateUser s then Return s (NewErrReply r t ErrMsgNotAllowedCreateAccounts s)
      else
        (case GetField FieldUserAccess sub of
           None \<Rightarrow> Boom_at s
         | Some fa \<Rightarrow>
             let newAccess = copy_access 0 (sl (fd_Data fa)) in
             if exceeds r newAccess s then Return s (NewErrReply r t ErrMsgAccountMoreAccess s)
             else
               (case (GetField FieldUserName sub, GetField FieldUserPassword sub) of
                  (Some fn, Some fp) \<Rightarrow>
                    (case create_account x userLogin (sl (fd_Data fn)) (sl (fd_Data fp)) newAccess s of
                       (Some e, s1) \<Rightarrow> Return s1 (NewErrReply r t ErrMsgAccountExists s1)
                     | (None, s1) \<Rightarrow> Next s1 res)
                | _ \<Rightarrow> Boom_at s)))"

definition edit_field :: "externals \<Rightarrow> nat \<Rightarrow> transaction \<Rightarrow> hl_field \<Rightarrow> transaction list \<Rightarrow> server \<Rightarrow> edit" where
  "edit_field x r t field res s =
     (let d = sl (fd_Data field) in
      if length d < 2 then Boom_at s
      else
        (case sub_fields (unat (be_word (take 2 d) :: 16 word)) (NewScanner (bytes_reader (drop 2 d))) of
           Panic \<Rightarrow> Boom_at s
         | Err e \<Rightarrow> Return s res
         | Ok sub \<Rightarrow>
             if length sub = 1 then delete_one r t sub res s
             else
               (case GetField FieldUserLogin sub of
                  None \<Rightarrow> Boom_at s
                | Some fl \<Rightarrow>
                    let loginToRename = (case GetField FieldData sub of None \<Rightarrow> [] | Some f \<Rightarrow> EncodeString (sl (fd_Data f)));
                        userLogin = EncodeString (sl (fd_Data fl));
                        accountToUpdate = (if loginToRename \<noteq> [] then loginToRename else userLogin)
                    in (case am_Get accountToUpdate (sv_accounts s) of
                          Some acc \<Rightarrow> modify_one x r t acc sub userLogin res s
                        | None \<Rightarrow> create_one x r t sub userLogin res s))))"

fun edit_fields :: "externals \<Rightarrow> nat \<Rightarrow> transaction \<Rightarrow> hl_field list \<Rightarrow> transaction list \<Rightarrow> server \<Rightarrow> handled" where
  "edit_fields x r t [] res s = Done s (res @ [NewReply r t [] s])"
| "edit_fields x r t (f # fs) res s =
     (case edit_field x r t f res s of
        Next s1 res1 \<Rightarrow> edit_fields x r t fs res1 s1
      | Return s1 res1 \<Rightarrow> Done s1 res1
      | Boom_at s1 \<Rightarrow> Crash s1)"

definition HandleUpdateUser :: "externals \<Rightarrow> handler" where
  "HandleUpdateUser x r t s = edit_fields x r t (tr_Fields t) [] s"

section \<open>Connected users\<close>

text \<open>
  One line about a transfer: the name in 21 columns, the percentage, the size in 6 columns.  A size of
  less than four bytes, which a client can send, panics in \<^verbatim>\<open>Uint32\<close>.  Go ranges over the map of
  transfers in any order; the model keeps the order of the list.
\<close>

definition FileTransfer_String :: "externals \<Rightarrow> FileTransfer \<Rightarrow> bytes option" where
  "FileTransfer_String x ft =
     (if length (sl (ft_TransferSize ft)) < 4 then None
      else
        let sz = be_word (take 4 (sl (ft_TransferSize ft))); name = take 21 (runes (sl (ft_FileName ft)));
            n = x_size x sz
        in Some (concat name @ replicate (21 - length name) 32 @ go_str '' '' @
             concat (take 3 (runes (x_percent x (ft_sent ft) sz))) @ go_str ''%  '' @
             replicate (6 - length (runes n)) 32 @ n @ [10]))"

fun concat_some :: "bytes option list \<Rightarrow> bytes option" where
  "concat_some [] = Some []"
| "concat_some (v # vs) = (case v of None \<Rightarrow> None | Some b \<Rightarrow> map_option ((@) b) (concat_some vs))"

definition formatDownloadList :: "externals \<Rightarrow> FileTransfer list \<Rightarrow> bytes option" where
  "formatDownloadList x fts =
     (if fts = [] then Some (go_str ''None.'' @ [10]) else concat_some (map (FileTransfer_String x) fts))"

text \<open>\<^verbatim>\<open>String\<close> follows the pointer to the account.\<close>

definition client_info :: "externals \<Rightarrow> nat \<Rightarrow> server \<Rightarrow> bytes option" where
  "client_info x r s =
     (let nl = [10]; str = (\<lambda>v. Some (go_str v)); fmt = (\<lambda>ty. formatDownloadList x (cftm_Get ty r s)) in
      case cl_Account (cc s r) of
        None \<Rightarrow> None
      | Some a \<Rightarrow>
          map_option (ReplaceAll [10] [13]) (concat_some
            [str ''Nickname:   '', Some (cl_UserName (cc s r)), Some nl, str ''Name:       '', Some (ac_Name a), Some nl,
             str ''Account:    '', Some (ac_Login a), Some nl, str ''Address:    '', Some (cl_RemoteAddr (cc s r)),
             Some (nl @ nl), str ''-------- File Downloads ---------'', Some (nl @ nl), fmt FileDownload, Some nl,
             str ''------- Folder Downloads --------'', Some (nl @ nl), fmt FolderDownload, Some nl,
             str ''--------- File Uploads ----------'', Some (nl @ nl), fmt FileUpload, Some nl,
             str ''-------- Folder Uploads ---------'', Some (nl @ nl), fmt FolderUpload, Some nl,
             str ''------- Waiting Downloads -------'', Some (nl @ nl), str ''None.'', Some (nl @ nl)]))"

definition HandleGetClientInfoText :: "externals \<Rightarrow> handler" where
  "HandleGetClientInfoText x r t s =
     (if \<not> Authorize r AccessGetClientInfo s then Done s (NewErrReply r t ErrMsgNotAllowedGetClientInfo s)
      else
        (case arr2 (field_data t FieldUserID) of
           None \<Rightarrow> Crash s
         | Some clientID \<Rightarrow>
             (case ClientMgr_Get clientID s of
                None \<Rightarrow> Done s (NewErrReply r t ErrMsgUserNotFound s)
              | Some c \<Rightarrow>
                  (case client_info x c s of
                     None \<Rightarrow> Crash s
                   | Some info \<Rightarrow> Done s [NewReply r t
                       [NewField FieldData info, NewField FieldUserName (cl_UserName (cc s c))] s]))))"

definition set_options :: "nat \<Rightarrow> 16 word \<Rightarrow> server \<Rightarrow> server" where
  "set_options r options s = upd_conn r (\<lambda>c. c\<lparr>cl_Flags :=
     UserFlags_Set (UserFlags_Set (cl_Flags c) UserFlagRefusePM (bit options UserOptRefusePM))
       UserFlagRefusePChat (bit options UserOptRefuseChat)\<rparr>) s"

definition HandleTranAgreed :: "externals \<Rightarrow> handler" where
  "HandleTranAgreed x r t s =
     (case cl_Account (cc s r) of
        None \<Rightarrow> Crash s
      | Some a \<Rightarrow>
          let s1 = (case field_data t FieldUserName of
                None \<Rightarrow> s
              | Some n \<Rightarrow> upd_conn r (\<lambda>c. c\<lparr>cl_UserName := if Authorize r AccessAnyName s then n else ac_Name a\<rparr>) s);
              login = ac_Login a; ip = conn_IP r s1; nick = cl_UserName (cc s1 r);
              s2 = redis_SAdd (online login nick ip) (redis_SRem (online login [] ip) s1)
          in if nickname_banned nick s2 then
               (case ban_address x ip None (redis_SRem (online login nick ip) (redis_SRem (online login [] ip) s2)) of
                  None \<Rightarrow> Crash (redis_SRem (online login nick ip) (redis_SRem (online login [] ip) s2))
                | Some s3 \<Rightarrow> Done (Disconnect r s3) [])
             else
               let s3 = upd_conn r (\<lambda>c. c\<lparr>cl_Icon := field_data t FieldUserIconID\<rparr>) s2 in
               (case arr2 (field_data t FieldOptions) of
                  None \<Rightarrow> Crash s3
                | Some options \<Rightarrow>
                    let s4 = set_options r options s3;
                        s5 = (if bit options UserOptAutoResponse
                              then upd_conn r (\<lambda>c. c\<lparr>cl_AutoReply := sl (field_data t FieldAutomaticResponse)\<rparr>) s4 else s4)
                    in (case new_tran TranNotifyChangeUser 0
                            [NewField FieldUserName (cl_UserName (cc s5 r)), NewField FieldUserID (be16 (cl_ID (cc s5 r))),
                             NewField FieldUserIconID (sl (cl_Icon (cc s5 r))), NewField FieldUserFlags (be16 (cl_Flags (cc s5 r)))] s5 of
                          (n, s6) \<Rightarrow>
                            (case opt_tran (cf_BannerFile (sv_config s6) \<noteq> []) TranServerBanner (cl_ID (cc s6 r))
                                [NewField FieldBannerType (TypeCode (FileTypeFromFilename (cf_BannerFile (sv_config s6))))] s6 of
                               (b, s7) \<Rightarrow> Done s7 (NotifyOthers r n s6 @ b @ [NewReply r t [] s7])))))"

abbreviation (input) BanDuration :: time where "BanDuration \<equiv> 30 * 60 * 1000000000"

definition ban_message :: "bytes \<Rightarrow> nat \<Rightarrow> server \<Rightarrow> transaction \<times> server" where
  "ban_message msg c s = new_tran TranServerMsg (cl_ID (cc s c)) [NewField FieldData msg, NewField FieldChatOptions [0, 0]] s"

text \<open>Following the nil pointer of a client that is gone panics in \<^verbatim>\<open>Authorize\<close>.\<close>

definition HandleDisconnectUser :: "externals \<Rightarrow> handler" where
  "HandleDisconnectUser x r t s =
     (if \<not> Authorize r AccessDisconUser s then Done s (NewErrReply r t ErrMsgNotAllowedDisconnectUsers s)
      else
        (case arr2 (field_data t FieldUserID) of
           None \<Rightarrow> Crash s
         | Some clientID \<Rightarrow>
             (case ClientMgr_Get clientID s of
                None \<Rightarrow> Crash s
              | Some c \<Rightarrow>
                  if Authorize c AccessCannotBeDiscon s then
                    Done s (NewErrReply r t ((case cl_Account (cc s c) of Some a \<Rightarrow> ac_Login a | None \<Rightarrow> []) @
                      go_str '' is not allowed to be disconnected.'') s)
                  else
                    (case field_data t FieldOptions of
                       None \<Rightarrow> let s1 = disconnect_later c s in Done s1 [NewReply r t [] s1]
                     | Some opts \<Rightarrow>
                         if length opts < 2 then Crash s
                         else if opts ! 1 = 1 \<or> opts ! 1 = 2 then
                           (case ban_message (if opts ! 1 = 1 then ErrMsgTemporaryBan else ErrMsgPermanentBan) c s of
                              (m, s1) \<Rightarrow>
                                (case ban_address x (conn_IP c s1)
                                    (if opts ! 1 = 1 then Some (x_now x + BanDuration) else None) s1 of
                                   None \<Rightarrow> Crash s1
                                 | Some s2 \<Rightarrow> let s3 = disconnect_later c s2 in Done s3 [m, NewReply r t [] s3]))
                         else let s1 = disconnect_later c s in Done s1 [NewReply r t [] s1]))))"

definition HandleSetClientUserInfo :: "externals \<Rightarrow> handler" where
  "HandleSetClientUserInfo x r t s =
     (let icon = field_data t FieldUserIconID;
          s1 = upd_conn r (\<lambda>c. c\<lparr>cl_Icon := last_two icon\<rparr>) s;
          options = (\<lambda>s2.
            (case field_data t FieldOptions of
               None \<Rightarrow> fan_out_done TranNotifyChangeUser
                 [NewField FieldUserID (be16 (cl_ID (cc s2 r))), NewField FieldUserIconID (sl (cl_Icon (cc s2 r))),
                  NewField FieldUserFlags (be16 (cl_Flags (cc s2 r))), NewField FieldUserName (cl_UserName (cc s2 r))]
                 (ClientMgr_List s2) s2
             | Some _ \<Rightarrow>
                 (case arr2 (field_data t FieldOptions) of
                    None \<Rightarrow> Crash s2
                  | Some opts \<Rightarrow>
                      let s3 = upd_conn r (\<lambda>c. c\<lparr>cl_AutoReply :=
                            if bit opts UserOptAutoResponse then sl (field_data t FieldAutomaticResponse) else []\<rparr>)
                          (set_options r opts s2)
                      in fan_out_done TranNotifyChangeUser
                           [NewField FieldUserID (be16 (cl_ID (cc s3 r))), NewField FieldUserIconID (sl (cl_Icon (cc s3 r))),
                            NewField FieldUserFlags (be16 (cl_Flags (cc s3 r))), NewField FieldUserName (cl_UserName (cc s3 r))]
                           (ClientMgr_List s3) s3)))
      in if \<not> Authorize r AccessAnyName s1 then options s1
         else
           let old = cl_UserName (cc s1 r); new = sl (field_data t FieldUserName);
               s2 = upd_conn r (\<lambda>c. c\<lparr>cl_UserName := new\<rparr>) s1;
               login = (case cl_Account (cc s2 r) of Some a \<Rightarrow> ac_Login a | None \<Rightarrow> []);
               ip = conn_IP r s2;
               drop_old = (\<lambda>s. if old \<noteq> [] then redis_SRem (online login old ip) s else s);
               s3 = redis_SAdd (online login new ip) (drop_old (redis_SRem (online login [] ip) s2))
           in if nickname_banned new s3 then
                let s4 = drop_old (redis_SRem (online login new ip) (redis_SRem (online login [] ip) s3)) in
                (case ban_address x ip None s4 of
                   None \<Rightarrow> Crash s4
                 | Some s5 \<Rightarrow> Done (Disconnect r s5) [])
              else options s3)"

section \<open>The banner\<close>

definition HandleDownloadBanner :: handler where
  "HandleDownloadBanner r t s =
     (case NewFileTransfer r BannerDownload [] (Some []) (Some []) (Some (be32 (u32 (length (sv_Banner s))))) s of
        (f, s1) \<Rightarrow> Done s1 [NewReply r t
          [NewField FieldRefNum (be32 (ft_RefNum (sv_fts s1 f))),
           NewField FieldTransferSize (sl (ft_TransferSize (sv_fts s1 f)))] s1])"

end
