(* ===== verification/HL_News_Handlers.thy ===== *)
theory HL_News_Handlers
  imports HL_User_Handlers
begin

text \<open>
  The handlers of \<^verbatim>\<open>internal/mobius/transaction_handlers.go\<close> for the message board and the threaded news.
\<close>

section \<open>Messages\<close>

definition ErrMsgNotAllowedReadNews :: bytes where
  "ErrMsgNotAllowedReadNews = go_str ''You are not allowed to read news.''"
definition ErrMsgNotAllowedPostNews :: bytes where
  "ErrMsgNotAllowedPostNews = go_str ''You are not allowed to post news.''"
definition ErrMsgNotAllowedCreateNewsCategories :: bytes where
  "ErrMsgNotAllowedCreateNewsCategories = go_str ''You are not allowed to create news categories.''"
definition ErrMsgNotAllowedDeleteNewsArticles :: bytes where
  "ErrMsgNotAllowedDeleteNewsArticles = go_str ''You are not allowed to delete news articles.''"
definition ErrMsgNotAllowedCreateNewsfolders :: bytes where
  "ErrMsgNotAllowedCreateNewsfolders = go_str ''You are not allowed to create news folders.''"
definition ErrMsgNotAllowedDeleteNewsCategories :: bytes where
  "ErrMsgNotAllowedDeleteNewsCategories = go_str ''You are not allowed to delete news categories.''"
definition ErrMsgNotAllowedDeleteNewsFolders :: bytes where
  "ErrMsgNotAllowedDeleteNewsFolders = go_str ''You are not allowed to delete news folders.''"
definition ErrMsgNotAllowedPostNewsArticles :: bytes where
  "ErrMsgNotAllowedPostNewsArticles = go_str ''You are not allowed to post news articles.''"
definition ErrMsgCreateNewsCategory :: bytes where
  "ErrMsgCreateNewsCategory = go_str ''Error creating news category.''"
definition ErrMsgCreateNewsFolder :: bytes where
  "ErrMsgCreateNewsFolder = go_str ''Error creating news folder.''"
definition ErrMsgDeleteNewsArticle :: bytes where
  "ErrMsgDeleteNewsArticle = go_str ''Error deleting news article.''"
definition ErrMsgPostNewsArticle :: bytes where
  "ErrMsgPostNewsArticle = go_str ''Error posting news article.''"

section \<open>The message board\<close>

definition NewsDateFormat :: bytes where
  "NewsDateFormat = go_str ''Jan02 15:04''"

text \<open>The default template \<^verbatim>\<open>From %s (%s):\<close>, an empty line, \<^verbatim>\<open>%s\<close>, an empty line, a ruler, with its values.\<close>

definition NewsTemplate :: "bytes list \<Rightarrow> bytes" where
  "NewsTemplate vs = go_str ''From '' @ vs ! 0 @ go_str '' ('' @ vs ! 1 @ go_str ''):'' @ [10, 10] @ vs ! 2 @
     [10, 10] @ go_str (replicate 58 (CHR ''_''))"

definition news_post :: "externals \<Rightarrow> bytes \<Rightarrow> bytes \<Rightarrow> server \<Rightarrow> bytes" where
  "news_post x userName dat s =
     (let dateFormat = (if cf_NewsDateFormat (sv_config s) \<noteq> [] then cf_NewsDateFormat (sv_config s) else NewsDateFormat);
          vs = [userName, ca_format (x_calendar x) (x_now x) dateFormat, dat]
      in ReplaceAll [10] [13]
           (if cf_NewsDelimiter (sv_config s) \<noteq> [] then x_sprintf x (cf_NewsDelimiter (sv_config s) @ [13]) vs
            else NewsTemplate vs @ [13]))"

definition HandleTranOldPostNews :: "externals \<Rightarrow> handler" where
  "HandleTranOldPostNews x r t s =
     (if \<not> Authorize r AccessNewsPostArt s then Done s (NewErrReply r t ErrMsgNotAllowedPostNews s)
      else
        let newsPost = news_post x (cl_UserName (cc s r)) (sl (field_data t FieldData)) s in
        (case FlatNews_Write newsPost (sv_board s, sv_disk s) of
           (Some e, b, d) \<Rightarrow> Done (s\<lparr>sv_board := b, sv_disk := d\<rparr>) []
         | (None, b, d) \<Rightarrow>
             let s1 = SendAll TranNewMsg [NewField FieldData newsPost] (s\<lparr>sv_board := b, sv_disk := d\<rparr>)
             in Done s1 [NewReply r t [] s1]))"

definition HandleGetMsgs :: "externals \<Rightarrow> handler" where
  "HandleGetMsgs x r t s =
     (if \<not> Authorize r AccessNewsReadArt s then Done s (NewErrReply r t ErrMsgNotAllowedReadNews s)
      else
        (case FlatNews_ReadAll (x_buf x) (FlatNews_Seek 0 (sv_board s)) of
           (newsData, b) \<Rightarrow> Done (s\<lparr>sv_board := b\<rparr>) [NewReply r t [NewField FieldData newsData] s]))"

section \<open>Threaded news\<close>

definition on_news :: "(ThreadedNewsYAML \<times> disk \<Rightarrow> news_result \<times> ThreadedNewsYAML \<times> disk) \<Rightarrow>
    server \<Rightarrow> news_result \<times> server" where
  "on_news f s = (case f (sv_news s, sv_disk s) of (e, n, d) \<Rightarrow> (e, s\<lparr>sv_news := n, sv_disk := d\<rparr>))"

text \<open>What a handler does with the path of a request, and what becomes of the result of an operation.\<close>

definition with_path :: "transaction \<Rightarrow> server \<Rightarrow> (bytes list \<Rightarrow> handled) \<Rightarrow> handled" where
  "with_path t s k =
     (case Field_DecodeNewsPath (Tran_GetField FieldNewsPath t) of
        Panic \<Rightarrow> Crash s | Err e \<Rightarrow> Done s [] | Ok path \<Rightarrow> k path)"

definition with_int :: "FieldType \<Rightarrow> transaction \<Rightarrow> server \<Rightarrow> (32 word \<Rightarrow> handled) \<Rightarrow> handled" where
  "with_int ty t s k =
     (case Field_DecodeInt (Tran_GetField ty t) of Panic \<Rightarrow> Crash s | Err e \<Rightarrow> Done s [] | Ok n \<Rightarrow> k (u32 n))"

definition news_reply :: "nat \<Rightarrow> transaction \<Rightarrow> (server \<Rightarrow> transaction list) \<Rightarrow> news_result \<times> server \<Rightarrow> handled" where
  "news_reply r t on_err z =
     (case z of
        (N_panic, s) \<Rightarrow> Crash s
      | (N_err e, s) \<Rightarrow> Done s (on_err s)
      | (N_ok, s) \<Rightarrow> Done s [NewReply r t [] s])"

definition HandleGetNewsCatNameList :: handler where
  "HandleGetNewsCatNameList r t s =
     (if \<not> Authorize r AccessNewsReadArt s then Done s (NewErrReply r t ErrMsgNotAllowedReadNews s)
      else with_path t s (\<lambda>path. Done s [NewReply r t
        (map (\<lambda>c. NewField FieldNewsCatListData15 (NewsCat_bytes c)) (tn_GetCategories path (sv_news s))) s]))"

definition HandleNewNewsCat :: "externals \<Rightarrow> handler" where
  "HandleNewNewsCat x r t s =
     (if \<not> Authorize r AccessNewsCreateCat s then Done s (NewErrReply r t ErrMsgNotAllowedCreateNewsCategories s)
      else with_path t s (\<lambda>path. news_reply r t (NewErrReply r t ErrMsgCreateNewsCategory)
        (on_news (tn_CreateGrouping (x_news_yaml x) path (sl (field_data t FieldNewsCatName)) NewsCategory) s)))"

definition HandleNewNewsFldr :: "externals \<Rightarrow> handler" where
  "HandleNewNewsFldr x r t s =
     (if \<not> Authorize r AccessNewsCreateFldr s then Done s (NewErrReply r t ErrMsgNotAllowedCreateNewsfolders s)
      else with_path t s (\<lambda>path. news_reply r t (NewErrReply r t ErrMsgCreateNewsFolder)
        (on_news (tn_CreateGrouping (x_news_yaml x) path (sl (field_data t FieldFileName)) NewsBundle) s)))"

definition HandleGetNewsArtNameList :: handler where
  "HandleGetNewsArtNameList r t s =
     (if \<not> Authorize r AccessNewsReadArt s then Done s (NewErrReply r t ErrMsgNotAllowedReadNews s)
      else with_path t s (\<lambda>path.
        (case tn_ListArticles path (sv_news s) of
           Panic \<Rightarrow> Crash s
         | Err e \<Rightarrow> Done s []
         | Ok nald \<Rightarrow> Done s [NewReply r t [NewField FieldNewsArtListData (NewsArtListData_bytes nald)] s])))"

definition article_fields :: "NewsArtData \<Rightarrow> hl_field list" where
  "article_fields art =
     [NewField FieldNewsArtTitle (na_Title art), NewField FieldNewsArtPoster (na_Poster art),
      NewField FieldNewsArtDate (be64 (na_Date art)), NewField FieldNewsArtPrevArt (be32 (na_PrevArt art)),
      NewField FieldNewsArtNextArt (be32 (na_NextArt art)), NewField FieldNewsArtParentArt (be32 (na_ParentArt art)),
      NewField FieldNewsArt1stChildArt (be32 (na_FirstChildArt art)),
      NewField FieldNewsArtDataFlav (go_str ''text/plain''), NewField FieldNewsArtData (na_Data art)]"

definition HandleGetNewsArtData :: handler where
  "HandleGetNewsArtData r t s =
     (if \<not> Authorize r AccessNewsReadArt s then Done s (NewErrReply r t ErrMsgNotAllowedReadNews s)
      else with_path t s (\<lambda>path. with_int FieldNewsArtID t s (\<lambda>i.
        (case tn_GetArticle path i (sv_news s) of
           None \<Rightarrow> Done s [NewReply r t [] s]
         | Some art \<Rightarrow> Done s [NewReply r t (article_fields art) s]))))"

text \<open>The access that is needed depends on the item found, so the path is read first.\<close>

definition HandleDelNewsItem :: "externals \<Rightarrow> handler" where
  "HandleDelNewsItem x r t s = with_path t s (\<lambda>path.
     if path = [] then Done s []
     else
       let cat = nc_Type (tn_NewsItem path (sv_news s)) = NewsCategory in
       if cat \<and> \<not> Authorize r AccessNewsDeleteCat s then Done s (NewErrReply r t ErrMsgNotAllowedDeleteNewsCategories s)
       else if \<not> cat \<and> \<not> Authorize r AccessNewsDeleteFldr s then Done s (NewErrReply r t ErrMsgNotAllowedDeleteNewsFolders s)
       else news_reply r t (\<lambda>_. []) (on_news (tn_DeleteNewsItem (x_news_yaml x) path) s))"

text \<open>The flag for a recursive delete is read but \<^verbatim>\<open>DeleteArticle\<close> does not use it.\<close>

definition HandleDelNewsArt :: "externals \<Rightarrow> handler" where
  "HandleDelNewsArt x r t s =
     (if \<not> Authorize r AccessNewsDeleteArt s then Done s (NewErrReply r t ErrMsgNotAllowedDeleteNewsArticles s)
      else with_path t s (\<lambda>path. with_int FieldNewsArtID t s (\<lambda>i.
        news_reply r t (NewErrReply r t ErrMsgDeleteNewsArticle)
          (on_news (tn_DeleteArticle (x_news_yaml x) path i) s))))"

definition HandlePostNewsArt :: "externals \<Rightarrow> handler" where
  "HandlePostNewsArt x r t s =
     (if \<not> Authorize r AccessNewsPostArt s then Done s (NewErrReply r t ErrMsgNotAllowedPostNewsArticles s)
      else with_path t s (\<lambda>path.
        if path = [] then Done s []
        else with_int FieldNewsArtID t s (\<lambda>parentID.
          let art = \<lparr>na_Title = sl (field_data t FieldNewsArtTitle), na_Poster = cl_UserName (cc s r),
                na_Date = NewTime (x_calendar x) (x_now x), na_PrevArt = 0, na_NextArt = 0, na_ParentArt = 0,
                na_FirstChildArt = 0, na_DataFlav = NewsFlavor, na_Data = sl (field_data t FieldNewsArtData)\<rparr>
          in news_reply r t (NewErrReply r t ErrMsgPostNewsArticle)
               (on_news (tn_PostArticle (x_news_yaml x) path parentID art) s))))"

end
