(* ===== verification/HL_File_Handlers.thy ===== *)
theory HL_File_Handlers
  imports HL_News_Handlers
begin

text \<open>
  The handlers of \<^verbatim>\<open>internal/mobius/transaction_handlers.go\<close> for the shared files, and the table of all
  handlers.
\<close>

section \<open>Messages\<close>

definition ErrMsgNotAllowedSetCommentsFiles :: bytes where
  "ErrMsgNotAllowedSetCommentsFiles = go_str ''You are not allowed to set comments for files.''"
definition ErrMsgNotAllowedSetCommentsFolders :: bytes where
  "ErrMsgNotAllowedSetCommentsFolders = go_str ''You are not allowed to set comments for folders.''"
definition ErrMsgNotAllowedRenameFiles :: bytes where
  "ErrMsgNotAllowedRenameFiles = go_str ''You are not allowed to rename files.''"
definition ErrMsgNotAllowedRenameFolders :: bytes where
  "ErrMsgNotAllowedRenameFolders = go_str ''You are not allowed to rename folders.''"
definition ErrMsgNotAllowedDeleteFiles :: bytes where
  "ErrMsgNotAllowedDeleteFiles = go_str ''You are not allowed to delete files.''"
definition ErrMsgNotAllowedDeleteFolders :: bytes where
  "ErrMsgNotAllowedDeleteFolders = go_str ''You are not allowed to delete folders.''"
definition ErrMsgNotAllowedMoveFiles :: bytes where
  "ErrMsgNotAllowedMoveFiles = go_str ''You are not allowed to move files.''"
definition ErrMsgNotAllowedMoveFolders :: bytes where
  "ErrMsgNotAllowedMoveFolders = go_str ''You are not allowed to move folders.''"
definition ErrMsgNotAllowedCreateFolders :: bytes where
  "ErrMsgNotAllowedCreateFolders = go_str ''You are not allowed to create folders.''"
definition ErrMsgNotAllowedDownloadFiles :: bytes where
  "ErrMsgNotAllowedDownloadFiles = go_str ''You are not allowed to download files.''"
definition ErrMsgNotAllowedDownloadFolders :: bytes where
  "ErrMsgNotAllowedDownloadFolders = go_str ''You are not allowed to download folders.''"
definition ErrMsgNotAllowedUploadFiles :: bytes where
  "ErrMsgNotAllowedUploadFiles = go_str ''You are not allowed to upload files.''"
definition ErrMsgNotAllowedUploadFolders :: bytes where
  "ErrMsgNotAllowedUploadFolders = go_str ''You are not allowed to upload folders.''"
definition ErrMsgNotAllowedViewDropBoxes :: bytes where
  "ErrMsgNotAllowedViewDropBoxes = go_str ''You are not allowed to view drop boxes.''"
definition ErrMsgNotAllowedMakeAliases :: bytes where
  "ErrMsgNotAllowedMakeAliases = go_str ''You are not allowed to make aliases.''"
definition ErrMsgCreateAlias :: bytes where
  "ErrMsgCreateAlias = go_str ''Error creating alias''"

definition ErrMsgCannotRenameFileNotFound :: "bytes \<Rightarrow> bytes" where
  "ErrMsgCannotRenameFileNotFound n = go_str ''Cannot rename file '' @ n @ go_str '' because it does not exist or cannot be found.''"
definition ErrMsgCannotRenameFolderNotFound :: "bytes \<Rightarrow> bytes" where
  "ErrMsgCannotRenameFolderNotFound n = go_str ''Cannot rename folder '' @ n @ go_str '' because it does not exist or cannot be found.''"
definition ErrMsgCannotDeleteFileNotFound :: "bytes \<Rightarrow> bytes" where
  "ErrMsgCannotDeleteFileNotFound n = go_str ''Cannot delete file '' @ n @ go_str '' because it does not exist or cannot be found.''"
definition ErrMsgFolderCreateConflictTemplate :: "bytes \<Rightarrow> bytes" where
  "ErrMsgFolderCreateConflictTemplate n = go_str ''Cannot create folder '' @ [34] @ n @ [34] @
     go_str '' because there is already a file or folder with that Name.''"
definition ErrMsgFolderCreateErrorTemplate :: "bytes \<Rightarrow> bytes" where
  "ErrMsgFolderCreateErrorTemplate n = go_str ''Cannot create folder '' @ [34] @ n @ [34] @ go_str '' because an error occurred.''"
definition ErrMsgUploadRestrictedTemplate :: "bytes \<Rightarrow> bytes \<Rightarrow> bytes" where
  "ErrMsgUploadRestrictedTemplate what n = go_str ''Cannot accept upload of the '' @ what @ go_str '' '' @ [34] @ n @ [34] @
     go_str '' because you are only allowed to upload to the '' @ [34] @ go_str ''Uploads'' @ [34] @ go_str '' folder.''"
definition ErrMsgFileUploadConflictTemplate :: "bytes \<Rightarrow> bytes" where
  "ErrMsgFileUploadConflictTemplate n = go_str ''Cannot accept upload because there is already a file named '' @ [34] @ n @ [34] @
     go_str ''. Try choosing a different Name.''"

section \<open>Paths and files of a request\<close>

text \<open>
  \<open>with_read_path\<close> is \<^verbatim>\<open>ReadPath(cc.FileRoot(), ...)\<close>, whose failure makes the handler return nothing; the
  root of a connection without account follows a nil pointer.  \<open>with_file\<close> is \<^verbatim>\<open>NewFile\<close>, likewise.
\<close>

definition with_read_path :: "externals \<Rightarrow> nat \<Rightarrow> slice \<Rightarrow> slice \<Rightarrow> server \<Rightarrow> (bytes \<Rightarrow> handled) \<Rightarrow> handled" where
  "with_read_path x r filePath fileName s k =
     (case FileRoot r s of
        None \<Rightarrow> Crash s
      | Some root \<Rightarrow>
          (case ReadPath (x_decode x) root filePath fileName of
             Panic \<Rightarrow> Crash s | Err e \<Rightarrow> Done s [] | Ok p \<Rightarrow> k p))"

definition with_file :: "externals \<Rightarrow> bytes \<Rightarrow> nat \<Rightarrow> server \<Rightarrow> (File \<Rightarrow> server \<Rightarrow> handled) \<Rightarrow> handled" where
  "with_file x p off s k =
     (case NewFile (x_calendar x) p off (sv_files s) of
        (Panic, fs) \<Rightarrow> Crash (s\<lparr>sv_files := fs\<rparr>)
      | (Err e, fs) \<Rightarrow> Done (s\<lparr>sv_files := fs\<rparr>) []
      | (Ok f, fs) \<Rightarrow> k f (s\<lparr>sv_files := fs\<rparr>))"

definition on_files :: "(filesystem \<Rightarrow> 'a \<times> filesystem) \<Rightarrow> server \<Rightarrow> 'a \<times> server" where
  "on_files f s = (case f (sv_files s) of (v, fs) \<Rightarrow> (v, s\<lparr>sv_files := fs\<rparr>))"

definition file_info_fields :: "File \<Rightarrow> bytes \<Rightarrow> hl_field list" where
  "file_info_fields fw encodedName =
     (let i = fo_InfoFork (fl_Ffo fw) in
      [NewField FieldFileName encodedName, NewField FieldFileTypeString (ffif_FriendlyType i),
       NewField FieldFileCreatorString (ffif_FriendlyCreator i), NewField FieldFileType (be32 (if_TypeSignature i)),
       NewField FieldFileCreateDate (be64 (if_CreateDate i)), NewField FieldFileModifyDate (be64 (if_ModifyDate i))] @
      (if if_Comment i \<noteq> [] then [NewField FieldFileComment (if_Comment i)] else []))"

definition HandleGetFileInfo :: "externals \<Rightarrow> handler" where
  "HandleGetFileInfo x r t s =
     with_read_path x r (field_data t FieldFilePath) (field_data t FieldFileName) s (\<lambda>p.
       with_file x p 0 s (\<lambda>fw s1.
         (case x_encode x (fl_Name fw) of
            None \<Rightarrow> Done s1 []
          | Some encodedName \<Rightarrow>
              let fields = file_info_fields fw encodedName in
              if if_TypeSignature (fo_InfoFork (fl_Ffo fw)) \<noteq> sig4 (go_str ''fldr'') then
                (case on_files (file_TotalSize fw) s1 of
                   (n, s2) \<Rightarrow> Done s2 [NewReply r t (fields @ [NewField FieldFileSize (be32 n)]) s2])
              else Done s1 [NewReply r t fields s1])))"

text \<open>
  Setting a comment: the information fork goes into its file.  \<open>Inl\<close> ends the handler with the given
  transactions.
\<close>

definition set_comment :: "nat \<Rightarrow> transaction \<Rightarrow> file_mode \<Rightarrow> File \<Rightarrow> bytes \<Rightarrow> server \<Rightarrow> (transaction list + unit) \<times> server" where
  "set_comment r t mode f comment s =
     (if mode = ModeDir \<and> \<not> Authorize r AccessSetFolderComment s then (Inl (NewErrReply r t ErrMsgNotAllowedSetCommentsFolders s), s)
      else if mode = ModeRegular \<and> \<not> Authorize r AccessSetFileComment s then (Inl (NewErrReply r t ErrMsgNotAllowedSetCommentsFiles s), s)
      else
        let info = ffif_SetComment (fo_InfoFork (fl_Ffo f)) comment in
        (case on_files (file_InfoForkWriter f) s of
           (Inl e, s1) \<Rightarrow> (Inl [], s1)
         | (Inr q, s1) \<Rightarrow>
             (case on_files (FS_Append q (ffif_bytes info)) s1 of
                (Inl e, s2) \<Rightarrow> (Inl [], s2)
              | (Inr u, s2) \<Rightarrow> (Inr (), s2))))"

text \<open>
  Renaming: a folder goes to the path that \<^verbatim>\<open>ReadPath\<close> made of the new name, but the new name of a file
  is only decoded before \<^verbatim>\<open>Move\<close> joins it to the folder.
\<close>

definition rename_entry :: "externals \<Rightarrow> nat \<Rightarrow> transaction \<Rightarrow> file_mode \<Rightarrow> File \<Rightarrow> bytes \<Rightarrow> bytes \<Rightarrow> bytes \<Rightarrow> server \<Rightarrow> handled" where
  "rename_entry x r t mode f fullFilePath fullNewFilePath fileNewName s =
     (let fileName = sl (field_data t FieldFileName) in
      if mode = ModeDir then
        (if \<not> Authorize r AccessRenameFolder s then Done s (NewErrReply r t ErrMsgNotAllowedRenameFolders s)
         else
           (case on_files (FS_Rename fullFilePath fullNewFilePath) s of
              (e, s1) \<Rightarrow>
                if e = Inl NotExist then Done s1 (NewErrReply r t (ErrMsgCannotRenameFolderNotFound fileName) s1)
                else Done s1 [NewReply r t [] s1]))
      else if mode = ModeRegular then
        (if \<not> Authorize r AccessRenameFile s then Done s (NewErrReply r t ErrMsgNotAllowedRenameFiles s)
         else
           with_read_path x r (field_data t FieldFilePath) (Some []) s (\<lambda>fileDir.
             (case x_decode x fileNewName of
                None \<Rightarrow> Done s []
              | Some name \<Rightarrow>
                  (case on_files (file_Move fileDir (f\<lparr>fl_Name := name\<rparr>)) s of
                     (Some e, s1) \<Rightarrow>
                       if e = NotExist then Done s1 (NewErrReply r t (ErrMsgCannotRenameFileNotFound fileName) s1)
                       else Done s1 []
                   | (None, s1) \<Rightarrow> Done s1 [NewReply r t [] s1]))))
      else Done s [NewReply r t [] s])"

definition HandleSetFileInfo :: "externals \<Rightarrow> handler" where
  "HandleSetFileInfo x r t s =
     with_read_path x r (field_data t FieldFilePath) (field_data t FieldFileName) s (\<lambda>fullFilePath.
       (case on_files (FS_Stat fullFilePath) s of
          (Inl e, s1) \<Rightarrow> Done s1 []
        | (Inr fi, s1) \<Rightarrow>
            with_file x fullFilePath 0 s1 (\<lambda>hlFile s2.
              (case (case field_data t FieldFileComment of
                       None \<Rightarrow> (Inr (), s2)
                     | Some comment \<Rightarrow> set_comment r t (nf_Mode fi) hlFile comment s2) of
                 (Inl ts, s3) \<Rightarrow> Done s3 ts
               | (Inr u, s3) \<Rightarrow>
                   with_read_path x r (field_data t FieldFilePath) (field_data t FieldFileNewName) s3 (\<lambda>fullNewFilePath.
                     (case field_data t FieldFileNewName of
                        None \<Rightarrow> Done s3 [NewReply r t [] s3]
                      | Some fileNewName \<Rightarrow>
                          rename_entry x r t (nf_Mode fi) hlFile fullFilePath fullNewFilePath fileNewName s3))))))"

definition HandleDeleteFile :: "externals \<Rightarrow> handler" where
  "HandleDeleteFile x r t s =
     with_read_path x r (field_data t FieldFilePath) (field_data t FieldFileName) s (\<lambda>fullFilePath.
       with_file x fullFilePath 0 s (\<lambda>hlFile s1.
         (case on_files (file_DataFile hlFile) s1 of
            (Inl e, s2) \<Rightarrow> Done s2 (NewErrReply r t (ErrMsgCannotDeleteFileNotFound (sl (field_data t FieldFileName))) s2)
          | (Inr fi, s2) \<Rightarrow>
              if nf_Mode fi = ModeDir \<and> \<not> Authorize r AccessDeleteFolder s2 then
                Done s2 (NewErrReply r t ErrMsgNotAllowedDeleteFolders s2)
              else if nf_Mode fi = ModeRegular \<and> \<not> Authorize r AccessDeleteFile s2 then
                Done s2 (NewErrReply r t ErrMsgNotAllowedDeleteFiles s2)
              else
                (case on_files (file_Delete hlFile) s2 of
                   (Some e, s3) \<Rightarrow> Done s3 []
                 | (None, s3) \<Rightarrow> Done s3 [NewReply r t [] s3]))))"

definition HandleMoveFile :: "externals \<Rightarrow> handler" where
  "HandleMoveFile x r t s =
     with_read_path x r (field_data t FieldFilePath) (field_data t FieldFileName) s (\<lambda>filePath.
       with_read_path x r (field_data t FieldFileNewPath) None s (\<lambda>fileNewPath.
         with_file x filePath 0 s (\<lambda>hlFile s1.
           (case on_files (file_DataFile hlFile) s1 of
              (Inl e, s2) \<Rightarrow> Done s2 (NewErrReply r t (ErrMsgCannotDeleteFileNotFound (sl (field_data t FieldFileName))) s2)
            | (Inr fi, s2) \<Rightarrow>
                if nf_Mode fi = ModeDir \<and> \<not> Authorize r AccessMoveFolder s2 then
                  Done s2 (NewErrReply r t ErrMsgNotAllowedMoveFolders s2)
                else if nf_Mode fi = ModeRegular \<and> \<not> Authorize r AccessMoveFile s2 then
                  Done s2 (NewErrReply r t ErrMsgNotAllowedMoveFiles s2)
                else
                  (case on_files (file_Move fileNewPath hlFile) s2 of
                     (Some e, s3) \<Rightarrow> Done s3 []
                   | (None, s3) \<Rightarrow> Done s3 [NewReply r t [] s3])))))"

section \<open>New folders and aliases\<close>

definition HandleNewFolder :: "externals \<Rightarrow> handler" where
  "HandleNewFolder x r t s =
     (if \<not> Authorize r AccessCreateFolder s then Done s (NewErrReply r t ErrMsgNotAllowedCreateFolders s)
      else
        let folderName = path_Join [[slash], sl (field_data t FieldFileName)] in
        (case (case field_data t FieldFilePath of
                 None \<Rightarrow> Ok []
               | Some b \<Rightarrow> obind (FilePath_Write zero_path b) (\<lambda>fp. Ok (sub_path (fp_Items fp)))) of
           Panic \<Rightarrow> Crash s
         | Err e \<Rightarrow> Done s []
         | Ok sub \<Rightarrow>
             (case (x_decode x sub, x_decode x folderName) of
                (Some subPath, Some folder) \<Rightarrow>
                  (case FileRoot r s of
                     None \<Rightarrow> Crash s
                   | Some root \<Rightarrow>
                       let newFolderPath = path_Join [root, subPath, folder] in
                       (case on_files (FS_Stat newFolderPath) s of
                          (e, s1) \<Rightarrow>
                            if e \<noteq> Inl NotExist then Done s1 (NewErrReply r t (ErrMsgFolderCreateConflictTemplate folder) s1)
                            else
                              (case on_files (FS_Mkdir newFolderPath) s1 of
                                 (Inl e, s2) \<Rightarrow> Done s2 (NewErrReply r t (ErrMsgFolderCreateErrorTemplate folder) s2)
                               | (Inr u, s2) \<Rightarrow> Done s2 [NewReply r t [] s2])))
              | _ \<Rightarrow> Done s [])))"

definition HandleMakeAlias :: "externals \<Rightarrow> handler" where
  "HandleMakeAlias x r t s =
     (if \<not> Authorize r AccessMakeAlias s then Done s (NewErrReply r t ErrMsgNotAllowedMakeAliases s)
      else
        with_read_path x r (field_data t FieldFilePath) (field_data t FieldFileName) s (\<lambda>fullFilePath.
          with_read_path x r (field_data t FieldFileNewPath) (field_data t FieldFileName) s (\<lambda>fullNewFilePath.
            (case on_files (FS_Symlink fullFilePath fullNewFilePath) s of
               (Inl e, s1) \<Rightarrow> Done s1 (NewErrReply r t ErrMsgCreateAlias s1)
             | (Inr u, s1) \<Rightarrow> Done s1 [NewReply r t [] s1]))))"

definition CannotGetFileList :: bytes where
  "CannotGetFileList = go_str ''Cannot get file list.''"

definition HandleGetFileNameList :: "externals \<Rightarrow> handler" where
  "HandleGetFileNameList x r t s =
     (let filePath = field_data t FieldFilePath; failed = Done s (NewErrReply r t CannotGetFileList s) in
      case FileRoot r s of
        None \<Rightarrow> Crash s
      | Some root \<Rightarrow>
          (case ReadPath (x_decode x) root filePath None of
             Panic \<Rightarrow> Crash s
           | Err e \<Rightarrow> failed
           | Ok fullPath \<Rightarrow>
               (case (case filePath of None \<Rightarrow> Ok zero_path | Some b \<Rightarrow> FilePath_Write zero_path b) of
                  Panic \<Rightarrow> Crash s
                | Err e \<Rightarrow> failed
                | Ok fp \<Rightarrow>
                    (case FilePath_IsDropbox fp of
                       Panic \<Rightarrow> Crash s
                     | Err e \<Rightarrow> Crash s
                     | Ok box \<Rightarrow>
                         if box \<and> \<not> Authorize r AccessViewDropBoxes s then
                           Done s (NewErrReply r t ErrMsgNotAllowedViewDropBoxes s)
                         else
                           (case on_files (GetFileNameList (x_calendar x) (x_regexp x) (x_encode x) fullPath
                                   (cf_IgnoreFiles (sv_config s))) s of
                              (Panic, s1) \<Rightarrow> Crash s1
                            | (Err e, s1) \<Rightarrow> Done s1 (NewErrReply r t CannotGetFileList s1)
                            | (Ok fileNames, s1) \<Rightarrow> Done s1 [NewReply r t fileNames s1])))))"

section \<open>Transfers\<close>

definition HandleDownloadFile :: "externals \<Rightarrow> handler" where
  "HandleDownloadFile x r t s =
     (if \<not> Authorize r AccessDownloadFile s then Done s (NewErrReply r t ErrMsgNotAllowedDownloadFiles s)
      else
        let resumeData = field_data t FieldFileResumeData;
            frd = (case resumeData of None \<Rightarrow> Ok None | Some b \<Rightarrow> obind (FileResumeData_UnmarshalBinary zero_resume b) (\<lambda>f. Ok (Some f)))
        in (case frd of
              Panic \<Rightarrow> Crash s
            | Err e \<Rightarrow> Done s []
            | Ok resume \<Rightarrow>
                if (case resume of None \<Rightarrow> False | Some f \<Rightarrow> fr_ForkInfoList f = []) then Crash s
                else
                  let dataOffset = (case resume of None \<Rightarrow> 0 | Some f \<Rightarrow> unat (fi_DataSize (fr_ForkInfoList f ! 0))) in
                  with_read_path x r (field_data t FieldFilePath) (field_data t FieldFileName) s (\<lambda>fullFilePath.
                    with_file x fullFilePath dataOffset s (\<lambda>hlFile s1.
                      let size0 = be32 (ffo_TransferSize (fl_Ffo hlFile) 0);
                          dataSize = be32 (ff_DataSize (fo_DataForkHeader (fl_Ffo hlFile)));
                          options = field_data t FieldFileTransferOptions
                      in (case NewFileTransfer r FileDownload (the (FileRoot r s1)) (field_data t FieldFileName)
                              (field_data t FieldFilePath) (Some size0) s1 of
                            (f, s2) \<Rightarrow>
                              let s3 = upd_ft f (\<lambda>ft. ft\<lparr>ft_FileResumeData := resume,
                                    ft_Options := if options \<noteq> None then options else ft_Options ft\<rparr>) s2
                              in Done s3 [NewReply r t
                                   [NewField FieldRefNum (be32 (ft_RefNum (sv_fts s3 f))), NewField FieldWaitingCount [0, 0],
                                    NewField FieldTransferSize (if options \<noteq> None then dataSize else size0),
                                    NewField FieldFileSize dataSize] s3])))))"

definition HandleDownloadFolder :: "externals \<Rightarrow> handler" where
  "HandleDownloadFolder x r t s =
     (if \<not> Authorize r AccessDownloadFolder s then Done s (NewErrReply r t ErrMsgNotAllowedDownloadFolders s)
      else
        with_read_path x r (field_data t FieldFilePath) (field_data t FieldFileName) s (\<lambda>fullFilePath.
          (case on_files (CalcTotalSize fullFilePath) s of
             (Inl e, s1) \<Rightarrow> Done s1 []
           | (Inr transferSize, s1) \<Rightarrow>
               (case on_files (CalcItemCount fullFilePath) s1 of
                  (Inl e, s2) \<Rightarrow> Done s2 []
                | (Inr itemCount, s2) \<Rightarrow>
                    (case NewFileTransfer r FolderDownload (the (FileRoot r s2)) (field_data t FieldFileName)
                        (field_data t FieldFilePath) (Some (be32 transferSize)) s2 of
                       (f, s3) \<Rightarrow>
                         (case FilePath_Write zero_path (sl (field_data t FieldFilePath)) of
                            Panic \<Rightarrow> Crash s3
                          | Err e \<Rightarrow> Done s3 []
                          | Ok fp \<Rightarrow> Done s3 [NewReply r t
                              [NewField FieldRefNum (be32 (ft_RefNum (sv_fts s3 f))), NewField FieldTransferSize (be32 transferSize),
                               NewField FieldFolderItemCount (be16 itemCount), NewField FieldWaitingCount [0, 0]] s3]))))))"

text \<open>The check that only \<^verbatim>\<open>Uploads\<close> and drop box folders take uploads, with the panic of a bad item count.\<close>

definition upload_path :: "slice \<Rightarrow> FilePath outcome" where
  "upload_path filePath = (case filePath of None \<Rightarrow> Ok zero_path | Some b \<Rightarrow> FilePath_Write zero_path b)"

definition upload_refused :: "nat \<Rightarrow> FilePath \<Rightarrow> server \<Rightarrow> bool outcome" where
  "upload_refused r fp s =
     (if Authorize r AccessUploadAnywhere s then Ok False
      else obind (FilePath_IsUploadDir fp) (\<lambda>u. if u then Ok False else obind (FilePath_IsDropbox fp) (\<lambda>b. Ok (\<not> b))))"

definition HandleUploadFolder :: "externals \<Rightarrow> handler" where
  "HandleUploadFolder x r t s =
     (if \<not> Authorize r AccessUploadFolder s then Done s (NewErrReply r t ErrMsgNotAllowedUploadFolders s)
      else
        (case upload_path (field_data t FieldFilePath) of
           Panic \<Rightarrow> Crash s
         | Err e \<Rightarrow> Done s []
         | Ok fp \<Rightarrow>
             (case upload_refused r fp s of
                Panic \<Rightarrow> Crash s
              | Err e \<Rightarrow> Crash s
              | Ok True \<Rightarrow> Done s (NewErrReply r t
                  (ErrMsgUploadRestrictedTemplate (go_str ''folder'') (sl (field_data t FieldFileName))) s)
              | Ok False \<Rightarrow>
                  (case FileRoot r s of
                     None \<Rightarrow> Crash s
                   | Some root \<Rightarrow>
                       (case NewFileTransfer r FolderUpload root (field_data t FieldFileName) (field_data t FieldFilePath)
                           (field_data t FieldTransferSize) s of
                          (f, s1) \<Rightarrow>
                            let s2 = upd_ft f (\<lambda>ft. ft\<lparr>ft_FolderItemCount := field_data t FieldFolderItemCount\<rparr>) s1
                            in Done s2 [NewReply r t [NewField FieldRefNum (be32 (ft_RefNum (sv_fts s2 f)))] s2])))))"

definition HandleUploadFile :: "externals \<Rightarrow> handler" where
  "HandleUploadFile x r t s =
     (if \<not> Authorize r AccessUploadFile s then Done s (NewErrReply r t ErrMsgNotAllowedUploadFiles s)
      else
        let fileName = field_data t FieldFileName; filePath = field_data t FieldFilePath in
        (case upload_path filePath of
           Panic \<Rightarrow> Crash s
         | Err e \<Rightarrow> Done s []
         | Ok fp \<Rightarrow>
             (case upload_refused r fp s of
                Panic \<Rightarrow> Crash s
              | Err e \<Rightarrow> Crash s
              | Ok True \<Rightarrow> Done s (NewErrReply r t (ErrMsgUploadRestrictedTemplate (go_str ''file'') (sl fileName)) s)
              | Ok False \<Rightarrow>
                  with_read_path x r filePath fileName s (\<lambda>fullFilePath.
                    (case on_files (FS_Stat fullFilePath) s of
                       (Inr fi, s1) \<Rightarrow> Done s1 (NewErrReply r t (ErrMsgFileUploadConflictTemplate (sl fileName)) s1)
                     | (Inl e, s1) \<Rightarrow>
                         (case NewFileTransfer r FileUpload (the (FileRoot r s1)) fileName filePath
                             (field_data t FieldTransferSize) s1 of
                            (f, s2) \<Rightarrow>
                              let ref = NewField FieldRefNum (be32 (ft_RefNum (sv_fts s2 f))) in
                              if field_data t FieldFileTransferOptions = None then Done s2 [NewReply r t [ref] s2]
                              else
                                (case on_files (FS_Stat (fullFilePath @ IncompleteFileSuffix)) s2 of
                                   (Inl e, s3) \<Rightarrow> Done s3 []
                                 | (Inr fileInfo, s3) \<Rightarrow>
                                     let offset = be32 (u32 (nf_Size fileInfo));
                                         s4 = upd_ft f (\<lambda>ft. ft\<lparr>ft_TransferSize := Some offset\<rparr>) s3
                                     in (case NewForkInfoList offset of
                                           Ok l \<Rightarrow> Done s4 [NewReply r t [ref, NewField FieldFileResumeData
                                             (FileResumeData_BinaryMarshal (NewFileResumeData [l]))] s4]
                                         | _ \<Rightarrow> Crash s4))))))))"

section \<open>The table of handlers\<close>

definition RegisterHandlers :: "externals \<Rightarrow> TranType \<Rightarrow> handler option" where
  "RegisterHandlers x = map_of
    [(TranAgreed, HandleTranAgreed x), (TranChatSend, HandleChatSend), (TranDelNewsArt, HandleDelNewsArt x),
     (TranDelNewsItem, HandleDelNewsItem x), (TranDeleteFile, HandleDeleteFile x), (TranDeleteUser, HandleDeleteUser),
     (TranDisconnectUser, HandleDisconnectUser x), (TranDownloadFile, HandleDownloadFile x),
     (TranDownloadFldr, HandleDownloadFolder x), (TranGetClientInfoText, HandleGetClientInfoText x),
     (TranGetFileInfo, HandleGetFileInfo x), (TranGetFileNameList, HandleGetFileNameList x), (TranGetMsgs, HandleGetMsgs x),
     (TranGetNewsArtData, HandleGetNewsArtData), (TranGetNewsArtNameList, HandleGetNewsArtNameList),
     (TranGetNewsCatNameList, HandleGetNewsCatNameList), (TranGetUser, HandleGetUser),
     (TranGetUserNameList, HandleGetUserNameList), (TranInviteNewChat, HandleInviteNewChat),
     (TranInviteToChat, HandleInviteToChat), (TranJoinChat, HandleJoinChat), (TranKeepAlive, HandleKeepAlive),
     (TranLeaveChat, HandleLeaveChat), (TranListUsers, HandleListUsers x), (TranMoveFile, HandleMoveFile x),
     (TranNewFolder, HandleNewFolder x), (TranNewNewsCat, HandleNewNewsCat x), (TranNewNewsFldr, HandleNewNewsFldr x),
     (TranNewUser, HandleNewUser x), (TranUpdateUser, HandleUpdateUser x), (TranOldPostNews, HandleTranOldPostNews x),
     (TranPostNewsArt, HandlePostNewsArt x), (TranRejectChatInvite, HandleRejectChatInvite),
     (TranSendInstantMsg, HandleSendInstantMsg), (TranSetChatSubject, HandleSetChatSubject),
     (TranMakeFileAlias, HandleMakeAlias x), (TranSetClientUserInfo, HandleSetClientUserInfo x),
     (TranSetFileInfo, HandleSetFileInfo x), (TranSetUser, HandleSetUser x), (TranUploadFile, HandleUploadFile x),
     (TranUploadFldr, HandleUploadFolder x), (TranUserBroadcast, HandleUserBroadcast),
     (TranDownloadBanner, HandleDownloadBanner)]"

text \<open>Every type that has a handler has a name in the logs.\<close>

lemma handlers_named: "RegisterHandlers x ty = Some h \<Longrightarrow> map_of tranTypeNames ty \<noteq> None"
  unfolding RegisterHandlers_def tranTypeNames_def by (drule map_of_SomeD) auto

end
