(* ===== verification/HL_Tracker.thy ===== *)
theory HL_Tracker
  imports HL_Server
begin

text \<open>
  Trackers: the registration a server sends (\<^verbatim>\<open>hotline/tracker.go\<close>, \<^verbatim>\<open>hotline/server.go\<close>) and the listing
  a client reads.
\<close>

section \<open>Registration\<close>

record TrackerRegistration =
  tk_Port :: "16 word"
  tk_UserCount :: nat
  tk_TLSPort :: "16 word"
  tk_PassID :: "32 word"
  tk_Name :: bytes
  tk_Description :: bytes
  tk_Password :: bytes

definition TrackerRegistration_bytes :: "TrackerRegistration \<Rightarrow> bytes" where
  "TrackerRegistration_bytes tr =
     [0x00, 0x01] @ be16 (tk_Port tr) @ be16 (u16 (tk_UserCount tr)) @ be16 (tk_TLSPort tr) @ be32 (tk_PassID tr) @
     [u8 (length (tk_Name tr))] @ tk_Name tr @
     [u8 (length (tk_Description tr))] @ tk_Description tr @
     [u8 (length (tk_Password tr))] @ tk_Password tr"

definition TrackerRegistration_Read :: "nat \<Rightarrow> nat \<Rightarrow> TrackerRegistration \<Rightarrow> (bytes \<times> go_error option) \<times> nat" where
  "TrackerRegistration_Read n off tr = readFrom n off (TrackerRegistration_bytes tr)"

text \<open>\<^verbatim>\<open>register\<close> dials the tracker, which can fail, and sends the whole payload.\<close>

definition tracker_register :: "(bytes \<Rightarrow> bool) \<Rightarrow> bytes \<Rightarrow> TrackerRegistration \<Rightarrow> go_error + bytes" where
  "tracker_register dial tracker tr =
     (if dial tracker then Inr (TrackerRegistration_bytes tr) else Inl (Msg ''failed to dial tracker''))"

text \<open>\<^verbatim>\<open>strings.Split(s, ":")\<close> and \<^verbatim>\<open>strings.Join(parts, ":")\<close>.\<close>

fun split_colon :: "bytes \<Rightarrow> bytes list" where
  "split_colon [] = [[]]"
| "split_colon (c # cs) =
     (case split_colon cs of
        [] \<Rightarrow> [[c]]
      | s # ss \<Rightarrow> if c = 58 then [] # s # ss else (c # s) # ss)"

fun join_colon :: "bytes list \<Rightarrow> bytes" where
  "join_colon [] = []"
| "join_colon [s] = s"
| "join_colon (s # t # ss) = s @ 58 # join_colon (t # ss)"

definition parseTrackerPassword :: "bytes \<Rightarrow> bytes" where
  "parseTrackerPassword trackerAddr =
     (let splitAddr = split_colon trackerAddr in
      if 3 \<le> length splitAddr then join_colon (drop 2 splitAddr) else [])"

definition tracker_registration :: "bytes \<Rightarrow> server \<Rightarrow> TrackerRegistration" where
  "tracker_registration t s =
     \<lparr>tk_Port = u16 (sv_Port s), tk_UserCount = length (ClientMgr_List s), tk_TLSPort = u16 (sv_TLSPort s),
      tk_PassID = sv_TrackerPassID s, tk_Name = cf_Name (sv_config s), tk_Description = cf_Description (sv_config s),
      tk_Password = parseTrackerPassword t\<rparr>"

text \<open>What goes out: a failure is only logged.\<close>

definition registerWithAllTrackers :: "(bytes \<Rightarrow> bool) \<Rightarrow> server \<Rightarrow> (bytes \<times> (go_error + bytes)) list" where
  "registerWithAllTrackers dial s =
     (if \<not> cf_EnableTrackerRegistration (sv_config s) then []
      else map (\<lambda>t. (t, tracker_register dial t (tracker_registration t s))) (cf_Trackers (sv_config s)))"

section \<open>Reading a listing\<close>

record TrackerHeader =
  th_Protocol :: "32 word"
  th_Version :: "16 word"

record ServerInfoHeader =
  si_MsgType :: "16 word"
  si_MsgDataSize :: "16 word"
  si_SrvCount :: "16 word"
  si_BatchSize :: "16 word"

record ServerRecord =
  sr_IPAddr :: "32 word"
  sr_Port :: "16 word"
  sr_NumUsers :: "16 word"
  sr_TLSPort :: "16 word"
  sr_NameSize :: byte
  sr_Name :: bytes
  sr_DescriptionSize :: byte
  sr_Description :: bytes

definition read_TrackerHeader :: "bytes list \<Rightarrow> (TrackerHeader \<times> bytes list) outcome" where
  "read_TrackerHeader cs =
     obind (read_full 6 cs) (\<lambda>(b, r). Ok (\<lparr>th_Protocol = be_word (take 4 b), th_Version = be_word (drop 4 b)\<rparr>, r))"

definition read_ServerInfoHeader :: "bytes list \<Rightarrow> (ServerInfoHeader \<times> bytes list) outcome" where
  "read_ServerInfoHeader cs =
     obind (read_full 8 cs) (\<lambda>(b, r).
       Ok (\<lparr>si_MsgType = be_word (take 2 b), si_MsgDataSize = be_word (take 2 (drop 2 b)),
            si_SrvCount = be_word (take 2 (drop 4 b)), si_BatchSize = be_word (drop 6 b)\<rparr>, r))"

text \<open>A byte for the length, then that many bytes.\<close>

definition read_pstring :: "bytes list \<Rightarrow> ((byte \<times> bytes) \<times> bytes list) outcome" where
  "read_pstring cs =
     obind (read_full 1 cs) (\<lambda>(n, r).
       obind (read_full (unat (n ! 0)) r) (\<lambda>(b, r2). Ok ((n ! 0, b), r2)))"

definition readServerRecord :: "bytes list \<Rightarrow> (ServerRecord \<times> bytes list) outcome" where
  "readServerRecord cs =
     obind (read_full 10 cs) (\<lambda>(h, r1).
     obind (read_pstring r1) (\<lambda>((n, name), r2).
     obind (read_pstring r2) (\<lambda>((d, desc), r3).
       Ok (\<lparr>sr_IPAddr = be_word (take 4 h), sr_Port = be_word (take 2 (drop 4 h)),
            sr_NumUsers = be_word (take 2 (drop 6 h)), sr_TLSPort = be_word (drop 8 h), sr_NameSize = n,
            sr_Name = name, sr_DescriptionSize = d, sr_Description = desc\<rparr>, r3))))"

text \<open>
  The loop of \<^verbatim>\<open>GetListing\<close>: \<open>n\<close> records are still to come, \<open>k\<close> of the batch of \<open>batchSize\<close> have been
  read.
\<close>

fun read_servers :: "nat \<Rightarrow> nat \<Rightarrow> nat \<Rightarrow> bytes list \<Rightarrow> ServerRecord list outcome" where
  "read_servers 0 k batchSize cs = Ok []"
| "read_servers (Suc n) k batchSize cs =
     obind (if k = batchSize
            then obind (read_ServerInfoHeader cs) (\<lambda>(info, r). Ok (0, unat (si_BatchSize info), r))
            else Ok (k, batchSize, cs)) (\<lambda>(k1, size1, r1).
       obind (readServerRecord r1) (\<lambda>(srv, r2).
         obind (read_servers n (Suc k1) size1 r2) (\<lambda>srvs. Ok (srv # srvs))))"

text \<open>The request it writes first, and the answer it makes of what the tracker sends.\<close>

definition listing_request :: bytes where
  "listing_request = [0x48, 0x54, 0x52, 0x4B, 0x00, 0x01]"

definition GetListing :: "bytes list \<Rightarrow> ServerRecord list outcome" where
  "GetListing cs =
     obind (read_TrackerHeader cs) (\<lambda>(th, r).
       obind (read_ServerInfoHeader r) (\<lambda>(info, r1).
         read_servers (unat (si_SrvCount info)) 0 (unat (si_BatchSize info)) r1))"

text \<open>\<^verbatim>\<open>ServerRecord.Write\<close>: slices out of range panic, and the TLS port is not read.\<close>

definition ServerRecord_Write :: "ServerRecord \<Rightarrow> bytes \<Rightarrow> (nat \<times> ServerRecord) outcome" where
  "ServerRecord_Write s b =
     (if length b < 12 then Err (Msg ''too few bytes'')
      else
        let nameLen = unat (b ! 10) in
        obind (slice_at b 11 (11 + nameLen)) (\<lambda>name.
        obind (get_at b (11 + nameLen)) (\<lambda>d.
        obind (slice_at b (12 + nameLen) (12 + nameLen + unat d)) (\<lambda>desc.
          Ok (12 + nameLen + unat d,
            s\<lparr>sr_IPAddr := be_word (take 4 b), sr_Port := be_word (take 2 (drop 4 b)),
              sr_NumUsers := be_word (take 2 (drop 6 b)), sr_NameSize := b ! 10, sr_Name := name,
              sr_DescriptionSize := d, sr_Description := desc\<rparr>)))))"

fun decimal :: "nat \<Rightarrow> bytes" where
  "decimal n = (if n < 10 then [48 + u8 n] else decimal (n div 10) @ [48 + u8 (n mod 10)])"

declare decimal.simps [simp del]

definition ServerRecord_Addr :: "ServerRecord \<Rightarrow> bytes" where
  "ServerRecord_Addr s =
     (let b = be32 (sr_IPAddr s); d = (\<lambda>i. decimal (unat (b ! i))) in
      d 0 @ [46] @ d 1 @ [46] @ d 2 @ [46] @ d 3 @ [58] @ decimal (unat (sr_Port s)))"

section \<open>A listing in batches\<close>

definition ServerRecord_bytes :: "ServerRecord \<Rightarrow> bytes" where
  "ServerRecord_bytes s =
     be32 (sr_IPAddr s) @ be16 (sr_Port s) @ be16 (sr_NumUsers s) @ be16 (sr_TLSPort s) @
     sr_NameSize s # sr_Name s @ sr_DescriptionSize s # sr_Description s"

definition wf_server_record :: "ServerRecord \<Rightarrow> bool" where
  "wf_server_record s \<longleftrightarrow> length (sr_Name s) = unat (sr_NameSize s) \<and> length (sr_Description s) = unat (sr_DescriptionSize s)"

definition batch_bytes :: "nat \<Rightarrow> ServerRecord list \<Rightarrow> bytes" where
  "batch_bytes tot srvs = [0, 1] @ be16 (u16 0) @ be16 (u16 tot) @ be16 (u16 (length srvs)) @ concat (map ServerRecord_bytes srvs)"

text \<open>What a tracker sends: its header, then the batches, each with the total in its header.\<close>

definition listing_bytes :: "ServerRecord list list \<Rightarrow> bytes" where
  "listing_bytes batches = go_str ''HTRK'' @ [0, 1] @ concat (map (batch_bytes (length (concat batches))) batches)"

lemma read_full_exact:
  "concat cs = b @ r \<Longrightarrow> length b = n \<Longrightarrow> \<exists>cs'. read_full n cs = Ok (b, cs') \<and> concat cs' = r"
  by (rule read_full_append)

lemma read_pstring_bytes:
  assumes "concat cs = n # b @ r" "length b = unat n"
  shows "\<exists>cs'. read_pstring cs = Ok ((n, b), cs') \<and> concat cs' = r"
proof -
  have "concat cs = [n] @ b @ r" using assms(1) by simp
  from read_full_exact[OF this refl] obtain c1 where 1: "read_full 1 cs = Ok ([n], c1)" "concat c1 = b @ r" by auto
  from read_full_exact[OF 1(2) assms(2)] obtain c2 where "read_full (unat n) c1 = Ok (b, c2)" "concat c2 = r" by auto
  with 1 show ?thesis by (simp add: read_pstring_def)
qed

lemma readServerRecord_bytes:
  assumes "concat cs = ServerRecord_bytes s @ r" "wf_server_record s"
  shows "\<exists>cs'. readServerRecord cs = Ok (s, cs') \<and> concat cs' = r"
proof -
  let ?h = "be32 (sr_IPAddr s) @ be16 (sr_Port s) @ be16 (sr_NumUsers s) @ be16 (sr_TLSPort s)"
  have "concat cs = ?h @ sr_NameSize s # sr_Name s @ sr_DescriptionSize s # sr_Description s @ r"
    using assms(1) by (simp add: ServerRecord_bytes_def)
  from read_full_exact[OF this, of 10] obtain c1 where 1: "read_full 10 cs = Ok (?h, c1)"
    "concat c1 = sr_NameSize s # sr_Name s @ sr_DescriptionSize s # sr_Description s @ r" by auto
  from read_pstring_bytes[OF 1(2)] assms(2) obtain c2 where
    2: "read_pstring c1 = Ok ((sr_NameSize s, sr_Name s), c2)" "concat c2 = sr_DescriptionSize s # sr_Description s @ r"
    by (auto simp: wf_server_record_def)
  from read_pstring_bytes[OF 2(2)] assms(2) obtain c3 where
    3: "read_pstring c2 = Ok ((sr_DescriptionSize s, sr_Description s), c3)" "concat c3 = r"
    by (auto simp: wf_server_record_def)
  show ?thesis using 1 2 3 by (cases s) (simp add: readServerRecord_def be_word_be_bytes)
qed

lemma read_ServerInfoHeader_bytes:
  assumes "concat cs = [0, 1] @ be16 (u16 0) @ be16 (u16 tot) @ be16 (u16 n) @ r" "tot < 65536" "n < 65536"
  shows "\<exists>info cs'. read_ServerInfoHeader cs = Ok (info, cs') \<and> concat cs' = r \<and>
    unat (si_SrvCount info) = tot \<and> unat (si_BatchSize info) = n"
proof -
  let ?h = "[0, 1] @ be16 (u16 0) @ be16 (u16 tot) @ be16 (u16 n)"
  have "concat cs = ?h @ r" using assms(1) by simp
  from read_full_exact[OF this, of 8] obtain c1 where 1: "read_full 8 cs = Ok (?h, c1)" "concat c1 = r" by auto
  then show ?thesis using assms(2,3)
    by (simp add: read_ServerInfoHeader_def be_word_be_bytes unat_u16)
qed

lemma read_servers_batches:
  "concat cs = concat (map ServerRecord_bytes srvs) @ concat (map (batch_bytes tot) batches) \<Longrightarrow>
   k + length srvs = sz \<Longrightarrow> list_all wf_server_record (srvs @ concat batches) \<Longrightarrow>
   [] \<notin> set batches \<Longrightarrow> tot < 65536 \<Longrightarrow> (\<forall>b \<in> set batches. length b < 65536) \<Longrightarrow>
   read_servers (length srvs + length (concat batches)) k sz cs = Ok (srvs @ concat batches)"
proof (induction "length srvs + length (concat batches)" arbitrary: srvs batches k sz cs)
  case 0
  then show ?case by (cases batches) auto
next
  case (Suc n)
  show ?case
  proof (cases srvs)
    case (Cons s srvs')
    then have "concat cs = ServerRecord_bytes s @ concat (map ServerRecord_bytes srvs') @ concat (map (batch_bytes tot) batches)"
      using Suc.prems(1) by simp
    from readServerRecord_bytes[OF this] obtain c1 where c1: "readServerRecord cs = Ok (s, c1)"
      "concat c1 = concat (map ServerRecord_bytes srvs') @ concat (map (batch_bytes tot) batches)"
      using Suc.prems(3) Cons by auto
    have "read_servers (length srvs' + length (concat batches)) (Suc k) sz c1 = Ok (srvs' @ concat batches)"
      using Suc.hyps(1)[of srvs' batches c1 "Suc k" sz] Suc.hyps(2) Suc.prems c1 Cons by auto
    then show ?thesis using c1 Cons Suc.prems(2) by auto
  next
    case Nil
    then obtain b bs where b: "batches = b # bs" using Suc.hyps(2) by (cases batches) auto
    then obtain s b' where s: "b = s # b'" using Suc.prems(4) by (cases b) auto
    have "concat cs = [0, 1] @ be16 (u16 0) @ be16 (u16 tot) @ be16 (u16 (length b)) @
        ServerRecord_bytes s @ concat (map ServerRecord_bytes b') @ concat (map (batch_bytes tot) bs)"
      using Suc.prems(1) Nil b s by (simp add: batch_bytes_def)
    from read_ServerInfoHeader_bytes[OF this Suc.prems(5)] obtain info c0 where
      c0: "read_ServerInfoHeader cs = Ok (info, c0)" "unat (si_BatchSize info) = length b"
        "concat c0 = ServerRecord_bytes s @ concat (map ServerRecord_bytes b') @ concat (map (batch_bytes tot) bs)"
      using Suc.prems(6) b by auto
    from readServerRecord_bytes[OF c0(3)] obtain c1 where c1: "readServerRecord c0 = Ok (s, c1)"
      "concat c1 = concat (map ServerRecord_bytes b') @ concat (map (batch_bytes tot) bs)"
      using Suc.prems(3) b s by auto
    have "read_servers (length b' + length (concat bs)) 1 (length b) c1 = Ok (b' @ concat bs)"
      using Suc.hyps(1)[of b' bs c1 1 "length b"] Suc.hyps(2) Suc.prems c1 Nil b s by auto
    then show ?thesis using c0 c1 Nil b s Suc.prems(2) by auto
  qed
qed

lemma length_le_concat: "b \<in> set bs \<Longrightarrow> length b \<le> length (concat bs)"
  by (induction bs) auto

text \<open>C37: a client reads every server of a tracker's listing, in order, however the tracker splits
  the list into batches and however the network cuts the stream.\<close>

theorem GetListing_batches:
  assumes "concat cs = listing_bytes batches" "batches \<noteq> []" "[] \<notin> set batches" "length (concat batches) < 65536"
    and "list_all wf_server_record (concat batches)"
  shows "GetListing cs = Ok (concat batches)"
proof -
  obtain b bs where b: "batches = b # bs" using assms(2) by (cases batches) auto
  let ?tot = "length (concat batches)"
  have lens: "\<forall>b \<in> set batches. length b < 65536"
    using assms(4) length_le_concat[of _ batches] by fastforce
  let ?rest = "concat (map (batch_bytes ?tot) batches)"
  have "concat cs = (go_str ''HTRK'' @ [0, 1]) @ ?rest" using assms(1) by (simp add: listing_bytes_def)
  from read_full_exact[OF this, of 6] obtain c1 where c1: "read_full 6 cs = Ok (go_str ''HTRK'' @ [0, 1], c1)"
    "concat c1 = ?rest" by auto
  then have "concat c1 = [0, 1] @ be16 (u16 0) @ be16 (u16 ?tot) @ be16 (u16 (length b)) @
      concat (map ServerRecord_bytes b) @ concat (map (batch_bytes ?tot) bs)"
    by (simp add: b batch_bytes_def)
  from read_ServerInfoHeader_bytes[OF this assms(4)] obtain info c2 where
    c2: "read_ServerInfoHeader c1 = Ok (info, c2)" "unat (si_SrvCount info) = ?tot" "unat (si_BatchSize info) = length b"
      "concat c2 = concat (map ServerRecord_bytes b) @ concat (map (batch_bytes ?tot) bs)"
    using lens b by auto
  have "read_servers (length b + length (concat bs)) 0 (length b) c2 = Ok (b @ concat bs)"
    by (rule read_servers_batches[where tot = ?tot]) (use assms c2 lens b in auto)
  then show ?thesis using c1 c2 b by (simp add: GetListing_def read_TrackerHeader_def)
qed

definition sample_server :: "bytes \<Rightarrow> ServerRecord" where
  "sample_server name = \<lparr>sr_IPAddr = 0x0A000001, sr_Port = 5500, sr_NumUsers = 3, sr_TLSPort = 0,
     sr_NameSize = u8 (length name), sr_Name = name, sr_DescriptionSize = 0, sr_Description = []\<rparr>"

text \<open>Two batches that arrive in one read.\<close>

theorem GetListing_batches_witness:
  "GetListing [listing_bytes [[sample_server [65], sample_server []], [sample_server [66, 67]]]] =
     Ok [sample_server [65], sample_server [], sample_server [66, 67]]"
  using GetListing_batches[of "[listing_bytes [[sample_server [65], sample_server []], [sample_server [66, 67]]]]"
      "[[sample_server [65], sample_server []], [sample_server [66, 67]]]"]
  by (simp add: wf_server_record_def sample_server_def)

section \<open>Tracker passwords\<close>

lemma split_colon_ne [simp]: "split_colon s \<noteq> []"
  by (cases s) (auto split: list.splits)

lemma split_colon_simp: "split_colon (c # cs) =
    (if c = 58 then [] # split_colon cs else (c # hd (split_colon cs)) # tl (split_colon cs))"
  by (cases "split_colon cs") auto

lemma split_colon_append: "58 \<notin> set a \<Longrightarrow> split_colon (a @ 58 # b) = a # split_colon b"
  by (induction a) (auto simp: split_colon_simp simp del: split_colon.simps(2))

lemma join_split_colon: "join_colon (split_colon s) = s"
proof (induction s)
  case (Cons c cs)
  obtain p ps where s: "split_colon cs = p # ps" by (cases "split_colon cs") auto
  show ?case using Cons by (cases ps) (auto simp: s)
qed simp

text \<open>The password of a tracker address \<^verbatim>\<open>host:port:password\<close> is everything after the second colon,
  colons included; without a second colon there is none.\<close>

theorem parseTrackerPassword_parts:
  assumes "58 \<notin> set host" "58 \<notin> set port"
  shows "parseTrackerPassword (host @ 58 # port @ 58 # pw) = pw \<and>
    parseTrackerPassword (host @ 58 # port) = [] \<and> parseTrackerPassword host = []"
proof -
  have s: "split_colon p = [p]" if "58 \<notin> set p" for p :: bytes
    using that by (induction p) auto
  have "3 \<le> length (split_colon (host @ 58 # port @ 58 # pw))"
    using assms by (cases "split_colon pw") (auto simp: split_colon_append)
  then show ?thesis using assms
    by (simp add: parseTrackerPassword_def split_colon_append s join_split_colon Let_def)
qed

theorem parseTrackerPassword_parts_example:
  "parseTrackerPassword (go_str ''hltracker.com:5499:a:b'') = go_str ''a:b''"
proof -
  have "58 \<notin> set (go_str ''hltracker.com'')" "58 \<notin> set (go_str ''5499'')" by (simp_all add: go_str_def)
  from parseTrackerPassword_parts[OF this, of "go_str ''a:b''"] show ?thesis by (simp add: go_str_def)
qed

end
