(* ===== verification/HL_File_Transfer.thy ===== *)
theory HL_File_Transfer
  imports HL_Server
begin

text \<open>
  The connections to the transfer port, \<^verbatim>\<open>hotline/file_transfer.go\<close> and \<^verbatim>\<open>handleFileTransfer\<close> of
  \<^verbatim>\<open>hotline/server.go\<close>: what the server writes to the connection and to the shared files while it
  reads what the client sends.  A transfer is one step of the model; the client's bytes are given
  beforehand, in the pieces the network delivers.
\<close>

section \<open>Running a transfer\<close>

text \<open>
  \<open>xf_in\<close> is what is still to be read and \<open>xf_out\<close> what was written; the connection breaks after
  \<open>xf_room\<close> more bytes, if that is not \<open>None\<close>.  \<open>xf_sent\<close> is the counter of the transfer.
\<close>

record xfer =
  xf_in :: "bytes list"
  xf_out :: bytes
  xf_room :: "nat option"
  xf_files :: filesystem
  xf_sent :: nat

type_synonym 'a io = "xfer \<Rightarrow> 'a outcome \<times> xfer"

definition io_ret :: "'a \<Rightarrow> 'a io" where
  "io_ret v c = (Ok v, c)"

definition io_fail :: "go_error \<Rightarrow> 'a io" where
  "io_fail e c = (Err e, c)"

definition io_bind :: "'a io \<Rightarrow> ('a \<Rightarrow> 'b io) \<Rightarrow> 'b io" where
  "io_bind m k c = (case m c of (Ok v, c1) \<Rightarrow> k v c1 | (Err e, c1) \<Rightarrow> (Err e, c1) | (Panic, c1) \<Rightarrow> (Panic, c1))"

definition io_of :: "'a outcome \<Rightarrow> 'a io" where
  "io_of r c = (r, c)"

text \<open>An error that the code only logs, or drops.\<close>

definition io_ignore :: "unit io \<Rightarrow> unit io" where
  "io_ignore m c = (case m c of (Err e, c1) \<Rightarrow> (Ok (), c1) | r \<Rightarrow> r)"

definition io_write :: "bytes \<Rightarrow> unit io" where
  "io_write b c =
     (case xf_room c of
        None \<Rightarrow> (Ok (), c\<lparr>xf_out := xf_out c @ b\<rparr>)
      | Some n \<Rightarrow>
          if length b \<le> n then (Ok (), c\<lparr>xf_out := xf_out c @ b, xf_room := Some (n - length b)\<rparr>)
          else (Err (Msg ''broken pipe''), c\<lparr>xf_out := xf_out c @ take n b, xf_room := Some 0\<rparr>))"

text \<open>A failed \<^verbatim>\<open>io.ReadFull\<close> has used up what there was.\<close>

definition io_read :: "nat \<Rightarrow> bytes io" where
  "io_read n c =
     (case read_full n (xf_in c) of
        Ok (b, r) \<Rightarrow> (Ok b, c\<lparr>xf_in := r\<rparr>)
      | Err e \<Rightarrow> (Err e, c\<lparr>xf_in := []\<rparr>)
      | Panic \<Rightarrow> (Panic, c))"

definition io_try :: "(filesystem \<Rightarrow> 'a \<times> filesystem) \<Rightarrow> 'a io" where
  "io_try f c = (case f (xf_files c) of (v, fs) \<Rightarrow> (Ok v, c\<lparr>xf_files := fs\<rparr>))"

definition io_sys :: "(filesystem \<Rightarrow> (go_error + 'a) \<times> filesystem) \<Rightarrow> 'a io" where
  "io_sys f = io_bind (io_try f) (\<lambda>r. case r of Inl e \<Rightarrow> io_fail e | Inr v \<Rightarrow> io_ret v)"

definition io_NewFile :: "calendar \<Rightarrow> bytes \<Rightarrow> File io" where
  "io_NewFile ca p = io_bind (io_try (NewFile ca p 0)) io_of"

text \<open>
  \<^verbatim>\<open>io.Copy(w, io.TeeReader(file, counter))\<close>.  When the connection breaks in the middle the code stops
  counting at the end of a piece; nobody reads that counter any more.
\<close>

definition io_send :: "bytes \<Rightarrow> unit io" where
  "io_send b = io_bind (\<lambda>c. (Ok (), c\<lparr>xf_sent := xf_sent c + length b\<rparr>)) (\<lambda>_. io_write b)"

section \<open>Downloading a file\<close>

text \<open>
  Opening and reading a file is one call of the model.  \<^verbatim>\<open>Discard\<close> fails if the offset is past the
  end, and an offset without a fork in the resume data panics.
\<close>

definition dataForkReader :: "File \<Rightarrow> bytes io" where
  "dataForkReader f =
     io_bind (io_try (FS_Stat (fl_dataPath f))) (\<lambda>r. case r of
        Inr i \<Rightarrow> io_sys (FS_ReadFile (fl_dataPath f))
      | Inl e \<Rightarrow> io_sys (FS_ReadFile (fl_incompletePath f)))"

definition rsrcForkFile :: "File \<Rightarrow> bytes io" where
  "rsrcForkFile f = io_sys (FS_ReadFile (fl_rsrcPath f))"

definition write_rsrcForkHeader :: "File \<Rightarrow> unit io" where
  "write_rsrcForkHeader f = io_bind (io_try (file_rsrcForkHeader f)) (\<lambda>h. io_write (fork_header_bytes h))"

definition resume_offset :: "FileResumeData option \<Rightarrow> nat outcome" where
  "resume_offset d =
     (case d of
        None \<Rightarrow> Ok 0
      | Some frd \<Rightarrow> (case fr_ForkInfoList frd of [] \<Rightarrow> Panic | l # ls \<Rightarrow> Ok (unat (fi_DataSize l))))"

definition DownloadHandler :: "calendar \<Rightarrow> bytes \<Rightarrow> FileTransfer \<Rightarrow> unit io" where
  "DownloadHandler ca fullPath ft =
     io_bind (io_of (resume_offset (ft_FileResumeData ft))) (\<lambda>dataOffset.
     io_bind (io_NewFile ca fullPath) (\<lambda>hlFile.
     io_bind (if ft_Options ft = None then io_write (ffo_bytes (fl_Ffo hlFile)) else io_ret ()) (\<lambda>_.
     io_bind (dataForkReader hlFile) (\<lambda>b.
     io_bind (if length b < dataOffset then io_fail EOF else io_send (drop dataOffset b)) (\<lambda>_.
     io_bind (if ft_FileResumeData ft = None then write_rsrcForkHeader hlFile else io_ret ()) (\<lambda>_.
     io_ignore (io_bind (rsrcForkFile hlFile) io_send)))))))"

section \<open>Receiving into files\<close>

text \<open>
  Where \<^verbatim>\<open>receiveFile\<close> writes: a location of the file system, or \<^verbatim>\<open>io.Discard\<close>.  Writing nothing is no
  call.  A refused write is noticed at the end of its fork.
\<close>

definition io_append :: "bytes list option \<Rightarrow> bytes \<Rightarrow> unit io" where
  "io_append w b = (case w of None \<Rightarrow> io_ret () | Some q \<Rightarrow> if b = [] then io_ret () else io_sys (FS_Append q b))"

definition io_overwrite :: "bytes list option \<Rightarrow> bytes \<Rightarrow> unit io" where
  "io_overwrite w b = (case w of None \<Rightarrow> io_ret () | Some q \<Rightarrow> if b = [] then io_ret () else io_sys (FS_Overwrite q b))"

definition io_receiveFile :: "bytes list \<Rightarrow> bytes list option \<Rightarrow> bytes list option \<Rightarrow> unit io" where
  "io_receiveFile q rsrc info c =
     (case receiveFile (xf_in c) of (got, res) \<Rightarrow>
        io_bind (io_append info (rv_info got)) (\<lambda>_.
        io_bind (io_append (Some q) (rv_data got)) (\<lambda>_.
        io_bind (io_overwrite rsrc (rv_rsrc got)) (\<lambda>_.
        io_bind (io_of res) (\<lambda>_. io_ret ()))))
        (c\<lparr>xf_in := (case res of Ok r \<Rightarrow> r | _ \<Rightarrow> []), xf_sent := xf_sent c + rv_counted got\<rparr>))"

definition UploadHandler :: "calendar \<Rightarrow> bool \<Rightarrow> bytes \<Rightarrow> unit io" where
  "UploadHandler ca preserveForks fullPath =
     io_bind (io_try (FS_Stat fullPath)) (\<lambda>r. case r of
        Inr i \<Rightarrow> io_fail (Msg ''existing file found'')
      | Inl e \<Rightarrow>
          if e \<noteq> NotExist then io_fail e
          else
            io_bind (io_sys (FS_OpenWrite False (fullPath @ IncompleteFileSuffix))) (\<lambda>q.
            io_bind (io_NewFile ca fullPath) (\<lambda>f.
            io_bind (if preserveForks then
                io_bind (io_sys (file_rsrcForkWriter f)) (\<lambda>rq.
                io_bind (io_sys (file_InfoForkWriter f)) (\<lambda>iq. io_ret (Some rq, Some iq)))
              else io_ret (None, None)) (\<lambda>(rsrc, info).
            io_bind (io_receiveFile q rsrc info) (\<lambda>_.
            io_sys (FS_Rename (fullPath @ IncompleteFileSuffix) fullPath))))))"

section \<open>Downloading a folder\<close>

abbreviation (input) DlFldrActionSendFile :: byte where "DlFldrActionSendFile \<equiv> 1"
abbreviation (input) DlFldrActionResumeFile :: byte where "DlFldrActionResumeFile \<equiv> 2"
abbreviation (input) DlFldrActionNextFile :: byte where "DlFldrActionNextFile \<equiv> 3"

record FileHeader =
  fhd_Size :: "16 word"
  fhd_Type :: "16 word"
  fhd_FilePath :: bytes

definition NewFileHeader :: "bytes \<Rightarrow> bool \<Rightarrow> FileHeader" where
  "NewFileHeader fileName isDir =
     (let p = EncodeFilePath fileName in
      \<lparr>fhd_Size = u16 (length p + 2), fhd_Type = if isDir then 1 else 0, fhd_FilePath = p\<rparr>)"

definition FileHeader_bytes :: "FileHeader \<Rightarrow> bytes" where
  "FileHeader_bytes fh = be16 (fhd_Size fh) @ be16 (fhd_Type fh) @ fhd_FilePath fh"

text \<open>
  \<^verbatim>\<open>filepath.Walk\<close> of a path with a slash at its end: the root, reached through links, then everything
  below it, folders before what is in them and names in order.  Each visit asks for the file's
  information, and for the names in a folder.
\<close>

definition FS_WalkRoot :: "bytes \<Rightarrow> filesystem \<Rightarrow> (go_error + FileInfo \<times> (bytes \<times> bytes list) list) \<times> filesystem" where
  "FS_WalkRoot p = fs_at True p (\<lambda>q fs.
     (case (if q = [] then Some (Dir (fs_now fs)) else fs_get fs q) of
        None \<Rightarrow> (Inl NotExist, fs)
      | Some (Dir t) \<Rightarrow>
          (Inr (node_info fs q (filepath_Base p) (Dir t),
            map (\<lambda>l. (foldl (\<lambda>d n. path_Join [d, n]) p (drop (length q) l), l))
              (sort (filter (\<lambda>l. l \<noteq> q) (map fst (fs_tree q fs))))), fs)
      | Some v \<Rightarrow> (Inl (Msg ''not a directory''), fs)))"

definition FS_Visit :: "bytes list \<Rightarrow> filesystem \<Rightarrow> (go_error + FileInfo) \<times> filesystem" where
  "FS_Visit l = fs_call (\<lambda>fs. (case fs_get fs l of None \<Rightarrow> Inl NotExist | Some v \<Rightarrow> Inr (node_info fs l (last l) v), fs))"

definition FS_Names :: "filesystem \<Rightarrow> (go_error + unit) \<times> filesystem" where
  "FS_Names = fs_call (\<lambda>fs. (Inr (), fs))"

text \<open>The resume data a client sends for one file of a folder.\<close>

definition read_resume :: "nat io" where
  "read_resume =
     io_bind (io_read 2) (\<lambda>n.
     io_bind (io_read (unat (be_word n :: 16 word))) (\<lambda>b.
     io_bind (io_of (FileResumeData_UnmarshalBinary zero_resume b)) (\<lambda>frd.
     io_of (resume_offset (Some frd)))))"

text \<open>The client's answer to the last byte of a file; a client that is gone is not an error here.\<close>

definition read_next_action :: "bytes \<Rightarrow> bytes io" where
  "read_next_action nextAction c =
     (case io_read 2 c of (Err e, c1) \<Rightarrow> (if e = EOF then (Ok nextAction, c1) else (Err e, c1)) | r \<Rightarrow> r)"

text \<open>One call of the function that walks the folder.\<close>

definition send_file :: "File \<Rightarrow> bytes \<Rightarrow> nat \<Rightarrow> bool \<Rightarrow> unit io" where
  "send_file hlFile path dataOffset resumed =
     io_bind (io_write (be32 (ffo_TransferSize (fl_Ffo hlFile) dataOffset))) (\<lambda>_.
     io_bind (io_write (ffo_bytes (fl_Ffo hlFile))) (\<lambda>_.
     io_bind (io_sys (FS_ReadFile path)) (\<lambda>b.
     io_bind (io_send b) (\<lambda>_.
     if \<not> resumed \<and> (ucast (fh_ForkCount (fo_Header (fl_Ffo hlFile))) :: byte) = 3 then
       io_bind (write_rsrcForkHeader hlFile) (\<lambda>_. io_bind (rsrcForkFile hlFile) io_send)
     else io_ret ()))))"

definition walk_item :: "calendar \<Rightarrow> nat \<Rightarrow> bool \<Rightarrow> bytes \<Rightarrow> FileInfo \<Rightarrow> bytes \<Rightarrow> bytes io" where
  "walk_item ca basePathLen first path info nextAction =
     (if hidden (nf_Name info) then io_ret nextAction
      else
        io_bind (io_NewFile ca path) (\<lambda>hlFile.
        if length path < basePathLen + 1 then io_of Panic
        else if first then io_ret nextAction
        else
          io_bind (io_write (FileHeader_bytes (NewFileHeader (drop (basePathLen + 1) path) (nf_Mode info = ModeDir)))) (\<lambda>_.
          io_bind (io_read 2) (\<lambda>action.
          if action ! 1 = DlFldrActionNextFile then io_ret action
          else
            io_bind (if action ! 1 = DlFldrActionResumeFile then read_resume else io_ret 0) (\<lambda>dataOffset.
            if nf_Mode info = ModeDir then io_ret action
            else
              io_bind (send_file hlFile path dataOffset (action ! 1 = DlFldrActionResumeFile)) (\<lambda>_.
              read_next_action action))))))"

fun walk_items :: "calendar \<Rightarrow> nat \<Rightarrow> (bytes \<times> bytes list) list \<Rightarrow> bytes \<Rightarrow> unit io" where
  "walk_items ca n [] nextAction = io_ret ()"
| "walk_items ca n ((path, l) # ps) nextAction =
     io_bind (io_sys (FS_Visit l)) (\<lambda>info.
     io_bind (if nf_Mode info = ModeDir then io_sys FS_Names else io_ret ()) (\<lambda>_.
     io_bind (walk_item ca n False path info nextAction) (\<lambda>action.
     walk_items ca n ps action)))"

definition DownloadFolderHandler :: "calendar \<Rightarrow> bytes \<Rightarrow> unit io" where
  "DownloadFolderHandler ca fullPath =
     io_bind (io_read 2) (\<lambda>nextAction.
     io_bind (io_sys (FS_WalkRoot (fullPath @ [slash]))) (\<lambda>(info, ps).
     io_bind (io_sys FS_Names) (\<lambda>_.
     io_bind (walk_item ca (length fullPath) True (fullPath @ [slash]) info nextAction) (\<lambda>action.
     walk_items ca (length fullPath) ps action))))"

section \<open>Uploading a folder\<close>

record folderUpload =
  fu_DataSize :: "16 word"
  fu_IsFolder :: "16 word"
  fu_PathItemCount :: "16 word"
  fu_FileNamePath :: bytes

definition pathSegmentScanner :: split_func where
  "pathSegmentScanner dat cap =
     (if length dat < 3 then Ok (0, None)
      else
        let totalLen = 3 + unat (dat ! 2) in
        if length dat < totalLen then Ok (0, None) else Ok (totalLen, Some (take totalLen dat)))"

text \<open>A token is a whole segment, so its length need not be checked again.\<close>

fun path_segments :: "nat \<Rightarrow> scanner \<Rightarrow> bytes list outcome" where
  "path_segments 0 s = obind (scan pathSegmentScanner s) (\<lambda>_. Ok [])"
| "path_segments (Suc n) s =
     obind (scan pathSegmentScanner s) (\<lambda>(ok, s1).
       if ok then obind (path_segments n s1) (\<lambda>segs. Ok (drop 3 (scan_bytes s1) # segs)) else Ok [])"

definition FormattedPath :: "folderUpload \<Rightarrow> bytes outcome" where
  "FormattedPath fu =
     (if fu_PathItemCount fu = 0 then Ok []
      else obind (path_segments (unat (fu_PathItemCount fu)) (NewScanner (bytes_reader (fu_FileNamePath fu))))
        (\<lambda>segs. Ok (path_Join segs)))"

text \<open>The length of the path is a difference of \<^verbatim>\<open>uint16\<close> values.\<close>

definition read_folderUpload :: "folderUpload io" where
  "read_folderUpload =
     io_bind (io_read 2) (\<lambda>a. io_bind (io_read 2) (\<lambda>b. io_bind (io_read 2) (\<lambda>c.
     io_bind (io_read (unat (be_word a - 4 :: 16 word))) (\<lambda>p.
     io_ret \<lparr>fu_DataSize = be_word a, fu_IsFolder = be_word b, fu_PathItemCount = be_word c, fu_FileNamePath = p\<rparr>))))"

definition next_file :: "unit io" where
  "next_file = io_write [0, DlFldrActionNextFile]"

definition upload_folder_item :: "bytes \<Rightarrow> unit io" where
  "upload_folder_item p =
     io_bind (io_try (FS_Stat p)) (\<lambda>r.
     io_bind (if r = Inl NotExist then io_sys (FS_Mkdir p) else io_ret ()) (\<lambda>_. next_file))"

definition resume_upload :: "bytes \<Rightarrow> bytes \<Rightarrow> FileInfo \<Rightarrow> unit io" where
  "resume_upload fullPath name incompleteFile =
     (let p = fullPath @ [slash] @ name; offset = be32 (u32 (nf_Size incompleteFile)) in
      io_bind (io_sys (FS_OpenWrite False (p @ IncompleteFileSuffix))) (\<lambda>q.
      io_bind (io_of (NewForkInfoList offset)) (\<lambda>l.
      let b = FileResumeData_BinaryMarshal (NewFileResumeData [l]) in
      io_bind (io_write (be16 (u16 (length b)) @ b)) (\<lambda>_.
      io_bind (io_read 4) (\<lambda>fileSize.
      io_bind (io_ignore (io_receiveFile q None None)) (\<lambda>_.
      io_sys (FS_Rename (p @ IncompleteFileSuffix) p)))))))"

definition new_upload :: "calendar \<Rightarrow> bool \<Rightarrow> bytes \<Rightarrow> unit io" where
  "new_upload ca preserveForks filePath =
     io_bind (io_read 4) (\<lambda>fileSize.
     io_bind (io_NewFile ca filePath) (\<lambda>hlFile.
     io_bind (io_sys (file_incFileWriter hlFile)) (\<lambda>q.
     io_bind (if preserveForks then
         io_bind (io_sys (file_InfoForkWriter hlFile)) (\<lambda>iq.
         io_bind (io_sys (file_rsrcForkWriter hlFile)) (\<lambda>rq. io_ret (Some rq, Some iq)))
       else io_ret (None, None)) (\<lambda>(rsrc, info).
     io_bind (io_receiveFile q rsrc info) (\<lambda>_.
     io_sys (FS_Rename (filePath @ IncompleteFileSuffix) filePath))))))"

definition upload_file_item :: "calendar \<Rightarrow> bool \<Rightarrow> bytes \<Rightarrow> bytes \<Rightarrow> unit io" where
  "upload_file_item ca preserveForks fullPath name =
     io_bind (io_try (FS_Stat (path_Join [fullPath, name]))) (\<lambda>r.
     io_bind (case r of Inl e \<Rightarrow> if e \<noteq> NotExist then io_fail e else io_ret () | Inr i \<Rightarrow> io_ret ()) (\<lambda>_.
     io_bind (io_try (FS_Stat (path_Join [fullPath, name @ IncompleteFileSuffix]))) (\<lambda>i.
     case i of
       Inr incompleteFile \<Rightarrow>
         io_bind (io_write [0, DlFldrActionResumeFile]) (\<lambda>_.
         io_bind (resume_upload fullPath name incompleteFile) (\<lambda>_. next_file))
     | Inl e \<Rightarrow>
         if e \<noteq> NotExist then io_fail e
         else
           (case r of
              Inr f \<Rightarrow> io_write [0, DlFldrActionNextFile]
            | Inl e \<Rightarrow>
                io_bind (io_write [0, DlFldrActionSendFile]) (\<lambda>_.
                io_bind (new_upload ca preserveForks (path_Join [fullPath, name])) (\<lambda>_. next_file))))))"

fun upload_items :: "calendar \<Rightarrow> bool \<Rightarrow> bytes \<Rightarrow> nat \<Rightarrow> unit io" where
  "upload_items ca preserveForks fullPath 0 = io_ret ()"
| "upload_items ca preserveForks fullPath (Suc n) =
     io_bind read_folderUpload (\<lambda>fu.
     io_bind (io_of (FormattedPath fu)) (\<lambda>name.
     io_bind (if fu_IsFolder fu = 1 then upload_folder_item (path_Join [fullPath, name])
       else upload_file_item ca preserveForks fullPath name) (\<lambda>_.
     upload_items ca preserveForks fullPath n)))"

definition ItemCount :: "FileTransfer \<Rightarrow> nat outcome" where
  "ItemCount ft = (case arr2 (ft_FolderItemCount ft) of None \<Rightarrow> Panic | Some n \<Rightarrow> Ok (unat n))"

definition UploadFolderHandler :: "calendar \<Rightarrow> bool \<Rightarrow> bytes \<Rightarrow> FileTransfer \<Rightarrow> unit io" where
  "UploadFolderHandler ca preserveForks fullPath ft =
     io_bind (io_try (FS_Stat fullPath)) (\<lambda>r.
     io_bind (if r = Inl NotExist then io_sys (FS_Mkdir fullPath) else io_ret ()) (\<lambda>_.
     io_bind next_file (\<lambda>_.
     io_bind (io_of (ItemCount ft)) (\<lambda>n.
     upload_items ca preserveForks fullPath n))))"

section \<open>A connection to the transfer port\<close>

definition transfer_io :: "externals \<Rightarrow> server \<Rightarrow> FileTransfer \<Rightarrow> bytes \<Rightarrow> unit io" where
  "transfer_io x s ft fullPath =
     (let ca = x_calendar x; preserveForks = cf_PreserveResourceForks (sv_config s) in
      if ft_Type ft = BannerDownload then io_write (sv_Banner s)
      else if ft_Type ft = FileDownload then DownloadHandler ca fullPath ft
      else if ft_Type ft = FileUpload then UploadHandler ca preserveForks fullPath
      else if ft_Type ft = FolderDownload then DownloadFolderHandler ca fullPath
      else if ft_Type ft = FolderUpload then UploadFolderHandler ca preserveForks fullPath ft
      else io_ret ())"

text \<open>The counter of all transfers of this kind, and that of the running ones, if the type has them.\<close>

definition transfer_stats :: "nat \<Rightarrow> (nat \<times> nat) option" where
  "transfer_stats ty =
     (if ty = FileDownload \<or> ty = FolderDownload then Some (StatDownloadCounter, StatDownloadsInProgress)
      else if ty = FileUpload \<or> ty = FolderUpload then Some (StatUploadCounter, StatUploadsInProgress)
      else None)"

definition begin_transfer :: "nat \<Rightarrow> server \<Rightarrow> server" where
  "begin_transfer ty s =
     (case transfer_stats ty of
        None \<Rightarrow> s | Some (counter, running) \<Rightarrow> s\<lparr>sv_stats := Stats_Increment [counter, running] (sv_stats s)\<rparr>)"

definition finish_transfer :: "nat \<Rightarrow> server \<Rightarrow> server" where
  "finish_transfer ty s =
     (case transfer_stats ty of
        None \<Rightarrow> s | Some (counter, running) \<Rightarrow> s\<lparr>sv_stats := Stats_Decrement running (sv_stats s)\<rparr>)"

text \<open>
  The body between the look-up of the transfer and its removal: the outcome, what was written, and
  the server.  A client without an account makes the logger panic.
\<close>

definition run_transfer :: "externals \<Rightarrow> nat \<Rightarrow> bytes list \<Rightarrow> nat option \<Rightarrow> server \<Rightarrow> unit outcome \<times> bytes \<times> server" where
  "run_transfer x f cs room s =
     (let ft = sv_fts s f in
      if cl_Account (cc s (ft_ClientConn ft)) = None then (Panic, [], s)
      else
        (case ReadPath (x_decode x) (ft_FileRoot ft) (ft_FilePath ft) (ft_FileName ft) of
           Panic \<Rightarrow> (Panic, [], s)
         | Err e \<Rightarrow> (Err e, [], s)
         | Ok fullPath \<Rightarrow>
             let s1 = begin_transfer (ft_Type ft) s in
             (case transfer_io x s1 ft fullPath
                 \<lparr>xf_in = cs, xf_out = [], xf_room = room, xf_files = sv_files s1, xf_sent = ft_sent ft\<rparr> of
                (r, c) \<Rightarrow>
                  (r, xf_out c, finish_transfer (ft_Type ft)
                     (upd_ft f (\<lambda>ft. ft\<lparr>ft_sent := xf_sent c\<rparr>) (s1\<lparr>sv_files := xf_files c\<rparr>))))))"

text \<open>
  \<^verbatim>\<open>io.CopyN\<close> hands each piece it reads to \<^verbatim>\<open>Write\<close> on its own, which takes nothing but sixteen bytes.
  The transfer is removed however its handler ends.
\<close>

definition handleFileTransfer :: "externals \<Rightarrow> bytes list \<Rightarrow> nat option \<Rightarrow> server \<Rightarrow> unit outcome \<times> bytes \<times> server" where
  "handleFileTransfer x cs room s =
     (case read_once 16 cs of
        None \<Rightarrow> (Err EOF, [], s)
      | Some (b, r) \<Rightarrow>
          (case transfer_Write b of
             Panic \<Rightarrow> (Panic, [], s)
           | Err e \<Rightarrow> (Err e, [], s)
           | Ok (n, t) \<Rightarrow>
               (case FileTransferMgr_Get (tf_ReferenceNumber t) s of
                  None \<Rightarrow> (Err (Msg ''invalid transaction ID''), [], s)
                | Some f \<Rightarrow>
                    (case run_transfer x f r room s of
                       (res, out, s1) \<Rightarrow>
                         (case FileTransferMgr_Delete (tf_ReferenceNumber t) s1 of
                            None \<Rightarrow> (Panic, out, s1) | Some s2 \<Rightarrow> (res, out, s2))))))"

end
