(* ===== verification/HL_Startup.thy ===== *)
theory HL_Startup
  imports HL_User_Handlers
begin

text \<open>
  From the files of the configuration directory to a server: \<^verbatim>\<open>internal/mobius/config.go\<close>,
  \<^verbatim>\<open>NewServer\<close> of \<^verbatim>\<open>hotline/server.go\<close>, and what \<^verbatim>\<open>main\<close> of \<^verbatim>\<open>cmd/mobius-hotline-server\<close> loads at
  its start and again at a reload.  Bans are kept in the file; flags, logging, Redis and Bonjour are
  left out.
\<close>

section \<open>The configuration\<close>

definition bannerext :: "bytes \<Rightarrow> bool" where
  "bannerext filename \<longleftrightarrow>
     filename = [] \<or> ascii_lower (filepath_Ext filename) \<in> {go_str ''.jpg'', go_str ''.jpeg'', go_str ''.gif''}"

text \<open>
  The libraries a start needs besides the \<open>externals\<close>: the YAML reader, by type, and the validator of
  the other fields of the configuration.
\<close>

record loaders =
  lo_config :: "bytes \<Rightarrow> Config option"
  lo_validate :: "Config \<Rightarrow> bool"
  lo_account :: yaml_in
  lo_news :: news_in

definition LoadConfig :: "loaders \<Rightarrow> bytes \<Rightarrow> disk \<Rightarrow> (go_error + Config) \<times> disk" where
  "LoadConfig lo path d =
     (case os_ReadFile path d of
        (Inl e, d1) \<Rightarrow> (Inl e, d1)
      | (Inr yamlFile, d1) \<Rightarrow>
          (case lo_config lo yamlFile of
             None \<Rightarrow> (Inl (Msg ''unmarshal YAML''), d1)
           | Some config \<Rightarrow>
               if \<not> (lo_validate lo config \<and> bannerext (cf_BannerFile config)) then (Inl (Msg ''validate config''), d1)
               else if rooted (cf_FileRoot config) then (Inr config, d1)
               else (Inr (config\<lparr>cf_FileRoot := path_Join [path, go_str ''../'', cf_FileRoot config]\<rparr>), d1)))"

section \<open>A new server\<close>

text \<open>
  The managers that \<^verbatim>\<open>main\<close> puts in later are nil interfaces at first; here they are empty.  No
  connection and no transfer exists: the functions from their numbers are arbitrary.
\<close>

definition nil_conn :: ClientConn where
  "nil_conn = \<lparr>cl_RemoteAddr = [], cl_ID = 0, cl_Icon = None, cl_Version = None, cl_Flags = 0, cl_UserName = [],
     cl_Account = None, cl_IdleTime = 0, cl_AutoReply = [], cl_transfers = \<lambda>_. [], cl_closed = False\<rparr>"

definition nil_transfer :: FileTransfer where
  "nil_transfer = \<lparr>ft_FileRoot = [], ft_FileName = None, ft_FilePath = None, ft_RefNum = 0, ft_Type = 0,
     ft_TransferSize = None, ft_FolderItemCount = None, ft_FileResumeData = None, ft_Options = None,
     ft_sent = 0, ft_ClientConn = 0\<rparr>"

definition NewServer :: "Config \<Rightarrow> nat \<Rightarrow> nat \<Rightarrow> 32 word \<Rightarrow> (nat \<Rightarrow> 32 word) \<Rightarrow> disk \<Rightarrow> filesystem \<Rightarrow> server" where
  "NewServer config port tlsPort passID rand d fs =
     \<lparr>sv_conns = \<lambda>_. nil_conn, sv_next = 0, sv_clients = [], sv_nextClientID = 0, sv_chats = [],
      sv_fts = \<lambda>_. nil_transfer, sv_next_ft = 0, sv_fileTransfers = [],
      sv_accounts = \<lparr>am_accounts = [], am_accountDir = []\<rparr>, sv_bans = None,
      sv_news = \<lparr>tn_Categories = None, tn_filePath = []\<rparr>,
      sv_board = \<lparr>fl_data = [], fl_filePath = [], fl_readOffset = 0\<rparr>,
      sv_agreement = \<lparr>ag_data = [], ag_filePath = [], ag_lineEndings = [], ag_readOffset = 0\<rparr>,
      sv_stats = NewStats, sv_redis = None, sv_config = config, sv_Banner = [], sv_disk = d, sv_files = fs,
      sv_outbox = [], sv_later = [], sv_rand = rand, sv_Port = port, sv_TLSPort = tlsPort, sv_TrackerPassID = passID\<rparr>"

section \<open>Starting\<close>

text \<open>Each manager is loaded from its file; the first error ends the process.\<close>

definition load_with :: "(disk \<Rightarrow> go_error option \<times> 'a \<times> disk) \<Rightarrow> ('a \<Rightarrow> server \<Rightarrow> server) \<Rightarrow> server \<Rightarrow> go_error + server" where
  "load_with f put s =
     (case f (sv_disk s) of (Some e, a, d) \<Rightarrow> Inl e | (None, a, d) \<Rightarrow> Inr (put a (s\<lparr>sv_disk := d\<rparr>)))"

fun load_each :: "(server \<Rightarrow> go_error + server) list \<Rightarrow> server \<Rightarrow> go_error + server" where
  "load_each [] s = Inr s"
| "load_each (f # fs) s = (case f s of Inl e \<Rightarrow> Inl e | Inr s1 \<Rightarrow> load_each fs s1)"

definition load_banner :: "bytes \<Rightarrow> server \<Rightarrow> go_error + server" where
  "load_banner configDir s =
     (case os_ReadFile (path_Join [configDir, cf_BannerFile (sv_config s)]) (sv_disk s) of
        (Inl e, d) \<Rightarrow> Inl e | (Inr b, d) \<Rightarrow> Inr (s\<lparr>sv_Banner := b, sv_disk := d\<rparr>))"

definition start_up :: "externals \<Rightarrow> loaders \<Rightarrow> bytes \<Rightarrow> nat \<Rightarrow> nat \<Rightarrow> 32 word \<Rightarrow> (nat \<Rightarrow> 32 word) \<Rightarrow> disk \<Rightarrow> filesystem \<Rightarrow>
    go_error + server" where
  "start_up x lo configDir port tlsPort passID rand d fs =
     (case LoadConfig lo (path_Join [configDir, go_str ''config.yaml'']) d of
        (Inl e, d1) \<Rightarrow> Inl e
      | (Inr config, d1) \<Rightarrow>
          load_each
            [load_with (NewFlatNews (path_Join [configDir, go_str ''MessageBoard.txt''])) (\<lambda>b s. s\<lparr>sv_board := b\<rparr>),
             load_with (NewBanFile (x_ban_yaml x) (path_Join [configDir, go_str ''Banlist.yaml'']))
               (\<lambda>b s. s\<lparr>sv_bans := Some b\<rparr>),
             load_with (NewThreadedNewsYAML (lo_news lo) (path_Join [configDir, go_str ''ThreadedNews.yaml'']))
               (\<lambda>n s. s\<lparr>sv_news := n\<rparr>),
             load_with (NewYAMLAccountManager (lo_account lo) (x_account_yaml x) (path_Join [configDir, go_str ''Users/'']))
               (\<lambda>a s. s\<lparr>sv_accounts := a\<rparr>),
             load_with (NewAgreement configDir [13]) (\<lambda>a s. s\<lparr>sv_agreement := a\<rparr>),
             load_banner configDir]
            (NewServer config port tlsPort passID rand d1 fs))"

section \<open>Reloading\<close>

text \<open>
  An error is only logged.  Every call leaves what its manager has become, and a banner that cannot
  be read becomes nil.
\<close>

definition reload_with :: "('a \<times> disk \<Rightarrow> go_error option \<times> 'a \<times> disk) \<Rightarrow> (server \<Rightarrow> 'a) \<Rightarrow> ('a \<Rightarrow> server \<Rightarrow> server) \<Rightarrow> server \<Rightarrow> server" where
  "reload_with f getm put s = (case f (getm s, sv_disk s) of (e, a, d) \<Rightarrow> put a (s\<lparr>sv_disk := d\<rparr>))"

definition reload_bans :: "externals \<Rightarrow> server \<Rightarrow> server" where
  "reload_bans x s =
     (case sv_bans s of
        None \<Rightarrow> s | Some bf \<Rightarrow> reload_with (bf_Load (x_ban_yaml x)) (\<lambda>_. bf) (\<lambda>b s. s\<lparr>sv_bans := Some b\<rparr>) s)"

definition reload_banner :: "bytes \<Rightarrow> server \<Rightarrow> server" where
  "reload_banner configDir s =
     (case os_ReadFile (path_Join [configDir, cf_BannerFile (sv_config s)]) (sv_disk s) of
        (Inl e, d) \<Rightarrow> s\<lparr>sv_Banner := [], sv_disk := d\<rparr> | (Inr b, d) \<Rightarrow> s\<lparr>sv_Banner := b, sv_disk := d\<rparr>)"

definition reloadFunc :: "externals \<Rightarrow> loaders \<Rightarrow> bytes \<Rightarrow> server \<Rightarrow> server" where
  "reloadFunc x lo configDir s =
     (let s1 = reload_with FlatNews_Reload sv_board (\<lambda>b s. s\<lparr>sv_board := b\<rparr>) s;
          s2 = reload_bans x s1;
          s3 = reload_with (tn_Load (lo_news lo)) sv_news (\<lambda>n s. s\<lparr>sv_news := n\<rparr>) s2;
          s4 = reload_with Agreement_Reload sv_agreement (\<lambda>a s. s\<lparr>sv_agreement := a\<rparr>) s3
      in reload_banner configDir s4)"

end
