(* ===== verification/HL_Api.thy ===== *)
theory HL_Api
  imports HL_Startup
begin

text \<open>
  The HTTP interface for administrators, \<^verbatim>\<open>internal/mobius/api.go\<close>, and \<^verbatim>\<open>Shutdown\<close> of
  \<^verbatim>\<open>hotline/server.go\<close>.  \<^verbatim>\<open>net/http\<close> is not modelled: a handler gets the body of a request and gives a
  status and a body; a panic of it aborts the reply and nothing else.
\<close>

section \<open>Requests and replies\<close>

record BanRequest =
  br_Username :: bytes
  br_Nickname :: bytes
  br_IP :: bytes

record online_user =
  ou_login :: bytes
  ou_nickname :: bytes
  ou_ip :: bytes

text \<open>
  The JSON library, by type, with the key and the configuration directory the interface was set up
  with.  The encoders get a list; its being empty stands for the nil slice, written as null.
\<close>

record api_env =
  ap_request :: "bytes \<Rightarrow> BanRequest option"
  ap_users :: "online_user list \<Rightarrow> bytes"
  ap_names :: "bytes list \<Rightarrow> bytes"
  ap_stats :: "(string \<times> int) list \<Rightarrow> bytes option"
  ap_loaders :: loaders
  ap_configDir :: bytes
  ap_apiKey :: bytes

datatype api_reply = Reply nat bytes | Aborted

type_synonym api_handler = "bytes \<Rightarrow> server \<Rightarrow> api_reply \<times> server"

definition http_Error :: "string \<Rightarrow> nat \<Rightarrow> api_reply" where
  "http_Error msg code = Reply code (go_str msg @ [10])"

definition authMiddleware :: "bytes \<Rightarrow> bytes \<Rightarrow> api_handler \<Rightarrow> api_handler" where
  "authMiddleware apiKey header h body s =
     (if apiKey \<noteq> [] \<and> header \<noteq> apiKey then (Reply 401 (go_str ''{\"error\":\"unauthorized\"}''), s) else h body s)"

section \<open>The users online\<close>

text \<open>\<^verbatim>\<open>strings.SplitN(m, ":", 3)\<close>, if it has three parts.\<close>

definition split_colon3 :: "bytes \<Rightarrow> online_user option" where
  "split_colon3 m =
     (if 58 \<in> set m then
        let login = takeWhile (\<lambda>c. c \<noteq> 58) m; m1 = drop (Suc (length login)) m in
        if 58 \<in> set m1 then
          let nick = takeWhile (\<lambda>c. c \<noteq> 58) m1
          in Some \<lparr>ou_login = login, ou_nickname = nick, ou_ip = drop (Suc (length nick)) m1\<rparr>
        else None
      else None)"

definition online_conn :: "ClientConn \<Rightarrow> online_user option" where
  "online_conn c =
     map_option (\<lambda>a. \<lparr>ou_login = ac_Login a, ou_nickname = cl_UserName c, ou_ip = cl_RemoteAddr c\<rparr>) (cl_Account c)"

definition OnlineHandler :: "api_env \<Rightarrow> api_handler" where
  "OnlineHandler a body s =
     (case sv_redis s of
        Some members \<Rightarrow> (Reply 200 (ap_users a (List.map_filter split_colon3 members)), s)
      | None \<Rightarrow>
          let users = map (\<lambda>r. online_conn (cc s r)) (ClientMgr_List s) in
          if None \<in> set users then (Aborted, s) else (Reply 200 (ap_users a (map the users)), s))"

section \<open>Bans\<close>

text \<open>One change of the ban list, if the request asks for it; an error ends the handler.\<close>

definition ban_part :: "bool \<Rightarrow> (BanFile \<times> disk \<Rightarrow> (go_error option \<times> BanFile \<times> disk) outcome) \<Rightarrow> string \<Rightarrow>
    (server \<Rightarrow> api_reply \<times> server) \<Rightarrow> server \<Rightarrow> api_reply \<times> server" where
  "ban_part wanted f msg next s =
     (if \<not> wanted then next s
      else
        (case sv_bans s of
           None \<Rightarrow> (Aborted, s)
         | Some bf \<Rightarrow>
             (case f (bf, sv_disk s) of
                Ok (e, bf1, d) \<Rightarrow>
                  let s1 = s\<lparr>sv_bans := Some bf1, sv_disk := d\<rparr> in
                  if e \<noteq> None then (http_Error msg 500, s1) else next s1
              | _ \<Rightarrow> (Aborted, s))))"

fun kick_banned :: "BanRequest \<Rightarrow> nat list \<Rightarrow> server \<Rightarrow> api_reply \<times> server" where
  "kick_banned req [] s = (Reply 200 (go_str ''{\"msg\":\"banned\"}''), s)"
| "kick_banned req (r # rs) s =
     (if br_Username req \<noteq> [] \<and> cl_Account (cc s r) = None then (Aborted, s)
      else if br_Username req \<noteq> [] \<and> map_option ac_Login (cl_Account (cc s r)) = Some (br_Username req) \<or>
           br_Nickname req \<noteq> [] \<and> cl_UserName (cc s r) = br_Nickname req \<or>
           br_IP req \<noteq> [] \<and> conn_IP r s = br_IP req
      then kick_banned req rs (Disconnect r s) else kick_banned req rs s)"

definition BanHandler :: "externals \<Rightarrow> api_env \<Rightarrow> api_handler" where
  "BanHandler x a body s =
     (case ap_request a body of
        None \<Rightarrow> (http_Error ''invalid request'' 400, s)
      | Some req \<Rightarrow>
          if br_Username req = [] \<and> br_Nickname req = [] \<and> br_IP req = [] then
            (http_Error ''username, nickname, or ip required'' 400, s)
          else
            ban_part (br_Username req \<noteq> []) (\<lambda>p. Ok (bf_BanUsername (x_ban_yaml x) (br_Username req) p))
              ''failed to ban username''
            (ban_part (br_Nickname req \<noteq> []) (\<lambda>p. Ok (bf_BanNickname (x_ban_yaml x) (br_Nickname req) p))
              ''failed to ban nickname''
            (ban_part (br_IP req \<noteq> []) (bf_Add (x_ban_yaml x) (br_IP req) None) ''failed to ban IP''
              (\<lambda>s. kick_banned req (ClientMgr_List s) s))) s)"

definition UnbanHandler :: "externals \<Rightarrow> api_env \<Rightarrow> api_handler" where
  "UnbanHandler x a body s =
     (case ap_request a body of
        None \<Rightarrow> (http_Error ''invalid request'' 400, s)
      | Some req \<Rightarrow>
          if br_Username req = [] \<and> br_Nickname req = [] \<and> br_IP req = [] then
            (http_Error ''username, nickname, or ip required'' 400, s)
          else
            ban_part (br_Username req \<noteq> []) (\<lambda>p. Ok (bf_UnbanUsername (x_ban_yaml x) (br_Username req) p))
              ''failed to unban username''
            (ban_part (br_Nickname req \<noteq> []) (\<lambda>p. Ok (bf_UnbanNickname (x_ban_yaml x) (br_Nickname req) p))
              ''failed to unban nickname''
            (ban_part (br_IP req \<noteq> []) (\<lambda>p. Ok (bf_UnbanIP (x_ban_yaml x) (br_IP req) p)) ''failed to unban IP''
              (\<lambda>s. (Reply 200 (go_str ''{\"msg\":\"unbanned\"}''), s)))) s)"

definition list_bans :: "api_env \<Rightarrow> (BanFile \<Rightarrow> bytes list) \<Rightarrow> api_handler" where
  "list_bans a f body s = (case sv_bans s of None \<Rightarrow> (Aborted, s) | Some bf \<Rightarrow> (Reply 200 (ap_names a (f bf)), s))"

definition ListBannedIPsHandler :: "api_env \<Rightarrow> api_handler" where
  "ListBannedIPsHandler a = list_bans a bf_ListBannedIPs"

definition ListBannedUsernamesHandler :: "api_env \<Rightarrow> api_handler" where
  "ListBannedUsernamesHandler a = list_bans a bf_ListBannedUsernames"

definition ListBannedNicknamesHandler :: "api_env \<Rightarrow> api_handler" where
  "ListBannedNicknamesHandler a = list_bans a bf_ListBannedNicknames"

section \<open>The server itself\<close>

text \<open>The message to every client; the process ends three seconds later.\<close>

definition Shutdown :: "bytes \<Rightarrow> server \<Rightarrow> server" where
  "Shutdown msg s = SendAll TranDisconnectMsg [NewField FieldData msg] s"

definition ShutdownHandler :: api_handler where
  "ShutdownHandler msg s =
     (if msg = [] then (Reply 400 [], s)
      else (Reply 200 (go_str ''{ \"msg\": \"server shutting down\" }''), Shutdown msg s))"

definition ReloadHandler :: "externals \<Rightarrow> api_env \<Rightarrow> api_handler" where
  "ReloadHandler x a body s =
     (Reply 200 (go_str ''{ \"msg\": \"config reloaded\" }''), reloadFunc x (ap_loaders a) (ap_configDir a) s)"

definition RenderStats :: "api_env \<Rightarrow> api_handler" where
  "RenderStats a body s =
     (case ap_stats a (Stats_Values (sv_stats s)) of
        None \<Rightarrow> (http_Error ''failed to marshal stats'' 500, s) | Some u \<Rightarrow> (Reply 200 u, s))"

section \<open>The routes\<close>

text \<open>No handler looks at the method.  A pattern without a slash at its end matches that path alone.\<close>

definition api_routes :: "externals \<Rightarrow> api_env \<Rightarrow> (string \<times> api_handler) list" where
  "api_routes x a =
     [(''/api/v1/online'', OnlineHandler a), (''/api/v1/ban'', BanHandler x a), (''/api/v1/unban'', UnbanHandler x a),
      (''/api/v1/banned/ips'', ListBannedIPsHandler a), (''/api/v1/banned/usernames'', ListBannedUsernamesHandler a),
      (''/api/v1/banned/nicknames'', ListBannedNicknamesHandler a), (''/api/v1/reload'', ReloadHandler x a),
      (''/api/v1/shutdown'', ShutdownHandler), (''/api/v1/stats'', RenderStats a)]"

definition serve_api :: "externals \<Rightarrow> api_env \<Rightarrow> string \<Rightarrow> bytes \<Rightarrow> bytes \<Rightarrow> server \<Rightarrow> api_reply \<times> server" where
  "serve_api x a url header body s =
     (case map_of (api_routes x a) url of
        None \<Rightarrow> (http_Error ''404 page not found'' 404, s)
      | Some h \<Rightarrow> authMiddleware (ap_apiKey a) header h body s)"

text \<open>Setting up the interface clears the set of online users.\<close>

definition NewAPIServer :: "server \<Rightarrow> server" where
  "NewAPIServer s = s\<lparr>sv_redis := map_option (\<lambda>_. []) (sv_redis s)\<rparr>"

end
