(* ===== verification/HL_Session.thy ===== *)
theory HL_Session
  imports HL_File_Handlers HL_Tracker HL_File_Transfer HL_Api
begin

text \<open>
  A connection from its first byte to its end: \<^verbatim>\<open>hotline/handshake.go\<close> and \<^verbatim>\<open>handleNewConnection\<close> of
  \<^verbatim>\<open>hotline/server.go\<close>; then the server as a whole, a transition system whose steps are what its
  goroutines do.
\<close>

section \<open>The handshake\<close>

record handshake =
  hs_Protocol :: "32 word"
  hs_SubProtocol :: "32 word"
  hs_Version :: "16 word"
  hs_SubVersion :: "16 word"

abbreviation trtp :: "32 word" where "trtp \<equiv> 0x54525450"
abbreviation hotl :: "32 word" where "hotl \<equiv> 0x484F544C"
abbreviation (input) handshakeSize :: nat where "handshakeSize \<equiv> 12"

definition handshakeResponse :: bytes where
  "handshakeResponse = [0x54, 0x52, 0x54, 0x50, 0x00, 0x00, 0x00, 0x00]"

definition handshake_Write :: "bytes \<Rightarrow> (nat \<times> handshake) outcome" where
  "handshake_Write p =
     (if length p \<noteq> handshakeSize then Err (Msg ''invalid handshake size'')
      else Ok (length p, \<lparr>hs_Protocol = be_word (take 4 p), hs_SubProtocol = be_word (take 4 (drop 4 p)),
        hs_Version = be_word (take 2 (drop 8 p)), hs_SubVersion = be_word (drop 10 p)\<rparr>))"

definition handshake_Valid :: "handshake \<Rightarrow> bool" where
  "handshake_Valid h \<longleftrightarrow> hs_Protocol h = trtp \<and> hs_SubProtocol h = hotl"

text \<open>
  \<^verbatim>\<open>io.CopyN\<close> hands each piece it reads to \<^verbatim>\<open>Write\<close> on its own, and \<^verbatim>\<open>Write\<close> takes nothing but twelve
  bytes.  The result is what is written back and what is left to read.
\<close>

definition performHandshake :: "bytes list \<Rightarrow> (bytes \<times> bytes list) outcome" where
  "performHandshake cs =
     (case read_once handshakeSize cs of
        None \<Rightarrow> Err EOF
      | Some (b, r) \<Rightarrow>
          obind (handshake_Write b) (\<lambda>(n, h).
            if handshake_Valid h then Ok (handshakeResponse, r)
            else Err (Msg ''invalid protocol or sub-protocol in handshake'')))"

section \<open>Logging in\<close>

definition GuestAccount :: bytes where "GuestAccount = go_str ''guest''"

text \<open>
  The outcome of the first transaction of a connection: refused, with what is written straight to the
  connection before it is closed; failed with an error or a panic, before a client was made; closed,
  after the client \<open>r\<close> was made; or logged in as the client \<open>r\<close>.
\<close>

datatype login_result =
    Refused server bytes
  | Failed server
  | Closed server nat bytes
  | LoggedIn server nat

definition sendBanMessage :: "bytes \<Rightarrow> server \<Rightarrow> bytes \<times> server" where
  "sendBanMessage message s =
     (case new_tran TranServerMsg 0 [NewField FieldData message, NewField FieldChatOptions [0, 0]] s of
        (t, s1) \<Rightarrow> (Transaction_bytes t, s1))"

definition refuse :: "bytes \<Rightarrow> server \<Rightarrow> login_result" where
  "refuse message s = (case sendBanMessage message s of (b, s1) \<Rightarrow> Refused s1 b)"

definition login_name :: "transaction \<Rightarrow> bytes" where
  "login_name t =
     (let login = Field_DecodeObfuscatedString (Tran_GetField FieldUserLogin t) in
      if login = [] then GuestAccount else login)"

definition username_banned :: "bytes \<Rightarrow> server \<Rightarrow> bool" where
  "username_banned login s = (case sv_bans s of None \<Rightarrow> False | Some bf \<Rightarrow> bf_IsUsernameBanned login bf)"

text \<open>Whether an address is banned now: a temporary ban ends, a permanent one does not.\<close>

datatype ban_state = NotBanned | PermanentlyBanned | TemporarilyBanned

definition address_banned :: "externals \<Rightarrow> bytes \<Rightarrow> server \<Rightarrow> ban_state" where
  "address_banned x ip s =
     (case sv_bans s of
        None \<Rightarrow> NotBanned
      | Some bf \<Rightarrow>
          (case bf_IsBanned ip bf of
             (False, _) \<Rightarrow> NotBanned
           | (True, None) \<Rightarrow> PermanentlyBanned
           | (True, Some until) \<Rightarrow> if x_now x < until then TemporarilyBanned else NotBanned))"

text \<open>What an accepted login sends: the reply, the access bitmap, the agreement.\<close>

definition show_agreement :: "externals \<Rightarrow> nat \<Rightarrow> server \<Rightarrow> server" where
  "show_agreement x r s =
     (if Authorize r AccessNoAgreement s then
        (if cl_Version (cc s r) \<noteq> None then
           (case new_tran TranShowAgreement (cl_ID (cc s r)) [NewField FieldNoServerAgreement [1]] s of (t, s1) \<Rightarrow> send [t] s1)
         else s)
      else
        (case Agreement_ReadAll (x_buf x) (Agreement_Seek 0 (sv_agreement s)) of
           (dat, ag) \<Rightarrow>
             (case new_tran TranShowAgreement (cl_ID (cc s r)) [NewField FieldData dat] (s\<lparr>sv_agreement := ag\<rparr>) of
                (t, s1) \<Rightarrow> send [t] s1)))"

definition announce :: "nat \<Rightarrow> server \<Rightarrow> server" where
  "announce r s =
     (case new_tran TranNotifyChangeUser 0
         [NewField FieldUserName (cl_UserName (cc s r)), NewField FieldUserID (be16 (cl_ID (cc s r))),
          NewField FieldUserIconID (sl (cl_Icon (cc s r))), NewField FieldUserFlags (be16 (cl_Flags (cc s r)))] s of
        (t, s1) \<Rightarrow> send (NotifyOthers r t s1) s1)"

definition count_login :: "server \<Rightarrow> server" where
  "count_login s =
     (let st = Stats_Increment [StatConnectionCounter, StatCurrentlyConnected] (sv_stats s);
          n = int (length (ClientMgr_List s))
      in s\<lparr>sv_stats := if Stats_Get StatConnectionPeak st < n then Stats_Set StatConnectionPeak n st else st\<rparr>)"

definition set_up_client :: "transaction \<Rightarrow> account \<Rightarrow> nat \<Rightarrow> server \<Rightarrow> server" where
  "set_up_client t acc r s =
     (let s1 = upd_conn r (\<lambda>c. c\<lparr>cl_Icon := (case field_data t FieldUserIconID of None \<Rightarrow> cl_Icon c | Some i \<Rightarrow> Some i)\<rparr>) s;
          s2 = upd_conn r (\<lambda>c. c\<lparr>cl_Account := Some acc\<rparr>) s1;
          s3 = (case field_data t FieldUserName of
                  None \<Rightarrow> s2
                | Some n \<Rightarrow> upd_conn r (\<lambda>c. c\<lparr>cl_UserName := if Authorize r AccessAnyName s2 then n else ac_Name acc\<rparr>) s2)
      in if Authorize r AccessDisconUser s3
         then upd_conn r (\<lambda>c. c\<lparr>cl_Flags := UserFlags_Set (cl_Flags c) UserFlagAdmin True\<rparr>) s3 else s3)"

text \<open>The clients before version 1.5 send their name with the login and are announced at once.\<close>

definition greet :: "externals \<Rightarrow> transaction \<Rightarrow> bytes \<Rightarrow> bytes \<Rightarrow> account \<Rightarrow> nat \<Rightarrow> server \<Rightarrow> server" where
  "greet x t login ipAddr acc r s =
     (let s1 = send [NewReply r t [NewField FieldVersion [0x00, 0xBE], NewField FieldCommunityBannerID [0, 0],
            NewField FieldServerName (cf_Name (sv_config s))] s] s
      in case new_tran TranUserAccess (cl_ID (cc s1 r)) [NewField FieldUserAccess (be64 (ac_Access acc))] s1 of
        (a, s2) \<Rightarrow>
          let s3 = show_agreement x r (send [a] s2);
              s4 = (if cl_UserName (cc s3 r) \<noteq> [] then
                      announce r (redis_SAdd (online login (cl_UserName (cc s3 r)) ipAddr) (redis_SRem (online login [] ipAddr) s3))
                    else s3)
          in count_login s4)"

definition login_client :: "externals \<Rightarrow> transaction \<Rightarrow> bytes \<Rightarrow> bytes \<Rightarrow> bytes \<Rightarrow> server \<Rightarrow> login_result" where
  "login_client x t login ipAddr remoteAddr s =
     (case NewClientConn remoteAddr s of (r, s1) \<Rightarrow>
        let s2 = upd_conn r (\<lambda>c. c\<lparr>cl_Version := field_data t FieldVersion\<rparr>) (redis_SAdd (online login [] ipAddr) s1) in
        if \<not> Authenticate x login (sl (field_data t FieldUserPassword)) s2 then
          Closed s2 r (concat (map Transaction_bytes (NewErrReply r t (go_str ''Incorrect login.'') s2)))
        else
          (case am_Get login (sv_accounts s2) of
             None \<Rightarrow> Closed s2 r []
           | Some acc \<Rightarrow> LoggedIn (greet x t login ipAddr acc r (set_up_client t acc r s2)) r))"

text \<open>\<open>buf\<close> is the first token of the scanner; empty if there was none.\<close>

definition login_step :: "externals \<Rightarrow> bytes \<Rightarrow> bytes \<Rightarrow> server \<Rightarrow> login_result" where
  "login_step x remoteAddr buf s =
     (case Transaction_Write zero_tran buf of
        Panic \<Rightarrow> Failed s
      | Err e \<Rightarrow> Failed s
      | Ok (n, t) \<Rightarrow>
          let login = login_name t; ipAddr = split_host remoteAddr in
          if username_banned login s then
            (case ban_address x ipAddr None s of
               None \<Rightarrow> Failed s
             | Some s1 \<Rightarrow> refuse (go_str ''You are banned on this server'') s1)
          else
            (case address_banned x ipAddr s of
               PermanentlyBanned \<Rightarrow> refuse ErrMsgPermanentBan s
             | TemporarilyBanned \<Rightarrow> refuse ErrMsgTemporaryBan s
             | NotBanned \<Rightarrow> login_client x t login ipAddr remoteAddr s))"

text \<open>
  The deferred calls: the connected count goes down if the login had counted it, the entries of the
  online set go, and the client is disconnected.
\<close>

definition end_connection :: "bytes \<Rightarrow> bytes \<Rightarrow> nat \<Rightarrow> server \<Rightarrow> server" where
  "end_connection login ipAddr r s =
     (let s1 = redis_SRem (online login [] ipAddr) s;
          s2 = (if cl_UserName (cc s1 r) \<noteq> [] then redis_SRem (online login (cl_UserName (cc s1 r)) ipAddr) s1 else s1)
      in Disconnect r s2)"

definition count_logout :: "server \<Rightarrow> server" where
  "count_logout s = s\<lparr>sv_stats := Stats_Decrement StatCurrentlyConnected (sv_stats s)\<rparr>"

section \<open>The server as a transition system\<close>

text \<open>
  A live session is a client whose goroutine is in its loop, with its login name and address.  A
  transaction is handled as one step, and so are a connection to the transfer port and a request to
  the HTTP interface: the model interleaves whole handlers.
\<close>

record session =
  se_conn :: nat
  se_login :: bytes
  se_ip :: bytes

record world =
  wo_server :: server
  wo_live :: "session list"

definition on_server :: "(server \<Rightarrow> server) \<Rightarrow> world \<Rightarrow> world" where
  "on_server f w = w\<lparr>wo_server := f (wo_server w)\<rparr>"

definition open_session :: "externals \<Rightarrow> bytes \<Rightarrow> bytes \<Rightarrow> world \<Rightarrow> world" where
  "open_session x remoteAddr buf w =
     (let ip = split_host remoteAddr;
          login = (case Transaction_Write zero_tran buf of Ok (n, t) \<Rightarrow> login_name t | _ \<Rightarrow> [])
      in case login_step x remoteAddr buf (wo_server w) of
           Refused s b \<Rightarrow> w\<lparr>wo_server := s\<rparr>
         | Failed s \<Rightarrow> w\<lparr>wo_server := s\<rparr>
         | Closed s r b \<Rightarrow> w\<lparr>wo_server := end_connection login ip r s\<rparr>
         | LoggedIn s r \<Rightarrow> w\<lparr>wo_server := s, wo_live := wo_live w @ [\<lparr>se_conn = r, se_login = login, se_ip = ip\<rparr>]\<rparr>)"

definition close_session :: "session \<Rightarrow> world \<Rightarrow> world" where
  "close_session se w =
     w\<lparr>wo_server := end_connection (se_login se) (se_ip se) (se_conn se) (count_logout (wo_server w)),
       wo_live := removeAll se (wo_live w)\<rparr>"

text \<open>One token of the scanner: a bad transaction or a panic in a handler ends the session.\<close>

definition receive :: "externals \<Rightarrow> session \<Rightarrow> bytes \<Rightarrow> world \<Rightarrow> world" where
  "receive x se tok w =
     (case Transaction_Write zero_tran tok of
        Ok (n, t) \<Rightarrow>
          (case handleTransaction (RegisterHandlers x) (se_conn se) t (wo_server w) of
             Done s ts \<Rightarrow> w\<lparr>wo_server := s\<rparr>
           | Crash s \<Rightarrow> close_session se (w\<lparr>wo_server := s\<rparr>))
      | _ \<Rightarrow> close_session se w)"

text \<open>A delayed disconnect comes due; the outbox is written out from its head.\<close>

definition run_later :: "server \<Rightarrow> server" where
  "run_later s = (case sv_later s of [] \<Rightarrow> s | r # rs \<Rightarrow> Disconnect r (s\<lparr>sv_later := rs\<rparr>))"

definition processOutbox :: "server \<Rightarrow> (nat \<times> bytes) option \<times> server" where
  "processOutbox s =
     (case sv_outbox s of
        [] \<Rightarrow> (None, s)
      | t # ts \<Rightarrow> (sendTransaction t s, s\<lparr>sv_outbox := ts\<rparr>))"

inductive world_step :: "externals \<Rightarrow> world \<Rightarrow> world \<Rightarrow> bool" for x :: externals where
  Connect: "world_step x w (open_session x remoteAddr buf w)"
| Receive: "se \<in> set (wo_live w) \<Longrightarrow> world_step x w (receive x se tok w)"
| Hangup: "se \<in> set (wo_live w) \<Longrightarrow> world_step x w (close_session se w)"
| Idle: "world_step x w (on_server keepalive_tick w)"
| Later: "world_step x w (on_server run_later w)"
| Outbox: "world_step x w (on_server (snd \<circ> processOutbox) w)"
| Transfer: "world_step x w (on_server (\<lambda>s. snd (snd (handleFileTransfer x cs room s))) w)"
| Api: "world_step x w (on_server (\<lambda>s. snd (serve_api x a url key body s)) w)"

end
