(* ===== verification/HL_Effects.thy ===== *)
theory HL_Effects
  imports HL_Session
begin

text \<open>
  What a handler can do to the server, stated once: \<open>effect x r s s'\<close> says that \<open>s'\<close> comes from \<open>s\<close> by
  the operations of the managers, each under the privilege the client \<open>r\<close> must hold.  Every handler
  of the table is shown to have such an effect; the facts about reachable states then follow by
  induction over the effects instead of handler by handler.
\<close>

section \<open>What no handler touches\<close>

definition after :: "handled \<Rightarrow> server" where
  "after z = (case z of Done s ts \<Rightarrow> s | Crash s \<Rightarrow> s)"

lemma after_simps [simp]: "after (Done s ts) = s" "after (Crash s) = s"
  by (simp_all add: after_def)

lemma after_case [simp]:
  "after (case z of Done s ts \<Rightarrow> Done s (f s ts) | Crash s \<Rightarrow> Crash s) = after z"
  by (simp add: after_def split: handled.split)

text \<open>
  What no change of a user's settings touches in a connection.
\<close>

definition same_conn :: "ClientConn \<Rightarrow> ClientConn \<Rightarrow> bool" where
  "same_conn c d \<longleftrightarrow> cl_ID d = cl_ID c \<and> cl_RemoteAddr d = cl_RemoteAddr c \<and> cl_IdleTime d = cl_IdleTime c \<and>
     (UserFlags_IsSet (cl_Flags d) UserFlagAway \<longleftrightarrow> UserFlags_IsSet (cl_Flags c) UserFlagAway) \<and>
     cl_transfers d = cl_transfers c \<and> cl_Version d = cl_Version c \<and> cl_closed d = cl_closed c"

section \<open>Privileges\<close>

definition allowed :: "nat \<Rightarrow> nat list \<Rightarrow> server \<Rightarrow> bool" where
  "allowed r as s \<longleftrightarrow> list_ex (\<lambda>a. Authorize r a s) as"

fun account_access :: "am_op \<Rightarrow> nat" where
  "account_access (OpCreate a) = AccessCreateUser"
| "account_access (OpUpdate a n) = AccessModifyUser"
| "account_access (OpDelete l) = AccessDeleteUser"

definition news_rights :: "nat list" where
  "news_rights = [AccessNewsPostArt, AccessNewsDeleteArt, AccessNewsCreateCat, AccessNewsDeleteCat,
     AccessNewsCreateFldr, AccessNewsDeleteFldr]"

definition file_rights :: "nat list" where
  "file_rights = [AccessDeleteFile, AccessRenameFile, AccessMoveFile, AccessCreateFolder, AccessDeleteFolder,
     AccessRenameFolder, AccessMoveFolder, AccessSetFileComment, AccessSetFolderComment, AccessMakeAlias]"

section \<open>Effects\<close>

text \<open>\<open>F\<close> says which changes of the file system are allowed.\<close>

inductive effect_in :: "externals \<Rightarrow> (filesystem \<Rightarrow> filesystem \<Rightarrow> bool) \<Rightarrow> nat \<Rightarrow> server \<Rightarrow> server \<Rightarrow> bool"
  for x :: externals and F :: "filesystem \<Rightarrow> filesystem \<Rightarrow> bool" and r :: nat and s0 :: server where
  e_refl: "effect_in x F r s0 s0"
| e_rand: "effect_in x F r s0 s \<Longrightarrow> effect_in x F r s0 (skip_rand n s)"
| e_send: "effect_in x F r s0 s \<Longrightarrow> effect_in x F r s0 (send ts s)"
| e_conn: "effect_in x F r s0 s \<Longrightarrow> same_conn (cc s c) (f (cc s c)) \<Longrightarrow> cl_Account (f (cc s c)) = cl_Account (cc s c) \<Longrightarrow>
    effect_in x F r s0 (upd_conn c f s)"
| e_access: "effect_in x F r s0 s \<Longrightarrow> Authorize r AccessModifyUser s0 \<Longrightarrow> cl_Account (cc s c) = Some a \<Longrightarrow>
    effect_in x F r s0 (upd_conn c (\<lambda>k. k\<lparr>cl_Account := Some (a\<lparr>ac_Access := access\<rparr>)\<rparr>) s)"
| e_disconnect: "effect_in x F r s0 s \<Longrightarrow> effect_in x F r s0 (Disconnect r s)"
| e_later: "effect_in x F r s0 s \<Longrightarrow> allowed r [AccessDeleteUser, AccessDisconUser] s0 \<Longrightarrow> c \<in> snd ` set (sv_clients s) \<Longrightarrow>
    effect_in x F r s0 (disconnect_later c s)"
| e_chat_new: "effect_in x F r s0 s \<Longrightarrow> effect_in x F r s0 (snd (ChatMgr_New r s))"
| e_chat_join: "ChatMgr_Join i r s = Some s' \<Longrightarrow> effect_in x F r s0 s \<Longrightarrow> effect_in x F r s0 s'"
| e_chat_leave: "effect_in x F r s0 s \<Longrightarrow> effect_in x F r s0 (ChatMgr_Leave i (cl_ID (cc s r)) s)"
| e_chat_subject: "ChatMgr_SetSubject i b s = Some s' \<Longrightarrow> effect_in x F r s0 s \<Longrightarrow> effect_in x F r s0 s'"
| e_transfer: "effect_in x F r s0 s \<Longrightarrow> effect_in x F r s0 (snd (NewFileTransfer r ty fr fn fp sz s))"
| e_ft: "effect_in x F r s0 s \<Longrightarrow> ft_RefNum (g (sv_fts s f)) = ft_RefNum (sv_fts s f) \<Longrightarrow>
    ft_Type (g (sv_fts s f)) = ft_Type (sv_fts s f) \<Longrightarrow> ft_ClientConn (g (sv_fts s f)) = ft_ClientConn (sv_fts s f) \<Longrightarrow>
    effect_in x F r s0 (upd_ft f g s)"
| e_account: "effect_in x F r s0 s \<Longrightarrow> Authorize r (account_access op) s0 \<Longrightarrow>
    effect_in x F r s0 (snd (on_accounts (am_apply (x_account_yaml x) op) s))"
| e_ban: "ban_address x ip u s = Some s' \<Longrightarrow> effect_in x F r s0 s \<Longrightarrow>
    Authorize r AccessDisconUser s0 \<or> ip = conn_IP r s0 \<Longrightarrow> effect_in x F r s0 s'"
| e_news: "effect_in x F r s0 s \<Longrightarrow> allowed r news_rights s0 \<Longrightarrow> effect_in x F r s0 (snd (on_news g s))"
| e_post: "effect_in x F r s0 s \<Longrightarrow> Authorize r AccessNewsPostArt s0 \<Longrightarrow> FlatNews_Write p (sv_board s, sv_disk s) = (e, b, d) \<Longrightarrow>
    effect_in x F r s0 (s\<lparr>sv_board := b, sv_disk := d\<rparr>)"
| e_board: "effect_in x F r s0 s \<Longrightarrow> fl_data b = fl_data (sv_board s) \<Longrightarrow> effect_in x F r s0 (s\<lparr>sv_board := b\<rparr>)"
| e_read: "effect_in x F r s0 s \<Longrightarrow> fs_nodes fs = fs_nodes (sv_files s) \<Longrightarrow> effect_in x F r s0 (s\<lparr>sv_files := fs\<rparr>)"
| e_files: "effect_in x F r s0 s \<Longrightarrow> allowed r file_rights s0 \<Longrightarrow> F (sv_files s) fs \<Longrightarrow> effect_in x F r s0 (s\<lparr>sv_files := fs\<rparr>)"
| e_redis: "effect_in x F r s0 s \<Longrightarrow> effect_in x F r s0 (s\<lparr>sv_redis := rd\<rparr>)"

text \<open>With any changes of the file system: the specification of a handler.\<close>

abbreviation effect :: "externals \<Rightarrow> nat \<Rightarrow> server \<Rightarrow> server \<Rightarrow> bool" where
  "effect x \<equiv> effect_in x (\<lambda>fs fs'. True)"

text \<open>What leaves the accounts of the connections alone leaves the privileges alone.\<close>

named_theorems conns_simps

lemma conns_ops [conns_simps]:
  "sv_conns (skip_rand n s) = sv_conns s" "sv_conns (send ts s) = sv_conns s"
  "sv_conns (snd (new_tran ty i fs s)) = sv_conns s" "sv_conns (snd (on_accounts f s)) = sv_conns s"
  "sv_conns (snd (on_news g s)) = sv_conns s" "sv_conns (snd (on_files h s)) = sv_conns s"
  "sv_conns (snd (hash_password x p s)) = sv_conns s" "sv_conns (snd (create_account x l nm p a s)) = sv_conns s"
  "sv_conns (redis_SRem e s) = sv_conns s" "sv_conns (redis_SAdd e s) = sv_conns s"
  "sv_conns (disconnect_later c s) = sv_conns s"
  by (simp_all add: skip_rand_def send_def new_tran_def on_accounts_def on_news_def on_files_def hash_password_def
      create_account_def redis_SRem_def redis_SAdd_def disconnect_later_def split_beta)

lemma Authorize_cong: "sv_conns s' = sv_conns s \<Longrightarrow> Authorize r a s' = Authorize r a s"
  by (simp add: Authorize_def)

lemma Authorize_simps [conns_simps]:
  "Authorize r a (skip_rand n s) = Authorize r a s" "Authorize r a (send ts s) = Authorize r a s"
  "Authorize r a (snd (new_tran ty i fs s)) = Authorize r a s" "Authorize r a (snd (on_files h s)) = Authorize r a s"
  by (rule Authorize_cong; simp add: conns_simps)+

lemma same_conn_fields [simp]:
  "same_conn c c" "same_conn c (c\<lparr>cl_Icon := a\<rparr>)" "same_conn c (c\<lparr>cl_UserName := b\<rparr>)"
  "same_conn c (c\<lparr>cl_AutoReply := d\<rparr>)"
  "i \<noteq> UserFlagAway \<Longrightarrow> same_conn c (c\<lparr>cl_Flags := UserFlags_Set (cl_Flags c) i v\<rparr>)"
  "i \<noteq> UserFlagAway \<Longrightarrow> j \<noteq> UserFlagAway \<Longrightarrow>
     same_conn c (c\<lparr>cl_Flags := UserFlags_Set (UserFlags_Set (cl_Flags c) i v) j w\<rparr>)"
  by (simp_all add: same_conn_def UserFlags_IsSet_Set)

lemma e_fan_out: "effect_in x F r s0 s \<Longrightarrow> effect_in x F r s0 (snd (fan_out ty fs rs s))"
  by (induction ty fs rs s rule: fan_out.induct) (simp_all add: split_beta e_rand)

lemma e_new_tran: "effect_in x F r s0 s \<Longrightarrow> effect_in x F r s0 (snd (new_tran ty i fs s))"
  by (simp add: new_tran_def e_rand)

lemma e_opt_tran: "effect_in x F r s0 s \<Longrightarrow> effect_in x F r s0 (snd (opt_tran b ty i fs s))"
  by (simp add: opt_tran_def e_new_tran split_beta)

lemma e_SendAll: "effect_in x F r s0 s \<Longrightarrow> effect_in x F r s0 (SendAll ty fs s)"
  by (simp add: SendAll_def split_beta e_send e_fan_out)

lemma e_fan_out_done: "effect_in x F r s0 s \<Longrightarrow> effect_in x F r s0 (after (fan_out_done ty fs rs s))"
  by (simp add: fan_out_done_def split_beta e_fan_out)

lemma e_redis_ops: "effect_in x F r s0 s \<Longrightarrow> effect_in x F r s0 (redis_SRem e s)" "effect_in x F r s0 s \<Longrightarrow> effect_in x F r s0 (redis_SAdd e s)"
  by (simp_all add: redis_SRem_def redis_SAdd_def e_redis)

lemma e_hash_password: "effect_in x F r s0 s \<Longrightarrow> effect_in x F r s0 (snd (hash_password x p s))"
  by (simp add: hash_password_def e_rand)

lemma e_create: "effect_in x F r s0 s \<Longrightarrow> Authorize r AccessCreateUser s0 \<Longrightarrow> effect_in x F r s0 (snd (create_account x l n p a s))"
  using e_account[of x F r s0 "skip_rand 1 s" "OpCreate (NewAccount (x_hash x) (sv_rand s 0) l n p a)"]
  by (simp add: create_account_def e_rand am_apply.simps(1)[abs_def])

lemma e_update: "effect_in x F r s0 s \<Longrightarrow> Authorize r AccessModifyUser s0 \<Longrightarrow>
    effect_in x F r s0 (snd (on_accounts (am_Update (x_account_yaml x) a l) s))"
  using e_account[of x F r s0 s "OpUpdate a l"] by (simp add: am_apply.simps(2)[abs_def])

lemma e_delete: "effect_in x F r s0 s \<Longrightarrow> Authorize r AccessDeleteUser s0 \<Longrightarrow> effect_in x F r s0 (snd (on_accounts (am_Delete l) s))"
  using e_account[of x F r s0 s "OpDelete l"] by (simp add: am_apply.simps(3)[abs_def])

lemma e_set_options: "effect_in x F r s0 s \<Longrightarrow> effect_in x F r s0 (set_options r o' s)"
  unfolding set_options_def by (rule e_conn) simp_all

lemmas effects = e_refl e_rand e_send e_disconnect e_later e_chat_new e_chat_leave e_transfer e_fan_out e_new_tran
  e_opt_tran e_SendAll e_fan_out_done e_redis_ops e_hash_password e_create e_update e_delete e_set_options

section \<open>The handlers\<close>

lemma effect_chat_handlers:
  "effect_in x F r s (after (HandleChatSend r t s))"
  "effect_in x F r s (after (HandleSendInstantMsg r t s))"
  "effect_in x F r s (after (HandleUserBroadcast r t s))"
  "effect_in x F r s (after (HandleInviteNewChat r t s))"
  "effect_in x F r s (after (HandleInviteToChat r t s))"
  "effect_in x F r s (after (HandleRejectChatInvite r t s))"
  "effect_in x F r s (after (HandleJoinChat r t s))"
  "effect_in x F r s (after (HandleLeaveChat r t s))"
  "effect_in x F r s (after (HandleSetChatSubject r t s))"
  "effect_in x F r s (after (HandleKeepAlive r t s))"
  "effect_in x F r s (after (HandleGetUserNameList r t s))"
  subgoal by (auto simp: HandleChatSend_def Let_def intro!: effects split: option.split)
  subgoal by (auto simp: HandleSendInstantMsg_def Let_def split_beta intro!: effects split: option.split)
  subgoal by (auto simp: HandleUserBroadcast_def Let_def intro!: effects)
  subgoal by (auto simp: HandleInviteNewChat_def Let_def split_beta intro!: effects split: option.split)
  subgoal by (auto simp: HandleInviteToChat_def Let_def split_beta intro!: effects split: option.split)
  subgoal by (auto simp: HandleRejectChatInvite_def Let_def intro!: effects split: option.split)
  subgoal by (auto simp: HandleJoinChat_def Let_def split_beta intro!: effects intro: e_chat_join split: option.split)
  subgoal by (auto simp: HandleLeaveChat_def Let_def intro!: effects split: option.split)
  subgoal by (auto simp: HandleSetChatSubject_def Let_def intro!: effects intro: e_chat_subject split: option.split)
  by (auto simp: HandleKeepAlive_def HandleGetUserNameList_def intro!: effects)


lemma cc_upd [simp]: "cc (upd_conn r f s) = (cc s)(r := f (cc s r))"
  by (simp add: upd_conn_def fun_eq_iff)

lemma cc_new_tran [simp]: "cc (snd (new_tran ty i fs s)) = cc s"
  by (simp add: conns_simps)

lemma effect_set_user_loop:
  "effect_in x F r s0 s \<Longrightarrow> Authorize r AccessModifyUser s0 \<Longrightarrow> effect_in x F r s0 (after (set_user_loop login access lvl cs s))"
proof (induction cs arbitrary: s)
  case (Cons c cs)
  have "effect_in x F r s0 (upd_conn c (\<lambda>k. k\<lparr>cl_Account := Some (a\<lparr>ac_Access := access\<rparr>)\<rparr>)
      (upd_conn c (\<lambda>k. k\<lparr>cl_Flags := UserFlags_Set (cl_Flags k) UserFlagAdmin v\<rparr>) (snd (new_tran ty i fs s))))"
    if "cl_Account (cc s c) = Some a" for a v ty i fs
    by (rule e_access, rule e_conn, rule e_new_tran) (use Cons.prems that in simp_all)
  then show ?case using Cons by (auto simp: split_beta Let_def e_SendAll split: option.split)
qed simp

lemma clients_ops [simp]:
  "sv_clients (snd (new_tran ty i fs s)) = sv_clients s" "sv_clients (disconnect_later c s) = sv_clients s"
  by (simp_all add: new_tran_def skip_rand_def disconnect_later_def)

lemma ban_address_clients: "ban_address x ip u s = Some s' \<Longrightarrow> sv_clients s' = sv_clients s"
  by (auto simp: ban_address_def split: option.splits outcome.splits)

lemma set_ClientMgr_List: "set (ClientMgr_List s) = snd ` set (sv_clients s)"
  by (simp add: ClientMgr_List_def)

lemma effect_deleted_loop:
  "effect_in x F r s0 s \<Longrightarrow> Authorize r AccessDeleteUser s0 \<Longrightarrow> set cs \<subseteq> snd ` set (sv_clients s) \<Longrightarrow>
   effect_in x F r s0 (after (deleted_loop target opts login cs s))"
proof (induction cs arbitrary: s)
  case (Cons c cs)
  then show ?case by (auto simp: split_beta allowed_def e_later e_new_tran split: option.split)
qed simp

lemma effect_deleted_all:
  "effect_in x F r s0 s \<Longrightarrow> Authorize r AccessDeleteUser s0 \<Longrightarrow> effect_in x F r s0 (after (deleted_loop target opts login (ClientMgr_List s) s))"
  by (simp add: effect_deleted_loop set_ClientMgr_List)

lemma effect_deleted_all_D:
  "deleted_loop target opts login (ClientMgr_List s) s = Done s' ts \<Longrightarrow> effect_in x F r s0 s \<Longrightarrow> Authorize r AccessDeleteUser s0 \<Longrightarrow> effect_in x F r s0 s'"
  "deleted_loop target opts login (ClientMgr_List s) s = Crash s' \<Longrightarrow> effect_in x F r s0 s \<Longrightarrow> Authorize r AccessDeleteUser s0 \<Longrightarrow> effect_in x F r s0 s'"
  using effect_deleted_all[of x F r s0 s target opts login] by simp_all

lemma effect_user_handlers:
  "effect_in x F r s (after (HandleSetUser x r t s))"
  "effect_in x F r s (after (HandleGetUser r t s))"
  "effect_in x F r s (after (HandleListUsers x r t s))"
  "effect_in x F r s (after (HandleDeleteUser r t s))"
  "effect_in x F r s (after (HandleNewUser x r t s))"
  "effect_in x F r s (after (HandleGetClientInfoText x r t s))"
  "effect_in x F r s (after (HandleDownloadBanner r t s))"
  subgoal by (auto simp: HandleSetUser_def Let_def split_beta intro!: effects effect_set_user_loop split: option.split)
  subgoal by (auto simp: HandleGetUser_def Let_def intro!: effects split: option.split)
  subgoal by (auto simp: HandleListUsers_def intro!: effects)
  subgoal by (auto simp: HandleDeleteUser_def Let_def split_beta intro!: effects effect_deleted_all split: option.split)
  subgoal by (auto simp: HandleNewUser_def Let_def split_beta intro!: effects split: option.split)
  subgoal by (auto simp: HandleGetClientInfoText_def intro!: effects split: option.split)
  subgoal by (auto simp: HandleDownloadBanner_def split_beta intro!: effects)
  done

fun edited :: "edit \<Rightarrow> server" where
  "edited (Next s ts) = s" | "edited (Return s ts) = s" | "edited (Boom_at s) = s"

lemma deleted_loop_conns: "deleted_loop target opts login cs s = Done s' ts \<Longrightarrow> sv_conns s' = sv_conns s"
  by (induction cs arbitrary: s ts) (auto simp: split_beta conns_simps split: option.splits if_splits handled.splits)

lemma edit_field_conns: "edit_field x r t f res s = Next s' ts \<Longrightarrow> sv_conns s' = sv_conns s"
  by (auto simp: edit_field_def delete_one_def modify_one_def create_one_def Let_def split_beta conns_simps
      dest!: deleted_loop_conns split: option.splits if_splits outcome.splits handled.splits)

lemma effect_delete_one:
  "effect_in x F r s0 s \<Longrightarrow> sv_conns s = sv_conns s0 \<Longrightarrow> effect_in x F r s0 (edited (delete_one r t sub res s))"
  using Authorize_cong[of s s0 r]
  by (auto simp: delete_one_def Let_def split_beta intro!: effects
      dest!: effect_deleted_all_D[where x = x and r = r and ?s0.0 = s0] split: option.split handled.split)

lemma effect_modify_one:
  "effect_in x F r s0 s \<Longrightarrow> sv_conns s = sv_conns s0 \<Longrightarrow> effect_in x F r s0 (edited (modify_one x r t acc sub l res s))"
  using Authorize_cong[of s s0 r] by (auto simp: modify_one_def Let_def split_beta intro!: effects split: option.split)

lemma effect_create_one:
  "effect_in x F r s0 s \<Longrightarrow> sv_conns s = sv_conns s0 \<Longrightarrow> effect_in x F r s0 (edited (create_one x r t sub l res s))"
  using Authorize_cong[of s s0 r] by (auto simp: create_one_def Let_def split_beta intro!: effects split: option.split)

lemma effect_edit_field:
  "effect_in x F r s0 s \<Longrightarrow> sv_conns s = sv_conns s0 \<Longrightarrow> effect_in x F r s0 (edited (edit_field x r t f res s))"
  by (auto simp: edit_field_def Let_def intro!: effect_delete_one effect_modify_one effect_create_one split: option.split outcome.split)

lemma effect_edit_fields:
  "effect_in x F r s0 s \<Longrightarrow> sv_conns s = sv_conns s0 \<Longrightarrow> effect_in x F r s0 (after (edit_fields x r t fs res s))"
proof (induction fs arbitrary: res s)
  case (Cons f fs)
  note e = effect_edit_field[OF Cons.prems, of t f res]
  show ?case
  proof (cases "edit_field x r t f res s")
    case (Next s' ts)
    have "effect_in x F r s0 s'" "sv_conns s' = sv_conns s0"
      using e edit_field_conns[OF Next] Cons.prems(2) unfolding Next by simp_all
    then show ?thesis using Cons.IH[of s' ts] Next by simp
  qed (use e in simp_all)
qed simp

lemma effect_HandleUpdateUser: "effect_in x F r s (after (HandleUpdateUser x r t s))"
  by (simp add: HandleUpdateUser_def effect_edit_fields e_refl)

lemma e_ban_then_later:
  "ban_address x ip u (snd (new_tran ty i fs s)) = Some s2 \<Longrightarrow> Authorize r AccessDisconUser s \<Longrightarrow>
   c \<in> snd ` set (sv_clients s) \<Longrightarrow> effect_in x F r s (disconnect_later c s2)"
  by (rule e_later, rule e_ban) (auto simp: allowed_def e_refl e_new_tran dest!: ban_address_clients)

lemma effect_HandleDisconnectUser: "effect_in x F r s (after (HandleDisconnectUser x r t s))"
proof (cases "Authorize r AccessDisconUser s")
  case True
  then have l: "effect_in x F r s (disconnect_later c s)" if "c \<in> snd ` set (sv_clients s)" for c
    using that by (simp add: e_later e_refl allowed_def)
  have m: "c \<in> snd ` set (sv_clients s)" if "ClientMgr_Get i s = Some c" for i c
    using that by (force simp: ClientMgr_Get_def dest: map_of_SomeD)
  show ?thesis
    by (simp add: HandleDisconnectUser_def ban_message_def Let_def split_beta effects l m e_ban_then_later True split: option.split)
qed (simp add: HandleDisconnectUser_def e_refl)


lemma conn_IP_upd [simp]:
  "cl_RemoteAddr (f (cc s r)) = cl_RemoteAddr (cc s r) \<Longrightarrow> conn_IP r (upd_conn r f s) = conn_IP r s"
  by (simp add: conn_IP_def)

lemma e_upd: "effect_in x F r s0 s \<Longrightarrow> effect_in x F r s0 (upd_conn c (\<lambda>k. k\<lparr>cl_UserName := n\<rparr>) s)"
  "effect_in x F r s0 s \<Longrightarrow> effect_in x F r s0 (upd_conn c (\<lambda>k. k\<lparr>cl_Icon := i\<rparr>) s)"
  "effect_in x F r s0 s \<Longrightarrow> effect_in x F r s0 (upd_conn c (\<lambda>k. k\<lparr>cl_AutoReply := a\<rparr>) s)"
  by (rule e_conn; simp)+

lemma e_ban_self:
  "ban_address x ip u s = Some s' \<Longrightarrow> effect_in x F r s0 s \<Longrightarrow> ip = conn_IP r s0 \<Longrightarrow> effect_in x F r s0 (Disconnect r s')"
  by (rule e_disconnect, rule e_ban) auto

lemma effect_HandleTranAgreed: "effect_in x F r s (after (HandleTranAgreed x r t s))"
proof (cases "cl_Account (cc s r)")
  case (Some a)
  define s1 where "s1 = (case field_data t FieldUserName of
      None \<Rightarrow> s
    | Some n \<Rightarrow> upd_conn r (\<lambda>c. c\<lparr>cl_UserName := if Authorize r AccessAnyName s then n else ac_Name a\<rparr>) s)"
  have s1: "effect_in x F r s s1" "conn_IP r s1 = conn_IP r s"
    by (auto simp: s1_def e_upd e_refl split: option.split)
  show ?thesis
    unfolding HandleTranAgreed_def Some option.case s1_def[symmetric] Let_def
    by (auto simp: s1 effects e_upd split_beta dest!: e_ban_self[where r = r and ?s0.0 = s] split: option.split)
qed (simp add: HandleTranAgreed_def e_refl)

lemma effect_HandleSetClientUserInfo: "effect_in x F r s (after (HandleSetClientUserInfo x r t s))"
  unfolding HandleSetClientUserInfo_def Let_def
  by (auto simp: effects e_upd split_beta dest!: e_ban_self[where r = r and ?s0.0 = s] split: option.split)

end
