(* ===== verification/HL_Handler_Effects.thy ===== *)
theory HL_Handler_Effects
  imports HL_Effects
begin

text \<open>
  The news and file handlers have only effects their client's privileges allow; and so, with those of
  the theory before, every handler of the table.
\<close>

section \<open>The news and file handlers\<close>


lemma e_with_path:
  "effect_in x F r s0 s \<Longrightarrow> (\<And>p. effect_in x F r s0 (after (k p))) \<Longrightarrow> effect_in x F r s0 (after (with_path t s k))"
  by (auto simp: with_path_def split: outcome.split)

lemma e_with_int:
  "effect_in x F r s0 s \<Longrightarrow> (\<And>i. effect_in x F r s0 (after (k i))) \<Longrightarrow> effect_in x F r s0 (after (with_int ty t s k))"
  by (auto simp: with_int_def split: outcome.split)

lemma e_news_reply: "effect_in x F r s0 (snd z) \<Longrightarrow> effect_in x F r s0 (after (news_reply r t on_err z))"
  by (auto simp: news_reply_def split_beta split: news_result.split)

lemma effect_news_handlers:
  "effect_in x F r s (after (HandleTranOldPostNews x r t s))"
  "effect_in x F r s (after (HandleGetMsgs x r t s))"
  "effect_in x F r s (after (HandleGetNewsCatNameList r t s))"
  "effect_in x F r s (after (HandleNewNewsCat x r t s))"
  "effect_in x F r s (after (HandleNewNewsFldr x r t s))"
  "effect_in x F r s (after (HandleGetNewsArtNameList r t s))"
  "effect_in x F r s (after (HandleGetNewsArtData r t s))"
  "effect_in x F r s (after (HandleDelNewsItem x r t s))"
  "effect_in x F r s (after (HandleDelNewsArt x r t s))"
  "effect_in x F r s (after (HandlePostNewsArt x r t s))"
  subgoal by (auto simp: HandleTranOldPostNews_def Let_def e_refl intro!: e_SendAll e_post split: prod.split option.split)
  subgoal by (auto simp: HandleGetMsgs_def split_beta e_refl FlatNews_Seek_ReadAll intro!: e_board)
  subgoal by (auto simp: HandleGetNewsCatNameList_def e_refl intro!: e_with_path)
  subgoal by (auto simp: HandleNewNewsCat_def e_refl allowed_def news_rights_def intro!: e_with_path e_news_reply e_news)
  subgoal by (auto simp: HandleNewNewsFldr_def e_refl allowed_def news_rights_def intro!: e_with_path e_news_reply e_news)
  subgoal by (auto simp: HandleGetNewsArtNameList_def e_refl intro!: e_with_path split: outcome.split)
  subgoal by (auto simp: HandleGetNewsArtData_def e_refl intro!: e_with_path e_with_int split: option.split)
  subgoal by (auto simp: HandleDelNewsItem_def Let_def e_refl allowed_def news_rights_def intro!: e_with_path e_news_reply e_news)
  subgoal by (auto simp: HandleDelNewsArt_def e_refl allowed_def news_rights_def intro!: e_with_path e_with_int e_news_reply e_news)
  subgoal by (auto simp: HandlePostNewsArt_def Let_def e_refl allowed_def news_rights_def intro!: e_with_path e_with_int e_news_reply e_news)
  done

text \<open>Reading the file system changes nothing but the oracle.\<close>

named_theorems reads

lemma reads_fs_tick [reads]: "fs_nodes (fs_tick fs) = fs_nodes fs"
  by (simp add: fs_tick_def)

lemma reads_fs_at:
  "(\<And>q fs. fs_nodes (snd (f q fs)) = fs_nodes fs) \<Longrightarrow> fs_nodes (snd (fs_at follow p f fs)) = fs_nodes fs"
  by (auto simp: fs_at_def fs_call_def reads split: option.split sum.split)

lemma reads_ops [reads]:
  "fs_nodes (snd (FS_Stat p fs)) = fs_nodes fs" "fs_nodes (snd (FS_Lstat p fs)) = fs_nodes fs"
  "fs_nodes (snd (FS_ReadFile p fs)) = fs_nodes fs" "fs_nodes (snd (FS_Readlink p fs)) = fs_nodes fs"
  "fs_nodes (snd (FS_ReadDir p fs)) = fs_nodes fs" "fs_nodes (snd (FS_Walk p fs)) = fs_nodes fs"
  unfolding FS_Stat_def FS_Lstat_def stat_at_def FS_ReadFile_def FS_Readlink_def FS_ReadDir_def FS_Walk_def
  by (rule reads_fs_at; simp split: option.split node.split)+

lemma reads_D: "FS_Stat p fs = (v, fs') \<Longrightarrow> fs_nodes fs' = fs_nodes fs"
  "FS_Lstat p fs = (w, fs') \<Longrightarrow> fs_nodes fs' = fs_nodes fs"
  "FS_ReadFile p fs = (b, fs') \<Longrightarrow> fs_nodes fs' = fs_nodes fs" "FS_Readlink p fs = (b, fs') \<Longrightarrow> fs_nodes fs' = fs_nodes fs"
  "FS_ReadDir p fs = (ns, fs') \<Longrightarrow> fs_nodes fs' = fs_nodes fs"
  using reads_ops[of p fs] by simp_all

lemma reads_NewFile [reads]: "fs_nodes (snd (NewFile ca p off fs)) = fs_nodes fs"
proof -
  have i: "file_data_info ca f fs = (v, fs') \<Longrightarrow> fs_nodes fs' = fs_nodes fs" for f fs v fs'
    by (auto simp: file_data_info_def dest!: reads_D split: prod.splits sum.splits if_splits)
  have k: "file_info_fork a n m ft fs = (v, fs') \<Longrightarrow> fs_nodes fs' = fs_nodes fs" for a n m ft fs v fs'
    by (auto simp: file_info_fork_def dest!: reads_D split: prod.splits sum.splits)
  have h: "file_rsrcForkHeader f fs = (v, fs') \<Longrightarrow> fs_nodes fs' = fs_nodes fs" for f fs v fs'
    by (auto simp: file_rsrcForkHeader_def file_rsrcForkSize_def dest!: reads_D split: prod.splits sum.splits)
  have "fs_nodes (snd (file_flattenedFileObject ca f fs)) = fs_nodes fs" for f
    by (auto simp: file_flattenedFileObject_def dest!: i k h split: prod.split sum.split outcome.split)
  then show ?thesis by (simp add: NewFile_def Let_def split_beta)
qed

lemma reads_file [reads]:
  "fs_nodes (snd (file_TotalSize f fs)) = fs_nodes fs" "fs_nodes (snd (file_DataFile f fs)) = fs_nodes fs"
  "fs_nodes (snd (CalcTotalSize p fs)) = fs_nodes fs" "fs_nodes (snd (CalcItemCount p fs)) = fs_nodes fs"
  using reads_ops(6)[of p fs]
  by (auto simp: Let_def file_TotalSize_def file_DataFile_def CalcTotalSize_def CalcItemCount_def dest!: reads_D split: prod.split sum.split)

lemma reads_dir_entry: "dir_entry ca p n ig fs = (v, fs') \<Longrightarrow> fs_nodes fs' = fs_nodes fs"
proof -
  have f: "folder_entry p ig fs = (v, fs') \<Longrightarrow> fs_nodes fs' = fs_nodes fs" for p fs v fs'
    by (auto simp: folder_entry_def dest!: reads_D split: prod.splits sum.splits)
  have l: "link_entry p ig fs = (v, fs') \<Longrightarrow> fs_nodes fs' = fs_nodes fs" for p fs v fs'
    by (auto simp: link_entry_def dest!: reads_D f split: prod.splits sum.splits if_splits)
  have n: "NewFile ca p off fs = (v, fs') \<Longrightarrow> fs_nodes fs' = fs_nodes fs" for p off fs v fs'
    using reads_NewFile[of ca p off fs] by simp
  have t: "file_TotalSize f fs = (v, fs') \<Longrightarrow> fs_nodes fs' = fs_nodes fs" for f fs v fs'
    using reads_file(1)[of f fs] by simp
  have e: "file_entry ca p fs = (v, fs') \<Longrightarrow> fs_nodes fs' = fs_nodes fs" for p fs v fs'
    by (auto simp: file_entry_def dest!: n t split: prod.splits outcome.splits)
  assume "dir_entry ca p n ig fs = (v, fs')"
  then show ?thesis
    by (auto simp: dir_entry_def Let_def dest!: reads_D f l e split: prod.splits sum.splits file_mode.splits if_splits)
qed

lemma reads_list_entries: "list_entries ca enc p ig ns fs = (v, fs') \<Longrightarrow> fs_nodes fs' = fs_nodes fs"
proof (induction ns arbitrary: fs v fs')
  case (Cons n ns)
  show ?case
  proof (cases "ig n")
    case False
    obtain w fs1 where d: "dir_entry ca p n ig fs = (w, fs1)" by (cases "dir_entry ca p n ig fs")
    note fs1 = reads_dir_entry[OF d]
    obtain z fs2 where l: "list_entries ca enc p ig ns fs1 = (z, fs2)" by (cases "list_entries ca enc p ig ns fs1")
    show ?thesis using Cons.prems False d l fs1 Cons.IH[OF l]
      by (auto split: outcome.splits option.splits)
  qed (use Cons in auto)
qed simp

lemma reads_GetFileNameList [reads]: "fs_nodes (snd (GetFileNameList ca re enc p ig fs)) = fs_nodes fs"
  by (auto simp: GetFileNameList_def dest!: reads_D split: prod.split sum.split) (metis reads_list_entries prod.collapse)


lemma on_files_D: "on_files f s = (v, s') \<Longrightarrow> s' = s\<lparr>sv_files := snd (f (sv_files s))\<rparr>"
  by (auto simp: on_files_def split: prod.splits)

lemma Authorize_files [simp]: "Authorize r a (s\<lparr>sv_files := fs\<rparr>) = Authorize r a s"
  by (simp add: Authorize_def)

lemma e_read_now: "fs_nodes fs = fs_nodes (sv_files s) \<Longrightarrow> effect_in x F r s (s\<lparr>sv_files := fs\<rparr>)"
  by (rule e_read[OF e_refl])

lemma FileRoot_files [simp]: "FileRoot r (s\<lparr>sv_files := fs\<rparr>) = FileRoot r s"
  by (cases "cl_Account (cc s r)") (simp_all add: FileRoot_def)

lemma e_with_read_path:
  "effect_in x F r s0 s \<Longrightarrow>
   (\<And>d p. FileRoot r s = Some d \<Longrightarrow> ReadPath (x_decode x) d fp fn = Ok p \<Longrightarrow> effect_in x F r s0 (after (k p))) \<Longrightarrow>
   effect_in x F r s0 (after (with_read_path x r fp fn s k))"
  by (auto simp: with_read_path_def split: option.split outcome.split)

text \<open>The paths of the forks of the file at a path.\<close>

definition file_at :: "bytes \<Rightarrow> File \<Rightarrow> bool" where
  "file_at p f \<longleftrightarrow> fl_Name f = filepath_Base p \<and> fl_dataPath f = p \<and>
     fl_rsrcPath f = path_Join [filepath_Dir p, RsrcForkName (filepath_Base p)] \<and>
     fl_infoPath f = path_Join [filepath_Dir p, InfoForkName (filepath_Base p)] \<and>
     fl_incompletePath f = path_Join [filepath_Dir p, filepath_Base p @ IncompleteFileSuffix]"

lemma NewFile_at: "NewFile ca p off fs = (Ok f, fs') \<Longrightarrow> file_at p f"
  by (auto simp: NewFile_def file_at_def Let_def split_beta obind_Ok_iff)

lemma e_with_file:
  "effect_in x F r s0 s \<Longrightarrow>
   (\<And>f fs. file_at p f \<Longrightarrow> fs_nodes fs = fs_nodes (sv_files s) \<Longrightarrow> effect_in x F r s0 (after (k f (s\<lparr>sv_files := fs\<rparr>)))) \<Longrightarrow>
   effect_in x F r s0 (after (with_file x p off s k))"
  using reads_NewFile[of "x_calendar x" p off "sv_files s"]
  by (auto simp: with_file_def intro!: e_read split: prod.split outcome.split) (simp add: NewFile_at)


lemma effect_file_reads:
  "effect_in x F r s (after (HandleGetFileInfo x r t s))"
  "effect_in x F r s (after (HandleGetFileNameList x r t s))"
  subgoal unfolding HandleGetFileInfo_def
    by (rule e_with_read_path[OF e_refl], rule e_with_file[OF e_refl])
      (auto simp: e_read_now reads Let_def dest!: on_files_D split: option.split prod.split)
  subgoal unfolding HandleGetFileNameList_def
    by (auto simp: e_refl e_read_now reads Let_def dest!: on_files_D split: option.split prod.split outcome.split)
  done

section \<open>The handlers that change files\<close>

lemma on_files_fst: "on_files f s = (v, s') \<Longrightarrow> v = fst (f (sv_files s))"
  by (auto simp: on_files_def split: prod.splits)

lemma stat_mode: "on_files (FS_Stat p) s = (Inr info, s') \<Longrightarrow> nf_Mode info = ModeDir \<or> nf_Mode info = ModeRegular"
  using FS_Stat_mode[of p "sv_files s" info] by (cases "nf_Mode info") (auto simp: on_files_def split: prod.splits)

lemma data_file_mode: "on_files (file_DataFile f) s = (Inr info, s') \<Longrightarrow> nf_Mode info = ModeDir \<or> nf_Mode info = ModeRegular"
  using FS_Stat_mode[of "fl_dataPath f" "sv_files s" info] FS_Stat_mode[of "fl_incompletePath f" _ info]
  by (cases "nf_Mode info") (auto simp: on_files_def file_DataFile_def split: prod.splits sum.splits)

text \<open>
  A policy for the shared files: \<open>P\<close> says which paths the requests of a client may lead to, \<open>N\<close> which
  names a file may be moved to, and \<open>F\<close> which changes of the file system are allowed.  A policy gives
  every operation on such paths an allowed change; the handlers then make no other changes.
\<close>

locale file_policy =
  fixes x :: externals and root :: "bytes option" and P N :: "bytes \<Rightarrow> bool"
    and F :: "filesystem \<Rightarrow> filesystem \<Rightarrow> bool"
  assumes read_path: "root = Some d \<Longrightarrow> ReadPath (x_decode x) d a b = Ok p \<Longrightarrow> P p"
    and folder_path: "root = Some d \<Longrightarrow> x_decode x (sub_path items) = Some m \<Longrightarrow>
      x_decode x (path_Join [[slash], n]) = Some k \<Longrightarrow> P (path_Join [d, m, k])"
    and base_name: "P p \<Longrightarrow> N (filepath_Base p)"
    and mkdir: "P p \<Longrightarrow> F fs (snd (FS_Mkdir p fs))"
    and symlink: "P p \<Longrightarrow> P q \<Longrightarrow> F fs (snd (FS_Symlink p q fs))"
    and rename_folder: "P p \<Longrightarrow> P q \<Longrightarrow> F fs (snd (FS_Rename p q fs))"
    and delete: "P p \<Longrightarrow> file_at p f \<Longrightarrow> F fs (snd (file_Delete f fs))"
    and move: "P p \<Longrightarrow> file_at p f \<Longrightarrow> P d \<Longrightarrow> N n \<Longrightarrow> F fs (snd (file_Move d (f\<lparr>fl_Name := n\<rparr>) fs))"
    and open_info: "P p \<Longrightarrow> file_at p f \<Longrightarrow> F fs (snd (file_InfoForkWriter f fs))"
    and write_info: "P p \<Longrightarrow> file_at p f \<Longrightarrow> file_InfoForkWriter f fs = (Inr l, fs1) \<Longrightarrow> F fs (snd (FS_Append l c fs1))"
begin

text \<open>A file operation under a right of the client.\<close>

lemma e_op:
  assumes "on_files g s = (v, s')" "effect_in x F r s0 s" "a \<in> set file_rights" "Authorize r a s0"
    "F (sv_files s) (snd (g (sv_files s)))"
  shows "effect_in x F r s0 s'"
proof -
  have "allowed r file_rights s0" using assms(3,4) by (auto simp: allowed_def list_ex_iff)
  then show ?thesis unfolding on_files_D[OF assms(1)] by (rule e_files[OF assms(2) _ assms(5)])
qed

lemma e_path:
  "FileRoot r s = root \<Longrightarrow> effect_in x F r s0 s \<Longrightarrow> (\<And>p. P p \<Longrightarrow> effect_in x F r s0 (after (k p))) \<Longrightarrow>
   effect_in x F r s0 (after (with_read_path x r a b s k))"
  using read_path by (auto intro!: e_with_read_path)

lemma HandleMakeAlias:
  assumes root: "FileRoot r s = root"
  shows "effect_in x F r s (after (HandleMakeAlias x r t s))"
proof (cases "Authorize r AccessMakeAlias s")
  case True
  have "effect_in x F r s (after (case on_files (FS_Symlink p q) s of
      (Inl e, s1) \<Rightarrow> Done s1 (E s1) | (Inr u, s1) \<Rightarrow> Done s1 (G s1)))" if "P p" "P q" for p q E G
  proof -
    obtain v s1 where v: "on_files (FS_Symlink p q) s = (v, s1)" by fastforce
    have "effect_in x F r s s1"
      by (rule e_op[OF v e_refl _ True symlink[OF that]]) (simp add: file_rights_def)
    then show ?thesis unfolding v by (cases v) simp_all
  qed
  then show ?thesis using True by (auto simp: HandleMakeAlias_def root intro!: e_path e_refl)
qed (simp add: HandleMakeAlias_def e_refl)

lemma HandleNewFolder:
  assumes root: "FileRoot r s = root"
  shows "effect_in x F r s (after (HandleNewFolder x r t s))"
proof (cases "Authorize r AccessCreateFolder s")
  case True
  have made: "effect_in x F r s (after (case on_files (FS_Stat p) s of
      (e, s1) \<Rightarrow> if e \<noteq> Inl NotExist then Done s1 (A s1)
        else (case on_files (FS_Mkdir p) s1 of (Inl e, s2) \<Rightarrow> Done s2 (B s2) | (Inr u, s2) \<Rightarrow> Done s2 (C s2))))"
    if p: "P p" for p A B C
  proof -
    obtain e s1 where e: "on_files (FS_Stat p) s = (e, s1)" by fastforce
    have e1: "effect_in x F r s s1" unfolding on_files_D[OF e] by (rule e_read_now) (simp add: reads)
    obtain v s2 where v: "on_files (FS_Mkdir p) s1 = (v, s2)" by fastforce
    have "effect_in x F r s s2" by (rule e_op[OF v e1 _ True mkdir[OF p]]) (simp add: file_rights_def)
    then show ?thesis unfolding e using e1 by (cases v) (simp_all add: v)
  qed
  have top: "root = Some d \<Longrightarrow> x_decode x [] = Some m \<Longrightarrow> x_decode x (path_Join [[slash], n]) = Some k \<Longrightarrow>
      P (path_Join [d, m, k])" for d m n k
    using folder_path[where items = "[]"] by (simp add: sub_path_def)
  show ?thesis unfolding HandleNewFolder_def Let_def if_not_P[OF not_not[THEN iffD2, OF True]] root
    by (auto simp: obind_Ok_iff e_refl intro!: made intro: top folder_path split: option.split outcome.split)
qed (simp add: HandleNewFolder_def e_refl)

text \<open>Deleting and moving: a check of the right to change the file, by its kind, before the change.\<close>

lemma e_checked:
  assumes e: "effect_in x F r s0 s" and c: "sv_conns s = sv_conns s0"
    and rights: "a \<in> set file_rights" "b \<in> set file_rights" and F: "\<And>fs. F fs (snd (h fs))"
  shows "effect_in x F r s0 (after (case on_files (file_DataFile f) s of
      (Inl e, s2) \<Rightarrow> Done s2 (E s2)
    | (Inr fi, s2) \<Rightarrow>
        if nf_Mode fi = ModeDir \<and> \<not> Authorize r a s2 then Done s2 (D s2)
        else if nf_Mode fi = ModeRegular \<and> \<not> Authorize r b s2 then Done s2 (H s2)
        else (case on_files h s2 of (Some e, s3) \<Rightarrow> Done s3 [] | (None, s3) \<Rightarrow> Done s3 (G s3))))"
proof -
  obtain v s2 where v: "on_files (file_DataFile f) s = (v, s2)" by fastforce
  have e2: "effect_in x F r s0 s2" unfolding on_files_D[OF v] by (rule e_read[OF e]) (simp add: reads)
  have c2: "Authorize r i s2 = Authorize r i s0" for i using Authorize_cong[OF c] by (simp add: on_files_D[OF v])
  obtain w s3 where w: "on_files h s2 = (w, s3)" by fastforce
  note e3 = e_op[OF w e2 rights(1) _ F] e_op[OF w e2 rights(2) _ F]
  show ?thesis
  proof (cases v)
    case (Inr fi)
    then consider "nf_Mode fi = ModeDir" | "nf_Mode fi = ModeRegular" using data_file_mode v by blast
    then show ?thesis using e2 e3 by cases (cases w; simp add: v w Inr c2)+
  qed (simp add: v e2)
qed

lemma HandleDeleteFile:
  assumes root: "FileRoot r s = root"
  shows "effect_in x F r s (after (HandleDeleteFile x r t s))"
  unfolding HandleDeleteFile_def
  by (rule e_path[OF root e_refl], rule e_with_file[OF e_refl], rule e_checked)
    (simp_all add: e_read_now delete file_rights_def)

lemma HandleMoveFile:
  assumes root: "FileRoot r s = root"
  shows "effect_in x F r s (after (HandleMoveFile x r t s))"
proof -
  have move_here: "F fs (snd (file_Move d f fs))" if "P p" "P d" "file_at p f" for p d f fs
  proof -
    have "f\<lparr>fl_Name := filepath_Base p\<rparr> = f" using that(3) by (simp add: file_at_def)
    then show ?thesis using move[OF that(1,3,2) base_name[OF that(1)], of fs] by simp
  qed
  show ?thesis unfolding HandleMoveFile_def
    by (rule e_path[OF root e_refl], rule e_path[OF root e_refl], rule e_with_file[OF e_refl], rule e_checked)
      (auto simp: e_read_now file_rights_def intro!: move_here)
qed

text \<open>Setting a comment opens the file of the information fork and writes to it.\<close>

lemma e_comment:
  assumes c: "set_comment r t mode f comment s = (v, s')" and mode: "mode = ModeDir \<or> mode = ModeRegular"
    and e: "effect_in x F r s0 s" and conns: "sv_conns s = sv_conns s0" and p: "P p" "file_at p f"
  shows "effect_in x F r s0 s' \<and> (\<exists>fs. s' = s\<lparr>sv_files := fs\<rparr>)"
proof (cases "s' = s")
  case False
  obtain a where a: "a \<in> set file_rights" "Authorize r a s"
    using c mode False by (fastforce simp: set_comment_def file_rights_def split: if_splits)
  have a0: "Authorize r a s0" using a(2) Authorize_cong[OF conns] by simp
  obtain w s1 where w: "on_files (file_InfoForkWriter f) s = (w, s1)" by fastforce
  have e1: "effect_in x F r s0 s1" by (rule e_op[OF w e a(1) a0 open_info[OF p]])
  show ?thesis
  proof (cases w)
    case (Inl err)
    then show ?thesis using c w e1 False on_files_D[OF w] by (auto simp: set_comment_def Let_def split: if_splits)
  next
    case (Inr q)
    have o: "file_InfoForkWriter f (sv_files s) = (Inr q, sv_files s1)"
      using w on_files_D[OF w] unfolding Inr by (auto simp: on_files_def split_beta prod_eq_iff)
    obtain u s2 where u: "on_files (FS_Append q (ffif_bytes (ffif_SetComment (fo_InfoFork (fl_Ffo f)) comment))) s1 = (u, s2)"
      by fastforce
    have s2: "s2 = s\<lparr>sv_files := sv_files s2\<rparr>" using on_files_D[OF w] on_files_D[OF u] by simp
    have "allowed r file_rights s0" using a(1) a0 by (auto simp: allowed_def list_ex_iff)
    moreover have "F (sv_files s) (sv_files s2)"
      using write_info[OF p o] on_files_D[OF u] by simp
    ultimately have "effect_in x F r s0 s2" using e_files[OF e] s2 by metis
    moreover have "s' = s2" using c w u False unfolding Inr
      by (cases u) (auto simp: set_comment_def Let_def split: if_splits)
    ultimately show ?thesis using on_files_D[OF w] on_files_D[OF u] by auto
  qed
qed (use e in \<open>auto intro: exI[of _ "sv_files s"]\<close>)

lemma e_rename:
  assumes e: "effect_in x F r s0 s" and conns: "sv_conns s = sv_conns s0" and root: "FileRoot r s = root"
    and p: "P p" "file_at p f" "P q" and n: "\<And>m. x_decode x n = Some m \<Longrightarrow> N m"
  shows "effect_in x F r s0 (after (rename_entry x r t mode f p q n s))"
proof -
  note a0 = Authorize_cong[OF conns, of r]
  have folder: "effect_in x F r s0 (after (case on_files (FS_Rename p q) s of
      (e, s1) \<Rightarrow> if e = Inl NotExist then Done s1 (A s1) else Done s1 (B s1)))"
    if "Authorize r AccessRenameFolder s" for A B
  proof -
    obtain v s1 where v: "on_files (FS_Rename p q) s = (v, s1)" by fastforce
    have "effect_in x F r s0 s1"
      by (rule e_op[OF v e _ _ rename_folder[OF p(1,3)]]) (use that a0 in \<open>auto simp: file_rights_def\<close>)
    then show ?thesis by (simp add: v)
  qed
  have moved: "effect_in x F r s0 (after (case on_files (file_Move d (f\<lparr>fl_Name := m\<rparr>)) s of
      (Some e, s1) \<Rightarrow> if e = NotExist then Done s1 (A s1) else Done s1 (B s1)
    | (None, s1) \<Rightarrow> Done s1 (C s1)))"
    if "Authorize r AccessRenameFile s" "P d" "x_decode x n = Some m" for A B C d m
  proof -
    obtain v s1 where v: "on_files (file_Move d (f\<lparr>fl_Name := m\<rparr>)) s = (v, s1)" by fastforce
    have "effect_in x F r s0 s1"
      by (rule e_op[OF v e _ _ move[OF p(1,2) that(2) n[OF that(3)]]]) (use that a0 in \<open>auto simp: file_rights_def\<close>)
    then show ?thesis by (simp add: v split: option.split)
  qed
  show ?thesis unfolding rename_entry_def Let_def
    by (auto simp: e intro!: folder moved e_path root split: option.split)
qed

lemma HandleSetFileInfo:
  assumes root: "FileRoot r s = root"
    and n: "\<And>b m. field_data t FieldFileNewName = Some b \<Longrightarrow> x_decode x b = Some m \<Longrightarrow> N m"
  shows "effect_in x F r s (after (HandleSetFileInfo x r t s))"
  unfolding HandleSetFileInfo_def
proof (rule e_path[OF root e_refl])
  fix p assume p: "P p"
  obtain v s1 where st: "on_files (FS_Stat p) s = (v, s1)" by fastforce
  note s1 = on_files_D[OF st]
  have e1: "effect_in x F r s s1" unfolding s1 by (rule e_read_now) (simp add: reads)
  let ?rest = "\<lambda>fi f s2.
      (case (case field_data t FieldFileComment of None \<Rightarrow> (Inr (), s2)
             | Some comment \<Rightarrow> set_comment r t (nf_Mode fi) f comment s2) of
         (Inl ts, s3) \<Rightarrow> Done s3 ts
       | (Inr u, s3) \<Rightarrow> with_read_path x r (field_data t FieldFilePath) (field_data t FieldFileNewName) s3 (\<lambda>q.
           (case field_data t FieldFileNewName of
              None \<Rightarrow> Done s3 [NewReply r t [] s3]
            | Some new \<Rightarrow> rename_entry x r t (nf_Mode fi) f p q new s3)))"
  have rest: "effect_in x F r s (after (?rest fi f (s1\<lparr>sv_files := fs\<rparr>)))"
    if fi: "v = Inr fi" and f: "file_at p f" and fs: "fs_nodes fs = fs_nodes (sv_files s1)" for fi f fs
  proof -
    let ?s2 = "s1\<lparr>sv_files := fs\<rparr>"
    have e2: "effect_in x F r s ?s2" by (rule e_read[OF e1 fs])
    obtain w s3 where w: "(case field_data t FieldFileComment of None \<Rightarrow> (Inr (), ?s2)
        | Some comment \<Rightarrow> set_comment r t (nf_Mode fi) f comment ?s2) = (w, s3)" by fastforce
    have "effect_in x F r s s3 \<and> (\<exists>fs. s3 = ?s2\<lparr>sv_files := fs\<rparr>)"
    proof (cases "field_data t FieldFileComment")
      case (Some comment)
      have c: "set_comment r t (nf_Mode fi) f comment ?s2 = (w, s3)" using w Some by simp
      show ?thesis by (rule e_comment[OF c stat_mode[OF st[unfolded fi]] e2 _ p f]) (simp add: s1)
    qed (use w e2 in \<open>auto intro: exI[of _ fs]\<close>)
    then obtain fs3 where e3: "effect_in x F r s s3" and s3: "s3 = ?s2\<lparr>sv_files := fs3\<rparr>" by blast
    have root3: "FileRoot r s3 = root" using root by (simp add: s3 s1)
    have conns3: "sv_conns s3 = sv_conns s" by (simp add: s3 s1)
    show ?thesis unfolding w prod.case
    proof (cases w)
      case (Inr u)
      show "effect_in x F r s (after (case w of Inl ts \<Rightarrow> Done s3 ts
         | Inr u \<Rightarrow> with_read_path x r (field_data t FieldFilePath) (field_data t FieldFileNewName) s3 (\<lambda>q.
           (case field_data t FieldFileNewName of
              None \<Rightarrow> Done s3 [NewReply r t [] s3]
            | Some new \<Rightarrow> rename_entry x r t (nf_Mode fi) f p q new s3))))"
        unfolding Inr sum.case
        by (rule e_path[OF root3 e3]) (auto simp: e3 intro!: e_rename[OF e3 conns3 root3 p f] n split: option.split)
    qed (simp add: e3)
  qed
  show "effect_in x F r s (after (case on_files (FS_Stat p) s of (Inl e, s1) \<Rightarrow> Done s1 []
      | (Inr fi, s1) \<Rightarrow> with_file x p 0 s1 (?rest fi)))"
    unfolding st prod.case by (cases v) (auto simp: e1 intro!: e_with_file rest)
qed

end

section \<open>Transfers\<close>

lemma e_upd_ft: "effect_in x F r s0 s \<Longrightarrow> effect_in x F r s0 (upd_ft f (\<lambda>ft. ft\<lparr>ft_FileResumeData := a, ft_Options := if b then c else ft_Options ft\<rparr>) s)"
  "effect_in x F r s0 s \<Longrightarrow> effect_in x F r s0 (upd_ft f (\<lambda>ft. ft\<lparr>ft_FolderItemCount := d\<rparr>) s)"
  "effect_in x F r s0 s \<Longrightarrow> effect_in x F r s0 (upd_ft f (\<lambda>ft. ft\<lparr>ft_TransferSize := g\<rparr>) s)"
  by (rule e_ft; simp)+

lemma new_transfer_D: "NewFileTransfer r ty fr fn fp sz s = (f, s') \<Longrightarrow> s' = snd (NewFileTransfer r ty fr fn fp sz s)"
  by simp

lemma effect_transfer_handlers:
  "effect_in x F r s (after (HandleDownloadFile x r t s))"
  "effect_in x F r s (after (HandleDownloadFolder x r t s))"
  "effect_in x F r s (after (HandleUploadFolder x r t s))"
  subgoal by (auto simp: HandleDownloadFile_def Let_def split_beta e_refl e_read_now intro!: e_with_read_path e_with_file e_upd_ft e_transfer
      split: option.split outcome.split)
  subgoal by (auto simp: HandleDownloadFolder_def Let_def e_refl e_read_now reads dest!: on_files_D intro!: e_with_read_path
      e_transfer dest!: new_transfer_D split: option.split outcome.split prod.split sum.split)
  subgoal by (auto simp: HandleUploadFolder_def Let_def split_beta e_refl intro!: e_upd_ft e_transfer split: option.split outcome.split bool.split)
  done


lemma effect_HandleUploadFile: "effect_in x F r s (after (HandleUploadFile x r t s))"
proof -
  have fin: "effect_in x F r s (after (case on_files (FS_Stat p) s2 of
      (Inl e, s3) \<Rightarrow> Done s3 []
    | (Inr i, s3) \<Rightarrow>
        let offset = be32 (u32 (nf_Size i)); s4 = upd_ft f (\<lambda>ft. ft\<lparr>ft_TransferSize := Some offset\<rparr>) s3
        in (case NewForkInfoList offset of Ok l \<Rightarrow> Done s4 (G l s4) | _ \<Rightarrow> Crash s4)))"
    if "effect_in x F r s s2" for p f s2 G
  proof -
    obtain v s3 where v: "on_files (FS_Stat p) s2 = (v, s3)" by (cases "on_files (FS_Stat p) s2")
    have "effect_in x F r s s3" unfolding on_files_D[OF v] by (rule e_read[OF that]) (simp add: reads)
    then show ?thesis unfolding v by (auto simp: Let_def intro!: e_upd_ft split: sum.split outcome.split)
  qed
  have stat: "effect_in x F r s (after (case on_files (FS_Stat p) s of
      (Inr fi, s1) \<Rightarrow> Done s1 (E fi s1)
    | (Inl e, s1) \<Rightarrow>
        (case NewFileTransfer r FileUpload (R s1) fn fp sz s1 of (f, s2) \<Rightarrow>
           let ref = H f s2 in
           if opt then Done s2 (I ref s2)
           else (case on_files (FS_Stat (p @ IncompleteFileSuffix)) s2 of
             (Inl e, s3) \<Rightarrow> Done s3 []
           | (Inr i, s3) \<Rightarrow>
               let offset = be32 (u32 (nf_Size i)); s4 = upd_ft f (\<lambda>ft. ft\<lparr>ft_TransferSize := Some offset\<rparr>) s3
               in (case NewForkInfoList offset of Ok l \<Rightarrow> Done s4 (G ref l s4) | _ \<Rightarrow> Crash s4)))))"
    for p fn fp sz opt E H I G R
  proof -
    obtain v s1 where v: "on_files (FS_Stat p) s = (v, s1)" by (cases "on_files (FS_Stat p) s")
    have e1: "effect_in x F r s s1" unfolding on_files_D[OF v] by (rule e_read_now) (simp add: reads)
    obtain f s2 where n: "NewFileTransfer r FileUpload (R s1) fn fp sz s1 = (f, s2)"
      by (cases "NewFileTransfer r FileUpload (R s1) fn fp sz s1")
    have e2: "effect_in x F r s s2" using e_transfer[OF e1, of FileUpload "R s1" fn fp sz] n by simp
    show ?thesis unfolding v using e1 e2 fin[OF e2, where p = "p @ IncompleteFileSuffix" and f = f]
      by (cases v) (simp_all add: n Let_def del: One_nat_def)
  qed
  show ?thesis
    unfolding HandleUploadFile_def Let_def[of "field_data t FieldFileName"] Let_def[of "field_data t FieldFilePath"]
    by (auto simp: e_refl intro!: e_with_read_path stat split: outcome.split bool.split)
qed

section \<open>Every handler of the table\<close>

lemmas effect_handlers = effect_chat_handlers effect_user_handlers effect_HandleUpdateUser effect_HandleDisconnectUser
  effect_HandleTranAgreed effect_HandleSetClientUserInfo effect_news_handlers effect_file_reads effect_transfer_handlers
  effect_HandleUploadFile

text \<open>A policy holds for the whole table, if files are renamed to names it accepts.\<close>

context file_policy
begin

lemma handler:
  assumes "RegisterHandlers x ty = Some h" and root: "FileRoot r s = root"
    and n: "\<And>b m. ty = TranSetFileInfo \<Longrightarrow> field_data t FieldFileNewName = Some b \<Longrightarrow> x_decode x b = Some m \<Longrightarrow> N m"
  shows "effect_in x F r s (after (h r t s))"
proof (cases "ty = TranSetFileInfo")
  case True
  then have "h = HandleSetFileInfo x" using assms(1) by (simp add: RegisterHandlers_def)
  then show ?thesis using n[OF True] by (simp add: HandleSetFileInfo root)
next
  case False
  show ?thesis using map_of_SomeD[OF assms(1)[unfolded RegisterHandlers_def]] False
    by (auto simp: effect_handlers HandleMakeAlias HandleNewFolder HandleDeleteFile HandleMoveFile root)
qed

end

text \<open>The policy that allows everything: every handler has an effect.\<close>

interpretation any_files: file_policy x root "\<lambda>p. True" "\<lambda>n. True" "\<lambda>fs fs'. True" for x root
  by unfold_locales simp_all

lemma effect_handler: "RegisterHandlers x ty = Some h \<Longrightarrow> effect x r s (after (h r t s))"
  by (rule any_files.handler) simp_all

end
