(* ===== verification/HL_World.thy ===== *)
theory HL_World
  imports HL_Handler_Effects
begin

text \<open>
  The invariant of a running server: every step of every goroutine keeps it, so it holds in every state
  that can be reached from a start.  It says how clients are numbered and registered, which of them are
  marked away, and that the count of connected users is the number of live sessions.
\<close>

section \<open>What the invariant looks at\<close>

definition is_away :: "nat \<Rightarrow> server \<Rightarrow> bool" where
  "is_away r s = UserFlags_IsSet (cl_Flags (cc s r)) UserFlagAway"

definition conn_view :: "ClientConn \<Rightarrow> 16 word \<times> bool \<times> nat \<times> bool \<times> bool" where
  "conn_view c = (cl_ID c, UserFlags_IsSet (cl_Flags c) UserFlagAway, cl_IdleTime c, cl_closed c, cl_Account c = None)"

definition view :: "server \<Rightarrow> nat \<times> 32 word \<times> (16 word, nat) gmap \<times> nat list \<times> stats \<times>
    (nat \<Rightarrow> 16 word \<times> bool \<times> nat \<times> bool \<times> bool)" where
  "view s = (sv_next s, sv_nextClientID s, sv_clients s, sv_later s, sv_stats s, \<lambda>r. conn_view (cc s r))"

named_theorems views

lemma view_fields [views]:
  "view (s\<lparr>sv_chats := a\<rparr>) = view s" "view (s\<lparr>sv_fts := b\<rparr>) = view s" "view (s\<lparr>sv_next_ft := n\<rparr>) = view s"
  "view (s\<lparr>sv_fileTransfers := d\<rparr>) = view s" "view (s\<lparr>sv_accounts := e\<rparr>) = view s" "view (s\<lparr>sv_bans := g\<rparr>) = view s"
  "view (s\<lparr>sv_news := h\<rparr>) = view s" "view (s\<lparr>sv_board := i\<rparr>) = view s" "view (s\<lparr>sv_disk := j\<rparr>) = view s"
  "view (s\<lparr>sv_files := k\<rparr>) = view s" "view (s\<lparr>sv_outbox := l\<rparr>) = view s" "view (s\<lparr>sv_rand := q\<rparr>) = view s"
  "view (s\<lparr>sv_redis := u\<rparr>) = view s" "view (s\<lparr>sv_agreement := w\<rparr>) = view s"
  by (simp_all add: view_def)

lemma view_skip_rand [views]: "view (skip_rand n s) = view s"
  by (simp add: skip_rand_def views)

lemma view_send [views]: "view (send ts s) = view s"
  by (simp add: send_def views)

lemma view_upd_conn: "conn_view (f (cc s r)) = conn_view (cc s r) \<Longrightarrow> view (upd_conn r f s) = view s"
  by (auto simp: view_def upd_conn_def)

lemma view_fan_out [views]: "view (snd (fan_out ty fs rs s)) = view s"
  by (induction ty fs rs s rule: fan_out.induct) (simp_all add: split_beta views)

lemma view_new_tran [views]: "view (snd (new_tran ty i fs s)) = view s"
  by (simp add: new_tran_def views)

lemma view_SendAll [views]: "view (SendAll ty fs s) = view s"
  by (simp add: SendAll_def views split_beta)

lemma view_redis [views]: "view (redis_SRem e s) = view s" "view (redis_SAdd e s) = view s"
  by (simp_all add: redis_SRem_def redis_SAdd_def views)

lemma view_on [views]: "view (snd (on_accounts f s)) = view s" "view (snd (on_news g s)) = view s"
  "view (snd (on_files h s)) = view s"
  by (simp_all add: on_accounts_def on_news_def on_files_def split_beta views)

lemma view_ban_address: "ban_address x ip u s = Some s' \<Longrightarrow> view s' = view s"
  by (auto simp: ban_address_def views split: option.splits outcome.splits)

lemma view_chats: "ChatMgr_Join i r s = Some s' \<Longrightarrow> view s' = view s" "ChatMgr_SetSubject i b s = Some s' \<Longrightarrow> view s' = view s"
  by (auto simp: ChatMgr_Join_def ChatMgr_SetSubject_def views split: option.splits)

lemma view_chats' [views]: "view (snd (ChatMgr_New r s)) = view s" "view (ChatMgr_Leave i k s) = view s"
  by (auto simp: ChatMgr_New_def ChatMgr_Leave_def Let_def views split: option.splits)

lemma view_upd_ft [views]: "view (upd_ft f g s) = view s"
  by (simp add: upd_ft_def views)

lemma view_NewFileTransfer [views]: "view (snd (NewFileTransfer r ty fr fn fp sz s)) = view s"
  by (simp add: NewFileTransfer_def FileTransferMgr_Add_def Let_def cftm_Add_def views view_upd_conn conn_view_def)

lemma view_same_conn: "same_conn c d \<Longrightarrow> cl_Account d = cl_Account c \<Longrightarrow> conn_view d = conn_view c"
  by (auto simp: same_conn_def conn_view_def)

lemma view_set_access: "cl_Account c = Some a \<Longrightarrow> conn_view (c\<lparr>cl_Account := Some b\<rparr>) = conn_view c"
  by (simp add: conn_view_def)

section \<open>The invariant of a server\<close>

definition id_of :: "nat \<Rightarrow> 16 word" where
  "id_of r = of_nat (Suc r)"

definition server_inv :: "server \<Rightarrow> bool" where
  "server_inv s \<longleftrightarrow>
     sv_nextClientID s = of_nat (sv_next s) \<and> wf_map (sv_clients s) \<and> set (sv_later s) \<subseteq> {..< sv_next s} \<and>
     (\<forall>r < sv_next s. cl_ID (cc s r) = id_of r) \<and>
     (\<forall>r < sv_next s. is_away r s \<longleftrightarrow> 300 < cl_IdleTime (cc s r)) \<and>
     (\<forall>i r. map_of (sv_clients s) i = Some r \<longrightarrow> r < sv_next s \<and> i = id_of r) \<and>
     (sv_next s < 65536 \<longrightarrow> (\<forall>r < sv_next s. cl_closed (cc s r) \<longleftrightarrow> map_of (sv_clients s) (id_of r) = None))"

text \<open>What a handler keeps beside it.\<close>

definition keeps :: "server \<Rightarrow> server \<Rightarrow> bool" where
  "keeps s s' \<longleftrightarrow> sv_next s' = sv_next s \<and> sv_stats s' = sv_stats s \<and>
     (\<forall>r. cl_Account (cc s' r) = None \<longleftrightarrow> cl_Account (cc s r) = None)"

lemma keeps_refl [simp]: "keeps s s"
  by (simp add: keeps_def)

lemma keeps_trans: "keeps s s' \<Longrightarrow> keeps s' s'' \<Longrightarrow> keeps s s''"
  by (simp add: keeps_def)

lemma view_eqD:
  assumes "view s' = view s"
  shows "sv_next s' = sv_next s" "sv_nextClientID s' = sv_nextClientID s" "sv_clients s' = sv_clients s"
    "sv_later s' = sv_later s" "sv_stats s' = sv_stats s" "cl_ID (cc s' r) = cl_ID (cc s r)" "is_away r s' = is_away r s"
    "cl_IdleTime (cc s' r) = cl_IdleTime (cc s r)" "cl_closed (cc s' r) = cl_closed (cc s r)"
    "(cl_Account (cc s' r) = None) = (cl_Account (cc s r) = None)"
  using assms by (auto simp: view_def conn_view_def is_away_def fun_eq_iff)

lemma view_inv: "view s' = view s \<Longrightarrow> server_inv s \<Longrightarrow> server_inv s' \<and> keeps s s'"
  unfolding server_inv_def keeps_def view_eqD[of s' s] by blast

section \<open>Client IDs\<close>

lemma id_of_inj: "r < 65536 \<Longrightarrow> q < 65536 \<Longrightarrow> id_of r = id_of q \<longleftrightarrow> r = q"
  by (auto simp: id_of_def word_of_nat_eq_iff take_bit_eq_mod mod_Suc simp del: of_nat_Suc split: if_splits)

section \<open>The operations that change the view\<close>

lemma Disconnect_alt:
  "view (Disconnect r s) = view (upd_conn r (\<lambda>c. c\<lparr>cl_closed := True\<rparr>) (s\<lparr>sv_clients := mdel (cl_ID (cc s r)) (sv_clients s)\<rparr>))"
  by (simp add: Disconnect_def ClientMgr_Delete_def Let_def new_tran_def view_def upd_conn_def skip_rand_def send_def)

lemma Disconnect_inv:
  assumes "server_inv s" "r < sv_next s" shows "server_inv (Disconnect r s) \<and> keeps s (Disconnect r s)"
proof -
  let ?s = "upd_conn r (\<lambda>c. c\<lparr>cl_closed := True\<rparr>) (s\<lparr>sv_clients := mdel (id_of r) (sv_clients s)\<rparr>)"
  have "cl_ID (cc s r) = id_of r" using assms by (simp add: server_inv_def)
  then have v: "view (Disconnect r s) = view ?s" using Disconnect_alt[of r s] by simp
  have "server_inv ?s"
    using assms unfolding server_inv_def by (auto simp: upd_conn_def is_away_def id_of_inj)
  moreover have "keeps s ?s" by (simp add: keeps_def upd_conn_def)
  ultimately show ?thesis using view_inv[OF v] keeps_trans by blast
qed

lemma later_inv:
  assumes "server_inv s" "c \<in> snd ` set (sv_clients s)"
  shows "server_inv (disconnect_later c s) \<and> keeps s (disconnect_later c s)"
  using assms by (force simp: server_inv_def keeps_def disconnect_later_def is_away_def wf_map_map_of)

text \<open>Both at once, for the proofs.\<close>

definition good :: "server \<Rightarrow> server \<Rightarrow> bool" where
  "good s0 s \<longleftrightarrow> server_inv s \<and> keeps s0 s"

lemma good_refl: "server_inv s \<Longrightarrow> good s s"
  by (simp add: good_def)

lemma good_trans: "good s0 s1 \<Longrightarrow> good s1 s2 \<Longrightarrow> good s0 s2"
  unfolding good_def using keeps_trans by blast

lemma good_next: "good s0 s \<Longrightarrow> sv_next s = sv_next s0"
  by (simp add: good_def keeps_def)

lemma inv_view: "good s0 s \<Longrightarrow> view s' = view s \<Longrightarrow> good s0 s'"
  unfolding good_def by (meson view_inv keeps_trans)

lemma effect_inv:
  assumes "effect x r s0 s" "server_inv s0" "r < sv_next s0"
  shows "good s0 s"
  using assms(1)
proof (induction rule: effect_in.induct)
  case e_refl
  then show ?case using assms by (simp add: good_refl)
next
  case (e_disconnect s)
  then show ?case using Disconnect_inv[of s r] good_trans[of s0 s] assms by (simp add: good_def keeps_def)
next
  case (e_later s c)
  then show ?case using later_inv[of s c] keeps_trans[of s0 s] by (auto simp: good_def)
next
  case (e_conn s c f)
  then show ?case by (meson inv_view view_upd_conn view_same_conn)
next
  case (e_access s c a access)
  then show ?case by (intro inv_view[OF _ view_upd_conn]) (auto intro: view_set_access)
next
  case (e_chat_join i s s')
  then show ?case by (meson inv_view view_chats)
next
  case (e_chat_subject i b s s')
  then show ?case by (meson inv_view view_chats)
next
  case (e_ban ip u s s')
  then show ?case by (meson inv_view view_ban_address)
qed (erule inv_view; simp add: views)+


section \<open>Transactions and the idle check\<close>

lemma upd_inv:
  assumes "good s0 s" "cl_ID (f (cc s r)) = cl_ID (cc s r)" "cl_closed (f (cc s r)) = cl_closed (cc s r)"
    "cl_Account (f (cc s r)) = None \<longleftrightarrow> cl_Account (cc s r) = None"
    "UserFlags_IsSet (cl_Flags (f (cc s r))) UserFlagAway \<longleftrightarrow> 300 < cl_IdleTime (f (cc s r))"
  shows "good s0 (upd_conn r f s)"
  using assms by (auto simp: good_def server_inv_def keeps_def is_away_def upd_conn_def)

lemma upd_upd [simp]: "upd_conn r g (upd_conn r f s) = upd_conn r (g \<circ> f) s"
  by (simp add: upd_conn_def)

lemma handled_inv:
  assumes "server_inv s" "r < sv_next s"
  shows "good s (after (handleTransaction (RegisterHandlers x) r t s))"
proof -
  let ?z = "case RegisterHandlers x (tr_Type t) of None \<Rightarrow> Done s [] | Some h \<Rightarrow> h r t s"
  have z: "good s (after ?z)"
    using effect_inv[OF effect_handler assms] assms by (auto simp: good_refl split: option.split)
  show ?thesis
  proof (cases ?z)
    case (Done s1 ts)
    then have s1: "good s (send ts s1)" using z inv_view[OF _ view_send] by simp
    have "good s (upd_conn r (\<lambda>c. c\<lparr>cl_IdleTime := 0\<rparr>) (send ts s1))"
      if "\<not> UserFlags_IsSet (cl_Flags (cc (send ts s1) r)) UserFlagAway"
      by (rule upd_inv[OF s1]) (use that in auto)
    moreover have "good s (upd_conn r ((\<lambda>c. c\<lparr>cl_Flags := UserFlags_Set (cl_Flags c) UserFlagAway False\<rparr>) \<circ>
        (\<lambda>c. c\<lparr>cl_IdleTime := 0\<rparr>)) (send ts s1))"
      by (rule upd_inv[OF s1]) (simp_all add: UserFlags_IsSet_Set)
    ultimately show ?thesis
      using s1 unfolding handleTransaction_def Done by (auto simp: Let_def intro!: inv_view[OF _ view_SendAll])
  qed (use z in \<open>simp add: handleTransaction_def\<close>)
qed

lemma idle_check_inv:
  assumes "good s0 s" "r < sv_next s0"
  shows "good s0 (idle_check r s)"
proof -
  have "is_away r s \<longleftrightarrow> 300 < cl_IdleTime (cc s r)" using assms good_next[OF assms(1)] by (simp add: good_def server_inv_def)
  then show ?thesis
    using assms(1) unfolding idle_check_def Let_def upd_upd
    by (auto simp: is_away_def UserFlags_IsSet_Set intro!: inv_view[OF _ view_SendAll] upd_inv)
qed

lemma keepalive_inv:
  assumes "server_inv s" shows "good s (keepalive_tick s)"
proof -
  have "good s (fold idle_check rs s')" if "good s s'" "set rs \<subseteq> {..< sv_next s}" for rs s'
    using that by (induction rs arbitrary: s') (simp_all add: idle_check_inv)
  moreover have "set (ClientMgr_List s) \<subseteq> {..< sv_next s}"
    using assms by (auto simp: set_ClientMgr_List server_inv_def wf_map_map_of)
  ultimately show ?thesis using good_refl[OF assms] by (simp add: keepalive_tick_def)
qed

section \<open>Requests of administrators\<close>

lemma view_banner [views]: "view (s\<lparr>sv_Banner := b\<rparr>) = view s"
  by (simp add: view_def)

lemma view_reload [views]: "view (reloadFunc x lo dir s) = view s"
  by (simp add: reloadFunc_def Let_def reload_with_def reload_bans_def reload_banner_def views split_beta split: option.split sum.split)

lemma kick_banned_inv: "set rs \<subseteq> {..< sv_next s0} \<Longrightarrow> good s0 s \<Longrightarrow> good s0 (snd (kick_banned req rs s))"
proof (induction req rs s rule: kick_banned.induct)
  case (2 req r rs s)
  have "good s0 (Disconnect r s)"
    using "2.prems" Disconnect_inv[of s r] keeps_trans[of s0 s] good_next[OF "2.prems"(2)] by (simp add: good_def)
  then show ?case using 2 by simp
qed simp

lemma ban_part_inv:
  assumes "good s0 s" "\<And>s. good s0 s \<Longrightarrow> good s0 (snd (next s))"
  shows "good s0 (snd (ban_part b f msg next s))"
proof -
  have "good s0 (s\<lparr>sv_bans := u, sv_disk := d\<rparr>)" for u d by (rule inv_view[OF assms(1)]) (simp add: views)
  then show ?thesis using assms by (auto simp: ban_part_def Let_def split: option.split outcome.split)
qed

lemma list_bans_state [simp]: "snd (list_bans a f body s) = s"
  by (simp add: list_bans_def split: option.split)

lemma clients_numbered: "server_inv s \<Longrightarrow> set (ClientMgr_List s) \<subseteq> {..< sv_next s}"
  by (auto simp: set_ClientMgr_List server_inv_def wf_map_map_of)

lemma kick_all_inv: "good s0 s \<Longrightarrow> good s0 (snd (kick_banned req (ClientMgr_List s) s))"
  using clients_numbered[of s] good_next[of s0 s] by (intro kick_banned_inv) (auto simp: good_def)

lemma serve_api_inv:
  assumes "server_inv s" shows "good s (snd (serve_api x a url header body s))"
proof -
  note g = good_refl[OF assms]
  have "good s (snd (h body s))" if "h \<in> snd ` set (api_routes x a)" for h
    using that g
    by (auto simp: api_routes_def OnlineHandler_def BanHandler_def UnbanHandler_def ListBannedIPsHandler_def
        ListBannedUsernamesHandler_def ListBannedNicknamesHandler_def ReloadHandler_def ShutdownHandler_def Shutdown_def
        RenderStats_def Let_def inv_view[OF g] views intro!: ban_part_inv kick_all_inv split: option.split)
  then have "good s (snd (authMiddleware k header h body s))" if "map_of (api_routes x a) url = Some h" for h k
    using that g map_of_SomeD by (fastforce simp: authMiddleware_def)
  then show ?thesis using g by (auto simp: serve_api_def split: option.split)
qed

section \<open>Transfers\<close>

text \<open>A transfer changes no more than the counters of transfers.\<close>

definition steady :: "server \<Rightarrow> server \<Rightarrow> bool" where
  "steady s s' \<longleftrightarrow> view (s'\<lparr>sv_stats := sv_stats s\<rparr>) = view s \<and>
     Stats_Get StatCurrentlyConnected (sv_stats s') = Stats_Get StatCurrentlyConnected (sv_stats s)"

lemma steady_refl [simp]: "steady s s"
  by (simp add: steady_def)

lemma steady_trans: "steady s s' \<Longrightarrow> steady s' s'' \<Longrightarrow> steady s s''"
  by (simp add: steady_def view_def)

lemma steady_view: "view s' = view s \<Longrightarrow> steady s s'"
  by (simp add: steady_def view_def)

lemma begin_transfer_steady: "steady s (begin_transfer ty s)"
  by (simp add: begin_transfer_def transfer_stats_def steady_def view_def Stats_Increment_def Stats_Get_def)

lemma finish_transfer_steady: "steady s (finish_transfer ty s)"
  by (simp add: finish_transfer_def transfer_stats_def steady_def view_def Stats_Decrement_def Stats_Get_def)

lemma run_transfer_steady: "steady s (snd (snd (run_transfer x f cs room s)))"
proof -
  have "steady s (finish_transfer ty (upd_ft f g (begin_transfer ty' s\<lparr>sv_files := fs\<rparr>)))" for ty ty' g fs
    by (rule steady_trans[OF _ finish_transfer_steady], rule steady_trans[OF begin_transfer_steady steady_view])
      (simp add: views)
  then show ?thesis
    unfolding run_transfer_def Let_def by (auto split: outcome.split prod.split)
qed

lemma FileTransferMgr_Delete_steady: "FileTransferMgr_Delete i s = Some s' \<Longrightarrow> steady s s'"
  by (intro steady_view) (auto simp: FileTransferMgr_Delete_def Let_def cftm_Delete_def views view_upd_conn conn_view_def split: option.splits)

lemma handleFileTransfer_steady: "steady s (snd (snd (handleFileTransfer x cs room s)))"
  unfolding handleFileTransfer_def
  by (auto split: option.split outcome.split prod.split)
    (metis FileTransferMgr_Delete_steady run_transfer_steady snd_conv steady_trans)+

section \<open>Logging in and out\<close>

lemma ucast_next: "ucast (of_nat n + 1 :: 32 word) = id_of n"
proof -
  have "ucast (of_nat n + 1 :: 32 word) = (ucast (of_nat (Suc n) :: 32 word) :: 16 word)" by (simp add: add.commute)
  also have "\<dots> = of_nat (Suc n)" by (rule bit_word_eqI) (simp add: bit_simps del: of_nat_Suc)
  finally show ?thesis by (simp only: id_of_def)
qed

lemma new_client:
  assumes "server_inv s" "NewClientConn a s = (r, s1)"
  shows "r = sv_next s" "server_inv s1" "sv_next s1 = Suc r" "sv_stats s1 = sv_stats s" "q < r \<Longrightarrow> cc s1 q = cc s q"
proof -
  have n: "ucast (sv_nextClientID s + 1) = id_of (sv_next s)" using assms(1) ucast_next by (simp add: server_inv_def)
  obtain c where e: "r = sv_next s" "s1 = s\<lparr>sv_conns := (sv_conns s)(sv_next s := c), sv_next := Suc (sv_next s),
      sv_nextClientID := sv_nextClientID s + 1, sv_clients := mput (id_of (sv_next s)) (sv_next s) (sv_clients s)\<rparr>"
    and c: "cl_ID c = id_of r" "\<not> cl_closed c" "\<not> UserFlags_IsSet (cl_Flags c) UserFlagAway" "cl_IdleTime c = 0"
  proof
    let ?c = "\<lparr>cl_RemoteAddr = a, cl_ID = id_of (sv_next s), cl_Icon = Some [0, 0], cl_Version = None, cl_Flags = 0,
      cl_UserName = [], cl_Account = None, cl_IdleTime = 0, cl_AutoReply = [], cl_transfers = \<lambda>_. [], cl_closed = False\<rparr>"
    show "r = sv_next s" "s1 = s\<lparr>sv_conns := (sv_conns s)(sv_next s := ?c), sv_next := Suc (sv_next s),
        sv_nextClientID := sv_nextClientID s + 1, sv_clients := mput (id_of (sv_next s)) (sv_next s) (sv_clients s)\<rparr>"
      using assms(2) n by (auto simp: NewClientConn_def ClientMgr_Add_def Let_def upd_conn_def intro!: server.equality)
    then show "cl_ID ?c = id_of r" "\<not> cl_closed ?c" "\<not> UserFlags_IsSet (cl_Flags ?c) UserFlagAway" "cl_IdleTime ?c = 0"
      by (simp_all add: UserFlags_IsSet_def)
  qed
  show "r = sv_next s" "sv_next s1 = Suc r" "sv_stats s1 = sv_stats s" "q < r \<Longrightarrow> cc s1 q = cc s q" by (simp_all add: e)
  have "sv_next s \<noteq> q" if "map_of (sv_clients s) i = Some q" for i q using assms(1) that by (auto simp: server_inv_def)
  then show "server_inv s1"
    using assms(1) c unfolding server_inv_def e by (auto simp: is_away_def less_Suc_eq id_of_inj)
qed

lemma upd_server_inv:
  assumes "server_inv s" "cl_ID (f (cc s r)) = cl_ID (cc s r)" "cl_closed (f (cc s r)) = cl_closed (cc s r)"
    "UserFlags_IsSet (cl_Flags (f (cc s r))) UserFlagAway \<longleftrightarrow> UserFlags_IsSet (cl_Flags (cc s r)) UserFlagAway"
    "cl_IdleTime (f (cc s r)) = cl_IdleTime (cc s r)"
  shows "server_inv (upd_conn r f s)"
  using assms by (auto simp: server_inv_def is_away_def upd_conn_def)


lemma set_up_client_inv:
  assumes "server_inv s"
  shows "server_inv (set_up_client t acc r s)" "sv_next (set_up_client t acc r s) = sv_next s"
    "sv_stats (set_up_client t acc r s) = sv_stats s" "cl_Account (cc (set_up_client t acc r s) r) \<noteq> None"
    "q \<noteq> r \<Longrightarrow> cc (set_up_client t acc r s) q = cc s q"
proof -
  let ?P = "\<lambda>s'. server_inv s' \<and> sv_next s' = sv_next s \<and> sv_stats s' = sv_stats s \<and> (q \<noteq> r \<longrightarrow> cc s' q = cc s q)"
  have u: "?P (upd_conn r f s')" if "?P s'" "same_conn (cc s' r) (f (cc s' r))" for f s'
    using that upd_server_inv[of s' f r] by (auto simp: upd_conn_def same_conn_def)
  have a: "?P (upd_conn r (\<lambda>c. c\<lparr>cl_Account := Some acc\<rparr>) s')" if "?P s'" for s'
    by (rule u[OF that]) (simp add: same_conn_def)
  have i: "?P (upd_conn r (\<lambda>c. c\<lparr>cl_Icon := g c\<rparr>) s')" if "?P s'" for g s'
    by (rule u[OF that]) simp
  have n: "?P (upd_conn r (\<lambda>c. c\<lparr>cl_UserName := b\<rparr>) s')" if "?P s'" for b s'
    by (rule u[OF that]) simp
  have f: "?P (upd_conn r (\<lambda>c. c\<lparr>cl_Flags := UserFlags_Set (cl_Flags c) UserFlagAdmin True\<rparr>) s')" if "?P s'" for s'
    by (rule u[OF that]) simp
  have n': "?P (case v of None \<Rightarrow> s' | Some b \<Rightarrow> upd_conn r (\<lambda>c. c\<lparr>cl_UserName := g b\<rparr>) s')" if "?P s'" for v g s'
    using n[OF that] that by (cases v) simp_all
  have f': "?P (if b then upd_conn r (\<lambda>c. c\<lparr>cl_Flags := UserFlags_Set (cl_Flags c) UserFlagAdmin True\<rparr>) s' else s')"
    if "?P s'" for b s' using f[OF that] that by simp
  have "?P s" using assms by simp
  then have "?P (set_up_client t acc r s)"
    unfolding set_up_client_def Let_def by (intro a i f' n')
  then show "server_inv (set_up_client t acc r s)" "sv_next (set_up_client t acc r s) = sv_next s"
    "sv_stats (set_up_client t acc r s) = sv_stats s" "q \<noteq> r \<Longrightarrow> cc (set_up_client t acc r s) q = cc s q" by auto
  show "cl_Account (cc (set_up_client t acc r s) r) \<noteq> None"
    by (simp add: set_up_client_def Let_def upd_conn_def split: option.split)
qed

lemma view_show_agreement [views]: "view (show_agreement x r s) = view s"
  by (simp add: show_agreement_def split_beta views)

lemma view_announce [views]: "view (announce r s) = view s"
  by (simp add: announce_def split_beta views)

lemma greet_view:
  obtains s1 where "greet x t login ip acc r s = count_login s1" "view s1 = view s"
  unfolding greet_def Let_def by (auto simp: split_beta views intro: that)

lemma count_login_inv:
  "server_inv (count_login s) = server_inv s" "sv_next (count_login s) = sv_next s" "cc (count_login s) = cc s"
  "Stats_Get StatCurrentlyConnected (sv_stats (count_login s)) = Stats_Get StatCurrentlyConnected (sv_stats s) + 1"
  by (simp_all add: count_login_def Let_def server_inv_def is_away_def Stats_Get_def Stats_Set_def Stats_Increment_def)


section \<open>The whole server\<close>

definition world_inv :: "world \<Rightarrow> bool" where
  "world_inv w \<longleftrightarrow> server_inv (wo_server w) \<and> distinct (map se_conn (wo_live w)) \<and>
     (\<forall>se \<in> set (wo_live w). se_conn se < sv_next (wo_server w) \<and> cl_Account (cc (wo_server w) (se_conn se)) \<noteq> None) \<and>
     Stats_Get StatCurrentlyConnected (sv_stats (wo_server w)) = int (length (wo_live w))"

lemma end_connection_inv:
  "server_inv s \<Longrightarrow> r < sv_next s \<Longrightarrow> good s (end_connection login ip r s)"
proof -
  assume a: "server_inv s" "r < sv_next s"
  have "good s s'" if "view s' = view s" for s' using inv_view[OF good_refl[OF a(1)] that] .
  then have "good s (Disconnect r s')" if "view s' = view s" for s'
    using that a good_trans Disconnect_inv[of s' r] by (metis good_def good_next)
  then show ?thesis unfolding end_connection_def Let_def by (simp add: views)
qed

lemma world_inv_keeps:
  "world_inv w \<Longrightarrow> good (wo_server w) s \<Longrightarrow> world_inv (w\<lparr>wo_server := s\<rparr>)"
  by (auto simp: world_inv_def good_def keeps_def)

lemma steady_inv: "world_inv w \<Longrightarrow> steady (wo_server w) s \<Longrightarrow> world_inv (w\<lparr>wo_server := s\<rparr>)"
proof -
  assume w: "world_inv w" and s: "steady (wo_server w) s"
  let ?s = "s\<lparr>sv_stats := sv_stats (wo_server w)\<rparr>"
  have "view ?s = view (wo_server w)" using s by (simp add: steady_def)
  then have "good (wo_server w) ?s" using w inv_view[OF good_refl] by (simp add: world_inv_def)
  moreover have "server_inv ?s \<longleftrightarrow> server_inv s" by (simp add: server_inv_def is_away_def)
  ultimately show ?thesis using w s by (auto simp: world_inv_def good_def keeps_def steady_def)
qed

lemma close_session_inv:
  assumes "world_inv w" "se \<in> set (wo_live w)" shows "world_inv (close_session se w)"
proof -
  let ?s = "count_logout (wo_server w)"
  have i: "server_inv ?s" "sv_next ?s = sv_next (wo_server w)" "cc ?s = cc (wo_server w)"
    using assms(1) by (simp_all add: world_inv_def server_inv_def count_logout_def is_away_def)
  have r: "se_conn se < sv_next ?s" using assms by (simp add: world_inv_def i)
  have d: "distinct (wo_live w)" using assms(1) distinct_map by (auto simp: world_inv_def)
  have len: "length (wo_live w) = Suc (length (removeAll se (wo_live w)))"
    using d assms(2) by (simp add: distinct_remove1_removeAll[symmetric] length_remove1) (metis Suc_pred length_pos_if_in_set)
  have st: "Stats_Get StatCurrentlyConnected (sv_stats ?s) = int (length (removeAll se (wo_live w)))"
    using assms(1) len by (simp add: world_inv_def count_logout_def Stats_Decrement_def Stats_Get_def)
  have e: "good ?s (end_connection (se_login se) (se_ip se) (se_conn se) ?s)"
    using end_connection_inv[OF i(1) r] .
  have "distinct (map se_conn (removeAll se (wo_live w)))"
    using assms(1) by (simp add: world_inv_def removeAll_filter_not_eq distinct_map_filter)
  then show ?thesis using assms(1) e st i
    by (auto simp: world_inv_def close_session_def good_def keeps_def)
qed


text \<open>What a login leaves, by its outcome.\<close>

definition logged_in :: "server \<Rightarrow> server \<Rightarrow> nat \<Rightarrow> bool" where
  "logged_in s s' r \<longleftrightarrow> r = sv_next s \<and> sv_next s' = Suc r \<and> server_inv s' \<and>
     (\<forall>q < r. cl_Account (cc s' q) = None \<longleftrightarrow> cl_Account (cc s q) = None)"

fun login_ok :: "server \<Rightarrow> login_result \<Rightarrow> bool" where
  "login_ok s (Refused s' b) \<longleftrightarrow> good s s'"
| "login_ok s (Failed s') \<longleftrightarrow> good s s'"
| "login_ok s (Closed s' r b) \<longleftrightarrow> logged_in s s' r \<and> sv_stats s' = sv_stats s"
| "login_ok s (LoggedIn s' r) \<longleftrightarrow> logged_in s s' r \<and> cl_Account (cc s' r) \<noteq> None \<and>
     Stats_Get StatCurrentlyConnected (sv_stats s') = Stats_Get StatCurrentlyConnected (sv_stats s) + 1"

lemma refuse_inv: "good s s1 \<Longrightarrow> login_ok s (refuse m s1)"
  by (simp add: refuse_def sendBanMessage_def split_beta inv_view[of s s1] views)

lemma login_client_inv:
  assumes "server_inv s"
  shows "login_ok s (login_client x t login ip a s)"
proof -
  obtain r s1 where n: "NewClientConn a s = (r, s1)" by (cases "NewClientConn a s")
  note c = new_client[OF assms n]
  define s2 where "s2 = upd_conn r (\<lambda>c. c\<lparr>cl_Version := field_data t FieldVersion\<rparr>) (redis_SAdd (online login [] ip) s1)"
  have "view s2 = view s1" by (simp add: s2_def view_upd_conn conn_view_def views)
  then have s2: "good s1 s2" using inv_view[OF good_refl] c by blast
  then have l2: "logged_in s s2 r" "sv_stats s2 = sv_stats s"
    using c by (simp_all add: logged_in_def good_def keeps_def)
  have "logged_in s (greet x t login ip acc r (set_up_client t acc r s2)) r \<and>
      cl_Account (cc (greet x t login ip acc r (set_up_client t acc r s2)) r) \<noteq> None \<and>
      Stats_Get StatCurrentlyConnected (sv_stats (greet x t login ip acc r (set_up_client t acc r s2))) =
      Stats_Get StatCurrentlyConnected (sv_stats s) + 1" for acc
  proof -
    let ?s = "set_up_client t acc r s2"
    have i: "server_inv s2" using s2 by (simp add: good_def)
    note u = set_up_client_inv[OF i]
    obtain s3 where g: "greet x t login ip acc r ?s = count_login s3" "view s3 = view ?s" by (rule greet_view)
    have s3: "good ?s s3" using inv_view[OF good_refl[OF u(1)] g(2)] .
    have "logged_in s s3 r" using l2(1) u s3 by (simp add: logged_in_def good_def keeps_def)
    then show ?thesis unfolding g(1) using s3 u(3,4) l2(2) count_login_inv by (simp add: logged_in_def good_def keeps_def)
  qed
  then show ?thesis
    unfolding login_client_def n using l2 by (auto simp: s2_def[symmetric] Let_def split: option.split)
qed


lemma login_step_inv:
  assumes "server_inv s"
  shows "login_ok s (login_step x a buf s)"
proof -
  have b: "good s s1" if "ban_address x ip u s = Some s1" for ip u s1
    using inv_view[OF good_refl[OF assms] view_ban_address[OF that]] .
  show ?thesis
    unfolding login_step_def Let_def using good_refl[OF assms]
    by (auto intro!: login_client_inv[OF assms] refuse_inv intro: b split: outcome.split option.split ban_state.split)
qed

lemma world_inv_opened:
  assumes "world_inv w" "logged_in (wo_server w) s r" "sv_stats s = sv_stats (wo_server w)"
  shows "world_inv (w\<lparr>wo_server := end_connection login ip r s\<rparr>)"
proof -
  have "good s (end_connection login ip r s)" using assms(2) by (intro end_connection_inv) (simp_all add: logged_in_def)
  then show ?thesis using assms by (auto simp: world_inv_def logged_in_def good_def keeps_def less_Suc_eq)
qed

lemma open_session_inv: "world_inv w \<Longrightarrow> world_inv (open_session x a buf w)"
proof -
  assume w: "world_inv w"
  then have i: "server_inv (wo_server w)" by (simp add: world_inv_def)
  note l = login_step_inv[OF i, of x a buf]
  show ?thesis
  proof (cases "login_step x a buf (wo_server w)")
    case (Refused s b) then show ?thesis using l world_inv_keeps[OF w] by (simp add: open_session_def)
  next
    case (Failed s) then show ?thesis using l world_inv_keeps[OF w] by (simp add: open_session_def)
  next
    case (Closed s r b) then show ?thesis using l world_inv_opened[OF w] by (simp add: open_session_def)
  next
    case (LoggedIn s r)
    then have "cl_Account (cc s q) = None \<longleftrightarrow> cl_Account (cc (wo_server w) q) = None" if "q < sv_next (wo_server w)" for q
      using l that by (simp add: logged_in_def)
    then show ?thesis using l w LoggedIn by (auto simp: open_session_def world_inv_def logged_in_def less_Suc_eq simp del: not_None_eq)
  qed
qed

lemma receive_inv:
  assumes "world_inv w" "se \<in> set (wo_live w)" shows "world_inv (receive x se tok w)"
proof -
  have c: "world_inv (w\<lparr>wo_server := after (handleTransaction (RegisterHandlers x) (se_conn se) t (wo_server w))\<rparr>)" for t
    using assms by (intro world_inv_keeps handled_inv) (auto simp: world_inv_def)
  have "world_inv (close_session se (w\<lparr>wo_server := s\<rparr>))" if "world_inv (w\<lparr>wo_server := s\<rparr>)" for s
    using close_session_inv[OF that] assms(2) by simp
  then show ?thesis using c close_session_inv[OF assms]
    unfolding receive_def by (auto split: outcome.split handled.split) (metis after_simps)+
qed

lemma step_inv: "world_step x w w' \<Longrightarrow> world_inv w \<Longrightarrow> world_inv w'"
proof (induction rule: world_step.induct)
  case (Later w)
  have "good (wo_server w) (run_later (wo_server w))"
  proof (cases "sv_later (wo_server w)")
    case (Cons r rs)
    let ?s = "wo_server w\<lparr>sv_later := rs\<rparr>"
    have "server_inv ?s" "keeps (wo_server w) ?s" "r < sv_next ?s"
      using Later Cons by (auto simp: world_inv_def server_inv_def is_away_def keeps_def)
    then show ?thesis using Disconnect_inv[of ?s r] keeps_trans unfolding run_later_def Cons good_def by auto
  qed (use Later in \<open>simp add: run_later_def world_inv_def good_refl\<close>)
  then show ?case using world_inv_keeps[OF Later] by (simp add: on_server_def)
next
  case (Idle w)
  then show ?case using world_inv_keeps keepalive_inv by (simp add: on_server_def world_inv_def[of w])
next
  case (Outbox w)
  have "view (snd (processOutbox (wo_server w))) = view (wo_server w)"
    by (simp add: processOutbox_def views split: list.split)
  then show ?case using Outbox world_inv_keeps inv_view[OF good_refl] by (simp add: on_server_def world_inv_def[of w])
next
  case (Transfer w cs room)
  then show ?case using steady_inv handleFileTransfer_steady by (simp add: on_server_def)
next
  case (Api w a url key body)
  then show ?case using world_inv_keeps serve_api_inv by (simp add: on_server_def world_inv_def[of w])
qed (simp_all add: open_session_inv receive_inv close_session_inv)

text \<open>A server that has just started: nobody has connected yet.\<close>

definition started :: "world \<Rightarrow> bool" where
  "started w \<longleftrightarrow> wo_live w = [] \<and> sv_next (wo_server w) = 0 \<and> sv_nextClientID (wo_server w) = 0 \<and>
     sv_clients (wo_server w) = [] \<and> sv_chats (wo_server w) = [] \<and> sv_fileTransfers (wo_server w) = [] \<and>
     sv_next_ft (wo_server w) = 0 \<and> sv_later (wo_server w) = [] \<and> sv_stats (wo_server w) = NewStats"

definition reachable :: "externals \<Rightarrow> world \<Rightarrow> bool" where
  "reachable x w \<longleftrightarrow> (\<exists>w0. started w0 \<and> (world_step x)\<^sup>*\<^sup>* w0 w)"

lemma started_inv: "started w \<Longrightarrow> world_inv w"
  by (simp add: started_def world_inv_def server_inv_def NewStats_def Stats_Get_def)

lemma reachable_inv: "reachable x w \<Longrightarrow> world_inv w"
proof -
  assume "reachable x w"
  then obtain w0 where "started w0" "(world_step x)\<^sup>*\<^sup>* w0 w" by (auto simp: reachable_def)
  from this(2,1) show "world_inv w"
    by (induction rule: rtranclp_induct) (auto intro: started_inv step_inv)
qed

end
