(* ===== verification/HL_Small_Server.thy ===== *)
theory HL_Small_Server
  imports HL_World
begin

text \<open>A small server in a reachable state, for the examples beside the properties.\<close>

section \<open>A small server\<close>

text \<open>
  A server with one account, the guest's, without a password; its library does nothing of interest.
  The first client logs in as the guest from the address 1.
\<close>

definition demo_externals :: externals where
  "demo_externals = \<lparr>x_hash = \<lambda>salt p. Some p, x_check = \<lambda>h p. h = p, x_account_yaml = \<lambda>a. Some (ac_Login a),
     x_ban_yaml = \<lparr>by_marshal = \<lambda>d. Some [], by_unmarshal = \<lambda>b. None, by_legacy = \<lambda>b. None\<rparr>, x_news_yaml = \<lambda>c. Some [],
     x_decode = Some, x_encode = Some, x_now = 0,
     x_calendar = \<lparr>ca_year = \<lambda>t. 1970, ca_new_year = \<lambda>y. 0, ca_format = \<lambda>t l. l\<rparr>,
     x_regexp = \<lambda>p s. False, x_sprintf = \<lambda>f as. f, x_percent = \<lambda>n w. [], x_size = \<lambda>w. [], x_buf = \<lambda>n. 512\<rparr>"

definition demo_server :: "AccessBitmap \<Rightarrow> server" where
  "demo_server access = \<lparr>sv_conns = \<lambda>r. \<lparr>cl_RemoteAddr = [], cl_ID = 0, cl_Icon = None, cl_Version = None, cl_Flags = 0,
      cl_UserName = [], cl_Account = None, cl_IdleTime = 0, cl_AutoReply = [], cl_transfers = \<lambda>t. [], cl_closed = False\<rparr>,
     sv_next = 0, sv_clients = [], sv_nextClientID = 0, sv_chats = [],
     sv_fts = \<lambda>f. \<lparr>ft_FileRoot = [], ft_FileName = None, ft_FilePath = None, ft_RefNum = 0, ft_Type = 0, ft_TransferSize = None,
       ft_FolderItemCount = None, ft_FileResumeData = None, ft_Options = None, ft_sent = 0, ft_ClientConn = 0\<rparr>,
     sv_next_ft = 0, sv_fileTransfers = [],
     sv_accounts = \<lparr>am_accounts = [(GuestAccount, \<lparr>ac_Login = GuestAccount, ac_Name = GuestAccount, ac_Password = [],
       ac_Access = access, ac_FileRoot = []\<rparr>)], am_accountDir = [47]\<rparr>,
     sv_bans = None, sv_news = \<lparr>tn_Categories = None, tn_filePath = []\<rparr>,
     sv_board = \<lparr>fl_data = [], fl_filePath = [], fl_readOffset = 0\<rparr>,
     sv_agreement = \<lparr>ag_data = [], ag_filePath = [], ag_lineEndings = [], ag_readOffset = 0\<rparr>,
     sv_stats = NewStats, sv_redis = None,
     sv_config = \<lparr>cf_Name = [], cf_Description = [], cf_BannerFile = [], cf_FileRoot = [47], cf_EnableTrackerRegistration = False,
       cf_Trackers = [], cf_NewsDelimiter = [], cf_NewsDateFormat = [], cf_PreserveResourceForks = False, cf_IgnoreFiles = []\<rparr>,
     sv_Banner = [], sv_disk = \<lparr>dk_files = [], dk_oracle = \<lambda>n. None\<rparr>,
     sv_files = \<lparr>fs_nodes = [], fs_cwd = [], fs_now = 0, fs_dirsize = \<lambda>p. 0, fs_oracle = \<lambda>n. None\<rparr>,
     sv_outbox = [], sv_later = [], sv_rand = \<lambda>n. 0, sv_Port = 5500, sv_TLSPort = 0, sv_TrackerPassID = 0\<rparr>"

definition demo_world :: world where
  "demo_world = \<lparr>wo_server = demo_server 0, wo_live = []\<rparr>"

definition demo_login :: bytes where
  "demo_login = Transaction_bytes (NewTransaction 0 TranLogin 0 [])"

definition demo_logged_in :: world where
  "demo_logged_in = open_session demo_externals [49, 58, 49] demo_login demo_world"

definition summary :: "world \<Rightarrow> nat \<times> nat list \<times> AccessBitmap option \<times> bytes list \<times> bool" where
  "summary w = (sv_next (wo_server w), map se_conn (wo_live w), map_option ac_Access (cl_Account (cc (wo_server w) 0)),
     map fst (am_accounts (sv_accounts (wo_server w))), ClientMgr_Get 1 (wo_server w) = Some 0 \<and> cl_IdleTime (cc (wo_server w) 0) = 0)"

lemma demo_summary: "summary demo_logged_in = (1, [0], Some 0, [GuestAccount], True)"
  by code_simp

lemma demo_facts:
  "sv_next (wo_server demo_logged_in) = 1" "map se_conn (wo_live demo_logged_in) = [0]"
  "map_option ac_Access (cl_Account (cc (wo_server demo_logged_in) 0)) = Some 0"
  "map fst (am_accounts (sv_accounts (wo_server demo_logged_in))) = [GuestAccount]"
  using demo_summary by (simp_all add: summary_def)

lemma demo_reachable: "reachable demo_externals demo_logged_in"
proof -
  have "started demo_world" by (simp add: started_def demo_world_def demo_server_def)
  moreover have "world_step demo_externals demo_world demo_logged_in"
    unfolding demo_logged_in_def by (rule Connect)
  ultimately show ?thesis unfolding reachable_def by blast
qed

lemma demo_no_rights:
  "a < 64 \<Longrightarrow> \<not> Authorize 0 a (wo_server demo_logged_in)"
  "list_all (\<lambda>a. a < 64) as \<Longrightarrow> \<not> allowed 0 as (wo_server demo_logged_in)"
proof -
  have "be64 0 = replicate 8 0" by code_simp
  then show n: "\<not> Authorize 0 a (wo_server demo_logged_in)" if "a < 64" for a
    using demo_facts(3) that by (auto simp: Authorize_def AccessBitmap_IsSet_def nth_replicate split: option.split)
  show "list_all (\<lambda>a. a < 64) as \<Longrightarrow> \<not> allowed 0 as (wo_server demo_logged_in)"
    by (auto simp: allowed_def n list_ex_iff list_all_iff)
qed

end
