(* ===== verification/HL_Guarantees.thy ===== *)
theory HL_Guarantees
  imports HL_Small_Server
begin

text \<open>
  What holds of the server as a whole: handlers do only what their client may, and in every reachable
  state the registry, the away flags and the statistics agree with what happened.
\<close>

section \<open>Handlers refine their effects\<close>


section \<open>What a client without privileges cannot change\<close>

definition account_rights :: "nat list" where
  "account_rights = [AccessCreateUser, AccessModifyUser, AccessDeleteUser]"

definition ban_of :: "bytes \<Rightarrow> server \<Rightarrow> (bool \<times> time option) option" where
  "ban_of ip s = map_option (bf_IsBanned ip) (sv_bans s)"

text \<open>The client \<open>r\<close> may do the changes from the first state to the second.\<close>

definition guarded :: "nat \<Rightarrow> server \<Rightarrow> server \<Rightarrow> bool" where
  "guarded r s s' \<longleftrightarrow>
     (allowed r account_rights s \<or> sv_accounts s' = sv_accounts s \<and> (\<forall>c. cl_Account (cc s' c) = cl_Account (cc s c))) \<and>
     (allowed r news_rights s \<or> sv_news s' = sv_news s) \<and>
     (Authorize r AccessNewsPostArt s \<or> fl_data (sv_board s') = fl_data (sv_board s)) \<and>
     (allowed r file_rights s \<or> fs_nodes (sv_files s') = fs_nodes (sv_files s)) \<and>
     (Authorize r AccessDisconUser s \<or> (\<forall>ip. ip \<noteq> conn_IP r s \<longrightarrow> ban_of ip s' = ban_of ip s)) \<and>
     (allowed r [AccessDeleteUser, AccessDisconUser] s \<or> sv_later s' = sv_later s)"

definition guard_view :: "server \<Rightarrow> YAMLAccountManager \<times> (nat \<Rightarrow> account option) \<times> ThreadedNewsYAML \<times> bytes \<times> nodes \<times>
    BanFile option \<times> nat list" where
  "guard_view s = (sv_accounts s, (\<lambda>c. cl_Account (cc s c)), sv_news s, fl_data (sv_board s), fs_nodes (sv_files s),
     sv_bans s, sv_later s)"

lemma guarded_view: "guarded r s0 s \<Longrightarrow> guard_view s' = guard_view s \<Longrightarrow> guarded r s0 s'"
  by (auto simp: guarded_def guard_view_def ban_of_def fun_eq_iff)

named_theorems gviews

lemma gview_basic [gviews]:
  "guard_view (skip_rand n s) = guard_view s" "guard_view (send ts s) = guard_view s"
  "guard_view (s\<lparr>sv_chats := a\<rparr>) = guard_view s" "guard_view (s\<lparr>sv_fts := b\<rparr>) = guard_view s"
  "guard_view (s\<lparr>sv_fileTransfers := d\<rparr>) = guard_view s" "guard_view (s\<lparr>sv_next_ft := n\<rparr>) = guard_view s"
  "guard_view (s\<lparr>sv_redis := u\<rparr>) = guard_view s" "guard_view (s\<lparr>sv_clients := cs\<rparr>) = guard_view s"
  by (simp_all add: guard_view_def skip_rand_def send_def)

lemma gview_upd_conn: "cl_Account (f (cc s c)) = cl_Account (cc s c) \<Longrightarrow> guard_view (upd_conn c f s) = guard_view s"
  by (auto simp: guard_view_def upd_conn_def)

lemma gview_fan_out [gviews]: "guard_view (snd (fan_out ty fs rs s)) = guard_view s"
  by (induction ty fs rs s rule: fan_out.induct) (simp_all add: split_beta gviews)

lemma gview_ops [gviews]:
  "guard_view (Disconnect r s) = guard_view s" "guard_view (snd (ChatMgr_New r s)) = guard_view s"
  "guard_view (ChatMgr_Leave i k s) = guard_view s" "guard_view (upd_ft f g s) = guard_view s"
  "guard_view (SendAll ty fs s) = guard_view s"
  by (auto simp: Disconnect_def ClientMgr_Delete_def Let_def new_tran_def split_beta gviews gview_upd_conn
      ChatMgr_New_def ChatMgr_Leave_def upd_ft_def SendAll_def split: option.split)

lemma gview_NewFileTransfer [gviews]: "guard_view (snd (NewFileTransfer r ty fr fn fp sz s)) = guard_view s"
  by (simp add: NewFileTransfer_def FileTransferMgr_Add_def Let_def cftm_Add_def gviews gview_upd_conn)

lemma gview_chats: "ChatMgr_Join i r s = Some s' \<Longrightarrow> guard_view s' = guard_view s"
  "ChatMgr_SetSubject i b s = Some s' \<Longrightarrow> guard_view s' = guard_view s"
  by (auto simp: ChatMgr_Join_def ChatMgr_SetSubject_def gviews split: option.splits)

lemma bf_Add_others: "bf_Add y ip until (bf, d) = Ok (e, bf', d') \<Longrightarrow> q \<noteq> ip \<Longrightarrow> bf_IsBanned q bf' = bf_IsBanned q bf"
  by (simp add: bf_Add_lookup)

lemma ban_address_others:
  "ban_address x ip u s = Some s' \<Longrightarrow> \<exists>bf d. s' = s\<lparr>sv_bans := Some bf, sv_disk := d\<rparr> \<and> (\<forall>q. q \<noteq> ip \<longrightarrow> ban_of q s' = ban_of q s)"
  by (auto simp: ban_address_def ban_of_def dest: bf_Add_others split: option.splits outcome.splits)

lemma effect_guarded: "effect x r s0 s \<Longrightarrow> guarded r s0 s"
proof (induction rule: effect_in.induct)
  case e_refl
  then show ?case by (simp add: guarded_def)
next
  case (e_access s c a access)
  then show ?case by (auto simp: guarded_def allowed_def account_rights_def upd_conn_def ban_of_def)
next
  case (e_later s c)
  then show ?case by (auto simp: guarded_def disconnect_later_def ban_of_def)
next
  case (e_account s op)
  then show ?case
    by (cases op) (auto simp: guarded_def allowed_def account_rights_def on_accounts_def split_beta ban_of_def)
next
  case (e_ban ip u s s')
  then show ?case using ban_address_others[OF e_ban.hyps(1)] by (auto simp: guarded_def)
next
  case (e_news s g)
  then show ?case by (auto simp: guarded_def on_news_def split_beta ban_of_def)
next
  case (e_post s p e b d)
  then show ?case by (auto simp: guarded_def ban_of_def)
next
  case (e_chat_join i s s')
  then show ?case using guarded_view gview_chats by blast
next
  case (e_chat_subject i b s s')
  then show ?case using guarded_view gview_chats by blast
next
  case (e_conn s c f)
  then show ?case by (blast intro: guarded_view gview_upd_conn)
next
  case (e_board s b)
  then show ?case by (simp add: guarded_def ban_of_def)
next
  case (e_read s fs)
  then show ?case by (simp add: guarded_def ban_of_def)
next
  case (e_files s fs)
  then show ?case by (simp add: guarded_def ban_of_def)
qed (erule guarded_view; simp add: gviews)+

text \<open>C2: a client changes what is shared only if its account allows it.  Whatever transaction it sends,
  and even if the handler panics: without a right over accounts all accounts stay, those of the connected
  clients too; without a right over news the threaded news stay, and the board without the right to post;
  without a right over files no node of the file system changes; without the right to disconnect users no
  ban changes but that of the client's own address; and without that right and the right to delete
  accounts nobody is put down to be disconnected.\<close>

theorem privileges_guard_changes:
  fixes x r t s
  defines "s' \<equiv> after (handleTransaction (RegisterHandlers x) r t s)"
  shows "(\<not> allowed r account_rights s \<longrightarrow> sv_accounts s' = sv_accounts s \<and> (\<forall>c. cl_Account (cc s' c) = cl_Account (cc s c))) \<and>
    (\<not> allowed r news_rights s \<longrightarrow> sv_news s' = sv_news s) \<and>
    (\<not> Authorize r AccessNewsPostArt s \<longrightarrow> fl_data (sv_board s') = fl_data (sv_board s)) \<and>
    (\<not> allowed r file_rights s \<longrightarrow> fs_nodes (sv_files s') = fs_nodes (sv_files s)) \<and>
    (\<not> Authorize r AccessDisconUser s \<longrightarrow> (\<forall>ip. ip \<noteq> conn_IP r s \<longrightarrow> ban_of ip s' = ban_of ip s)) \<and>
    (\<not> allowed r [AccessDeleteUser, AccessDisconUser] s \<longrightarrow> sv_later s' = sv_later s)"
proof -
  let ?z = "case RegisterHandlers x (tr_Type t) of None \<Rightarrow> Done s [] | Some h \<Rightarrow> h r t s"
  have z: "guarded r s (after ?z)"
    using effect_guarded[OF effect_handler] effect_guarded[OF e_refl] by (auto split: option.split)
  have "guarded r s s'"
  proof (cases ?z)
    case (Done s1 ts)
    have "guard_view s' = guard_view s1"
      unfolding s'_def handleTransaction_def Done by (simp add: Let_def gviews gview_upd_conn)
    then show ?thesis using z Done guarded_view by simp
  qed (use z in \<open>simp add: s'_def handleTransaction_def\<close>)
  then show ?thesis by (auto simp: guarded_def)
qed


theorem privileges_guard_changes_witness:
  "(let s = wo_server demo_logged_in; t = NewTransaction 0 TranDeleteUser 0 [NewField FieldUserLogin GuestAccount];
        s' = after (handleTransaction (RegisterHandlers demo_externals) 0 t s) in
    map fst (am_accounts (sv_accounts s')) = [GuestAccount] \<and> sv_news s' = sv_news s \<and> fs_nodes (sv_files s') = fs_nodes (sv_files s))"
  using privileges_guard_changes[of 0 "wo_server demo_logged_in" demo_externals
      "NewTransaction 0 TranDeleteUser 0 [NewField FieldUserLogin GuestAccount]"] demo_facts
  by (simp add: demo_no_rights account_rights_def news_rights_def file_rights_def Let_def)

section \<open>Reachable states\<close>

text \<open>C20: a client is shown as away exactly while it has been idle for more than 300 seconds.  However
  logins, transactions, idle checks, disconnects and hang-ups follow each other, the away flag of every
  client ever connected agrees with its idle time.\<close>

theorem away_iff_idle:
  assumes "reachable x w" "r < sv_next (wo_server w)"
  shows "UserFlags_IsSet (cl_Flags (cc (wo_server w) r)) UserFlagAway \<longleftrightarrow> 300 < cl_IdleTime (cc (wo_server w) r)"
  using reachable_inv[OF assms(1)] assms(2) by (simp add: world_inv_def server_inv_def is_away_def)

theorem away_iff_idle_witness:
  "UserFlags_IsSet (cl_Flags (cc (wo_server demo_logged_in) 0)) UserFlagAway \<longleftrightarrow> 300 < cl_IdleTime (cc (wo_server demo_logged_in) 0)"
  using away_iff_idle[OF demo_reachable, of 0] demo_facts by simp

text \<open>C19: the number of connected users in the statistics is the number of live sessions, and each live
  session is a client of its own with an account.\<close>

theorem connected_count_is_live:
  assumes "reachable x w"
  shows "Stats_Get StatCurrentlyConnected (sv_stats (wo_server w)) = int (length (wo_live w)) \<and> distinct (map se_conn (wo_live w)) \<and>
    (\<forall>se \<in> set (wo_live w). cl_Account (cc (wo_server w) (se_conn se)) \<noteq> None)"
  using reachable_inv[OF assms] by (simp add: world_inv_def)

theorem connected_count_is_live_witness:
  "Stats_Get StatCurrentlyConnected (sv_stats (wo_server demo_logged_in)) = 1"
  using connected_count_is_live[OF demo_reachable] arg_cong[OF demo_facts(2), of length] by simp

text \<open>C11: until 65536 connections have been accepted, the registry is exact: a client is found under its
  ID precisely as long as it has not been disconnected, and no two clients share an ID.\<close>

theorem registry_exact:
  assumes "reachable x w" "sv_next (wo_server w) < 65536" "r < sv_next (wo_server w)"
  shows "(ClientMgr_Get (cl_ID (cc (wo_server w) r)) (wo_server w) = Some r \<longleftrightarrow> \<not> cl_closed (cc (wo_server w) r)) \<and>
    (\<forall>q < sv_next (wo_server w). cl_ID (cc (wo_server w) q) = cl_ID (cc (wo_server w) r) \<longrightarrow> q = r)"
proof -
  have i: "server_inv (wo_server w)" using reachable_inv[OF assms(1)] by (simp add: world_inv_def)
  have "map_of (sv_clients (wo_server w)) (id_of r) = None \<or> map_of (sv_clients (wo_server w)) (id_of r) = Some r"
  proof (cases "map_of (sv_clients (wo_server w)) (id_of r)")
    case (Some q)
    then have "q < sv_next (wo_server w)" "id_of r = id_of q" using i by (auto simp: server_inv_def)
    then show ?thesis using Some assms(2,3) by (simp add: id_of_inj)
  qed simp
  then show ?thesis using i assms(2,3) by (auto simp: server_inv_def ClientMgr_Get_def id_of_inj)
qed

theorem registry_exact_witness:
  "ClientMgr_Get (cl_ID (cc (wo_server demo_logged_in) 0)) (wo_server demo_logged_in) = Some 0 \<longleftrightarrow> \<not> cl_closed (cc (wo_server demo_logged_in) 0)"
  using registry_exact[OF demo_reachable, of 0] demo_facts by simp

text \<open>The 65536th connection after a client takes over its ID, and if that client
  is still connected it is dropped from the registry: nothing can be sent to it any more.\<close>

theorem id_reuse_evicts:
  assumes "reachable x w" "r + 65536 = sv_next (wo_server w)" "NewClientConn a (wo_server w) = (q, s')"
  shows "ClientMgr_Get (cl_ID (cc s' r)) s' = Some q \<and> q \<noteq> r \<and> r \<notin> set (ClientMgr_List s')"
proof -
  have i: "server_inv (wo_server w)" using reachable_inv[OF assms(1)] by (simp add: world_inv_def)
  note n = new_client[OF i assms(3)]
  have q: "q = r + 65536" using n(1) assms(2) by simp
  have id: "id_of q = id_of r" by (simp add: q id_of_def)
  have m: "map_of (sv_clients s') (id_of q) = Some q"
    using assms(3) i n(1) ucast_next by (auto simp: NewClientConn_def ClientMgr_Add_def Let_def server_inv_def)
  have "cl_ID (cc s' r) = id_of r" using n(2,3) q by (simp add: server_inv_def)
  moreover have "r \<notin> set (ClientMgr_List s')"
  proof
    assume "r \<in> set (ClientMgr_List s')"
    then obtain k where "(k, r) \<in> set (sv_clients s')" by (auto simp: set_ClientMgr_List)
    then have "map_of (sv_clients s') k = Some r" "k = id_of r"
      using n(2) wf_map_map_of[of "sv_clients s'" k r] by (auto simp: server_inv_def)
    then show False using m id q by simp
  qed
  ultimately show ?thesis using m id q by (simp add: ClientMgr_Get_def)
qed


text \<open>Refused logins use up IDs too.\<close>

abbreviation (input) refusing :: externals where
  "refusing \<equiv> demo_externals\<lparr>x_check := \<lambda>h p. False\<rparr>"

lemma demo_login_parses: "\<exists>t. Transaction_Write zero_tran demo_login = Ok (length demo_login, t)"
proof -
  have "(case Transaction_Write zero_tran demo_login of Ok (n, t) \<Rightarrow> n = length demo_login | _ \<Rightarrow> False)" by code_simp
  then show ?thesis by (auto split: outcome.splits)
qed

lemma refused_login:
  assumes "sv_bans (wo_server w) = None"
  shows "sv_next (wo_server (open_session refusing a demo_login w)) = Suc (sv_next (wo_server w)) \<and>
    sv_bans (wo_server (open_session refusing a demo_login w)) = None"
proof -
  obtain t where t: "Transaction_Write zero_tran demo_login = Ok (length demo_login, t)" using demo_login_parses by blast
  have "\<not> Authenticate refusing l p s" for l p s by (simp add: Authenticate_def split: option.split)
  then show ?thesis
    using assms t
    by (simp add: open_session_def login_step_def username_banned_def address_banned_def login_client_def Let_def
        split_beta NewClientConn_def ClientMgr_Add_def redis_SAdd_def redis_SRem_def end_connection_def Disconnect_def
        ClientMgr_Delete_def new_tran_def skip_rand_def send_def upd_conn_def)
qed

lemma reachable_step: "reachable x w \<Longrightarrow> world_step x w w' \<Longrightarrow> reachable x w'"
  unfolding reachable_def by (meson rtranclp.rtrancl_into_rtrancl)

lemma many_connections:
  "\<exists>w. reachable refusing w \<and> sv_next (wo_server w) = n \<and> sv_bans (wo_server w) = None"
proof (induction n)
  case 0
  have "started demo_world" by (simp add: started_def demo_world_def demo_server_def)
  then have "reachable refusing demo_world" by (auto simp: reachable_def)
  then show ?case by (auto simp: demo_world_def demo_server_def)
next
  case (Suc n)
  then obtain w where w: "reachable refusing w" "sv_next (wo_server w) = n" "sv_bans (wo_server w) = None" by blast
  have "reachable refusing (open_session refusing [] demo_login w)"
    using w(1) world_step.Connect by (rule reachable_step)
  then show ?case using refused_login[OF w(3), of "[]"] w(2) by auto
qed

theorem id_reuse_evicts_witness:
  "\<exists>w. reachable refusing w \<and> sv_next (wo_server w) = 65536 \<and>
     (case NewClientConn [] (wo_server w) of (q, s') \<Rightarrow> q = 65536 \<and> ClientMgr_Get (cl_ID (cc s' 0)) s' = Some q)"
proof -
  obtain w where w: "reachable refusing w" "sv_next (wo_server w) = 65536" using many_connections by blast
  obtain q s' where n: "NewClientConn [] (wo_server w) = (q, s')" by fastforce
  moreover have "q = 65536" using n w(2) by (simp add: NewClientConn_def)
  ultimately show ?thesis using w id_reuse_evicts[OF w(1) _ n, of 0] by auto
qed


section \<open>Idle clients become away\<close>

lemma IdleTime_SendAll [simp]: "cl_IdleTime (cc (SendAll ty fs s) r) = cl_IdleTime (cc s r)"
  by (rule view_eqD(8)) (rule view_SendAll)

lemma idle_check_time: "cl_IdleTime (cc (idle_check q s) r) = (if r = q then cl_IdleTime (cc s r) + 10 else cl_IdleTime (cc s r))"
  by (simp add: idle_check_def Let_def)

lemma idle_checks_time:
  "distinct rs \<Longrightarrow> cl_IdleTime (cc (fold idle_check rs s) r) = (if r \<in> set rs then cl_IdleTime (cc s r) + 10 else cl_IdleTime (cc s r))"
  by (induction rs arbitrary: s) (auto simp: idle_check_time)

lemma distinct_ClientMgr_List: "server_inv s \<Longrightarrow> distinct (ClientMgr_List s)"
proof -
  assume i: "server_inv s"
  then have "i = id_of r" if "(i, r) \<in> set (sv_clients s)" for i r
    using that wf_map_map_of[of "sv_clients s"] by (simp add: server_inv_def)
  then have "inj_on snd (set (sv_clients s))" by (intro inj_onI) (metis prod.collapse)
  then show ?thesis
    using i by (auto simp: ClientMgr_List_def server_inv_def wf_map_def distinct_map)
qed

lemma idle_check_clients: "sv_clients (idle_check r s) = sv_clients s"
  by (auto simp: idle_check_def Let_def upd_conn_def SendAll_def send_def split_beta view_fan_out[THEN view_eqD(3)])

lemma keepalive_clients: "sv_clients (keepalive_tick s) = sv_clients s"
proof -
  have "sv_clients (fold idle_check rs s) = sv_clients s" for rs
    by (induction rs arbitrary: s) (simp_all add: idle_check_clients)
  then show ?thesis by (simp add: keepalive_tick_def)
qed

lemma ticks_inv:
  "server_inv s \<Longrightarrow> server_inv ((keepalive_tick ^^ n) s) \<and> sv_clients ((keepalive_tick ^^ n) s) = sv_clients s \<and>
    sv_next ((keepalive_tick ^^ n) s) = sv_next s"
  using keepalive_inv by (induction n) (auto simp: keepalive_clients good_def keeps_def)

lemma ticks_time:
  assumes "server_inv s" "ClientMgr_Get i s = Some r"
  shows "cl_IdleTime (cc ((keepalive_tick ^^ n) s) r) = cl_IdleTime (cc s r) + 10 * n"
proof (induction n)
  case (Suc n)
  let ?s = "(keepalive_tick ^^ n) s"
  have t: "server_inv ?s" "sv_clients ?s = sv_clients s" using ticks_inv[OF assms(1)] by auto
  have "r \<in> set (ClientMgr_List ?s)"
    using assms(2) t(2) by (force simp: set_ClientMgr_List ClientMgr_Get_def dest: map_of_SomeD)
  then have "cl_IdleTime (cc (keepalive_tick ?s) r) = cl_IdleTime (cc ?s r) + 10"
    using idle_checks_time[OF distinct_ClientMgr_List[OF t(1)], of ?s r] unfolding keepalive_tick_def by simp
  then show ?case using Suc by simp
qed simp

text \<open>C34: a registered client that sends nothing is marked away after 31 idle checks, ten seconds apart, at
  the latest, and not before its idle time has passed 300 seconds.\<close>

theorem idle_client_becomes_away:
  assumes "reachable x w" "ClientMgr_Get i (wo_server w) = Some r"
  shows "cl_IdleTime (cc ((keepalive_tick ^^ n) (wo_server w)) r) = cl_IdleTime (cc (wo_server w) r) + 10 * n \<and>
    (UserFlags_IsSet (cl_Flags (cc ((keepalive_tick ^^ n) (wo_server w)) r)) UserFlagAway \<longleftrightarrow>
       300 < cl_IdleTime (cc (wo_server w) r) + 10 * n)"
proof -
  have i: "server_inv (wo_server w)" using reachable_inv[OF assms(1)] by (simp add: world_inv_def)
  have "r < sv_next (wo_server w)" using i assms(2) by (auto simp: server_inv_def ClientMgr_Get_def)
  then show ?thesis
    using ticks_inv[OF i, of n] ticks_time[OF i assms(2), of n] by (simp add: server_inv_def is_away_def)
qed

theorem idle_client_becomes_away_witness:
  "UserFlags_IsSet (cl_Flags (cc ((keepalive_tick ^^ 31) (wo_server demo_logged_in)) 0)) UserFlagAway"
proof -
  have "ClientMgr_Get 1 (wo_server demo_logged_in) = Some 0 \<and> cl_IdleTime (cc (wo_server demo_logged_in) 0) = 0"
    using demo_summary by (simp add: summary_def)
  then show ?thesis using idle_client_becomes_away[OF demo_reachable, of 1 0 31] by simp
qed

end
