(* ===== verification/HL_Client.thy ===== *)
theory HL_Client
  imports HL_Session
begin

text \<open>
  The client side of the protocol, \<^verbatim>\<open>hotline/client.go\<close>: connecting and logging in, the requests
  that wait for a reply, and the loop that dispatches what the server sends.
\<close>

section \<open>The client\<close>

record ClientPrefs =
  cp_Username :: bytes
  cp_IconID :: int
  cp_Tracker :: bytes
  cp_EnableBell :: bool

definition ClientPrefs_IconBytes :: "ClientPrefs \<Rightarrow> bytes" where
  "ClientPrefs_IconBytes p = be16 (word_of_int (cp_IconID p) :: 16 word)"

text \<open>
  The connection: what was written to it, how much more it takes if it will break, whether it was
  dialled (\<open>cn_open\<close>; \<^verbatim>\<open>nil\<close> before) and closed.  \<open>cn_done\<close> says that the channel \<^verbatim>\<open>done\<close> is not nil.
\<close>

record Client =
  cn_Pref :: ClientPrefs
  cn_activeTasks :: "(32 word, transaction) gmap"
  cn_UserList :: "User list"
  cn_done :: bool
  cn_open :: bool
  cn_closed :: bool
  cn_in :: "bytes list"
  cn_out :: bytes
  cn_room :: "nat option"
  cn_rand :: "nat \<Rightarrow> 32 word"

text \<open>A handler may use the client, so the table of handlers is apart from it.\<close>

type_synonym client_handler = "transaction \<Rightarrow> Client \<Rightarrow> (transaction list \<times> go_error option) \<times> Client"
type_synonym client_handlers = "(TranType, client_handler) gmap"

definition HandleFunc :: "TranType \<Rightarrow> client_handler \<Rightarrow> client_handlers \<Rightarrow> client_handlers" where
  "HandleFunc tranType h hs = mput tranType h hs"

definition NewClient :: "bytes \<Rightarrow> (nat \<Rightarrow> 32 word) \<Rightarrow> Client" where
  "NewClient username rand =
     \<lparr>cn_Pref = \<lparr>cp_Username = username, cp_IconID = 0, cp_Tracker = [], cp_EnableBell = False\<rparr>,
      cn_activeTasks = [], cn_UserList = [], cn_done = False, cn_open = False, cn_closed = False, cn_in = [],
      cn_out = [], cn_room = None, cn_rand = rand\<rparr>"

section \<open>Writing to the server\<close>

text \<open>A write to a connection that was closed, or breaks, is an error; to no connection, a panic.\<close>

definition cn_write :: "bytes \<Rightarrow> Client \<Rightarrow> unit outcome \<times> Client" where
  "cn_write b c =
     (if \<not> cn_open c then (Panic, c)
      else if cn_closed c then (Err (Msg ''use of closed network connection''), c)
      else
        (case cn_room c of
           None \<Rightarrow> (Ok (), c\<lparr>cn_out := cn_out c @ b\<rparr>)
         | Some n \<Rightarrow>
             if length b \<le> n then (Ok (), c\<lparr>cn_out := cn_out c @ b, cn_room := Some (n - length b)\<rparr>)
             else (Err (Msg ''broken pipe''), c\<lparr>cn_out := cn_out c @ take n b, cn_room := Some 0\<rparr>)))"

text \<open>A request is entered among the active tasks before it is written, and stays there if that fails.\<close>

definition client_Send :: "transaction \<Rightarrow> Client \<Rightarrow> unit outcome \<times> Client" where
  "client_Send t c =
     cn_write (Transaction_bytes t)
       (if tr_IsReply t = 0 then c\<lparr>cn_activeTasks := mput (tr_ID t) t (cn_activeTasks c)\<rparr> else c)"

definition new_request :: "TranType \<Rightarrow> hl_field list \<Rightarrow> Client \<Rightarrow> transaction \<times> Client" where
  "new_request ty fs c = (NewTransaction (cn_rand c 0) ty 0 fs, c\<lparr>cn_rand := \<lambda>i. cn_rand c (Suc i)\<rparr>)"

section \<open>Connecting\<close>

definition ClientHandshake :: bytes where
  "ClientHandshake = [0x54, 0x52, 0x54, 0x50, 0x48, 0x4f, 0x54, 0x4c, 0x00, 0x01, 0x00, 0x02]"

definition ServerHandshake :: bytes where
  "ServerHandshake = [0x54, 0x52, 0x54, 0x50, 0x00, 0x00, 0x00, 0x00]"

definition client_Handshake :: "Client \<Rightarrow> unit outcome \<times> Client" where
  "client_Handshake c =
     (case cn_write ClientHandshake c of
        (Ok u, c1) \<Rightarrow>
          (case read_full 8 (cn_in c1) of
             Ok (replyBuf, r) \<Rightarrow>
               (if replyBuf = ServerHandshake then Ok () else Err (Msg ''unexpected handshake response''), c1\<lparr>cn_in := r\<rparr>)
           | Err e \<Rightarrow> (Err e, c1\<lparr>cn_in := []\<rparr>)
           | Panic \<Rightarrow> (Panic, c1))
      | r \<Rightarrow> r)"

definition login_fields :: "ClientPrefs \<Rightarrow> bytes \<Rightarrow> bytes \<Rightarrow> hl_field list" where
  "login_fields p login passwd =
     [NewField FieldUserName (cp_Username p), NewField FieldUserIconID (ClientPrefs_IconBytes p),
      NewField FieldUserLogin (EncodeString login), NewField FieldUserPassword (EncodeString passwd)]"

text \<open>\<open>dial\<close> is what dialling gives: what the server will send, and when the connection will break.\<close>

definition client_Connect :: "(bytes list \<times> nat option) option \<Rightarrow> bytes \<Rightarrow> bytes \<Rightarrow> Client \<Rightarrow> unit outcome \<times> Client" where
  "client_Connect dial login passwd c =
     (let c1 = c\<lparr>cn_done := True\<rparr> in
      case dial of
        None \<Rightarrow> (Err (Msg ''dial''), c1\<lparr>cn_open := False\<rparr>)
      | Some (i, room) \<Rightarrow>
          (case client_Handshake (c1\<lparr>cn_open := True, cn_closed := False, cn_in := i, cn_out := [], cn_room := room\<rparr>) of
             (Ok u, c2) \<Rightarrow>
               (case new_request TranLogin (login_fields (cn_Pref c2) login passwd) c2 of (t, c3) \<Rightarrow> client_Send t c3)
           | r \<Rightarrow> r))"

text \<open>One tick of \<^verbatim>\<open>keepalive\<close>; its error is dropped.\<close>

definition client_keepalive :: "Client \<Rightarrow> Client" where
  "client_keepalive c =
     (if cn_done c then (case new_request TranKeepAlive [] c of (t, c1) \<Rightarrow> snd (client_Send t c1)) else c)"

text \<open>Closing a connection that was never made is a panic, closing it twice an error.\<close>

definition client_Disconnect :: "Client \<Rightarrow> unit outcome \<times> Client" where
  "client_Disconnect c =
     (let c1 = c\<lparr>cn_done := False\<rparr> in
      if \<not> cn_open c1 then (Panic, c1)
      else if cn_closed c1 then (Err (Msg ''use of closed network connection''), c1)
      else (Ok (), c1\<lparr>cn_closed := True\<rparr>))"

section \<open>What the server sends\<close>

fun send_all :: "transaction list \<Rightarrow> Client \<Rightarrow> unit outcome \<times> Client" where
  "send_all [] c = (Ok (), c)"
| "send_all (t # ts) c = (case client_Send t c of (Ok u, c1) \<Rightarrow> send_all ts c1 | r \<Rightarrow> r)"

text \<open>A reply takes the type of the request it answers; a handler's error is only logged.\<close>

definition dispatch :: "client_handlers \<Rightarrow> transaction \<Rightarrow> Client \<Rightarrow> unit outcome \<times> Client" where
  "dispatch hs t c =
     (case map_of hs (tr_Type t) of
        None \<Rightarrow> (Ok (), c)
      | Some h \<Rightarrow> (case h t c of ((outT, err), c1) \<Rightarrow> send_all outT c1))"

definition client_HandleTransaction :: "client_handlers \<Rightarrow> transaction \<Rightarrow> Client \<Rightarrow> unit outcome \<times> Client" where
  "client_HandleTransaction hs t c =
     (if tr_IsReply t = 1 then
        (case map_of (cn_activeTasks c) (tr_ID t) of
           None \<Rightarrow> (Err (Msg ''no matching request for reply ID''), c)
         | Some origT \<Rightarrow>
             dispatch hs (t\<lparr>tr_Type := tr_Type origT\<rparr>) (c\<lparr>cn_activeTasks := mdel (tr_ID t) (cn_activeTasks c)\<rparr>))
      else dispatch hs t c)"

text \<open>
  \<^verbatim>\<open>HandleTransactions\<close>: the loop over the scanner.  It never returns without an error.  An error of a
  handled transaction is logged, a panic is not caught.  Reading from a connection that a handler has
  closed fails, after what the scanner holds.  With too little fuel the result is \<open>None\<close>.
\<close>

definition reading :: "Client \<Rightarrow> scanner \<Rightarrow> scanner" where
  "reading c s =
     (if cn_closed c then setErr (Msg ''use of closed network connection'') (s\<lparr>sc_src := []\<rparr>) else s)"

definition loop_end :: "scanner \<Rightarrow> unit outcome" where
  "loop_end s = Err (case scan_error s of Some e \<Rightarrow> e | None \<Rightarrow> Msg ''connection terminated'')"

fun client_loop :: "client_handlers \<Rightarrow> nat \<Rightarrow> scanner \<Rightarrow> Client \<Rightarrow> (unit outcome \<times> Client) option" where
  "client_loop hs 0 s c = None"
| "client_loop hs (Suc n) s c =
     (case scan transactionScanner s of
        Ok (ok, s1) \<Rightarrow>
          if \<not> ok then Some (loop_end s1, c)
          else
            (case Transaction_Write zero_tran (scan_bytes s1) of
               Ok (_, t) \<Rightarrow>
                 (case client_HandleTransaction hs t c of
                    (Panic, c1) \<Rightarrow> Some (Panic, c1) | (_, c1) \<Rightarrow> client_loop hs n (reading c1 s1) c1)
             | Err e \<Rightarrow> Some (loop_end s1, c)
             | Panic \<Rightarrow> Some (Panic, c))
      | Err e \<Rightarrow> Some (Err e, c)
      | Panic \<Rightarrow> Some (Panic, c))"

definition HandleTransactions :: "client_handlers \<Rightarrow> nat \<Rightarrow> Client \<Rightarrow> (unit outcome \<times> Client) option" where
  "HandleTransactions hs n c =
     (if cn_open c then client_loop hs n (reading c (NewScanner (cn_in c))) c else Some (Panic, c))"

end
