(* ===== verification/HL_Client_Guarantees.thy ===== *)
theory HL_Client_Guarantees
  imports HL_Client HL_Small_Server
begin

text \<open>
  What the client library promises: its loop always returns, every transaction the server sends is
  handled once and in order, a reply finds the handler of its request, and a login it sends is the
  login the server checks.
\<close>

section \<open>The loop ends\<close>

lemma reading_pending: "length (pending (reading c s)) \<le> length (pending s)"
  by (simp add: reading_def pending_def)

lemma client_loop_ends:
  "length (pending s) < 22 * n \<Longrightarrow> \<exists>r c'. client_loop hs n s c = Some (r, c') \<and> r \<noteq> Ok ()"
proof (induction n arbitrary: s c)
  case (Suc n)
  show ?case
  proof (cases "\<exists>s1 k t. scan transactionScanner s = Ok (True, s1) \<and> Transaction_Write zero_tran (scan_bytes s1) = Ok (k, t)")
    case True
    then obtain s1 k t where t: "scan transactionScanner s = Ok (True, s1)" "Transaction_Write zero_tran (scan_bytes s1) = Ok (k, t)"
      by blast
    obtain u c1 where h: "client_HandleTransaction hs t c = (u, c1)" by (cases "client_HandleTransaction hs t c")
    have "length (pending (reading c1 s1)) < 22 * n"
      using transaction_consumes[OF t] reading_pending[of c1 s1] Suc.prems by simp
    then show ?thesis using Suc.IH[of "reading c1 s1" c1] t h by (cases u) simp_all
  next
    case False
    then show ?thesis
      by (auto simp: loop_end_def split: outcome.split)
  qed
qed simp

text \<open>C23: the client's loop ends.  Whatever bytes the server sends before the stream ends, in whatever
  pieces, \<^verbatim>\<open>HandleTransactions\<close> returns, and never without an error; one round for every 22 bytes is
  enough.\<close>

theorem HandleTransactions_returns:
  assumes "length (concat (cn_in c)) < 22 * n"
  shows "\<exists>r c'. HandleTransactions hs n c = Some (r, c') \<and> r \<noteq> Ok ()"
proof -
  have "length (pending (reading c (NewScanner (cn_in c)))) < 22 * n"
    using reading_pending[of c "NewScanner (cn_in c)"] assms by simp
  then show ?thesis using client_loop_ends by (simp add: HandleTransactions_def)
qed

section \<open>Logging in to the server\<close>

lemma handshakes: "performHandshake (ClientHandshake # cs) = Ok (handshakeResponse, cs)"
  by (simp add: performHandshake_def ClientHandshake_def handshake_Write_def handshake_Valid_def be_word_def)

lemma client_Handshake_ok:
  assumes "cn_open c" "\<not> cn_closed c" "cn_room c = None" "concat (cn_in c) = handshakeResponse @ r"
  shows "\<exists>i. client_Handshake c = (Ok (), c\<lparr>cn_out := cn_out c @ ClientHandshake, cn_in := i\<rparr>) \<and> concat i = r"
proof -
  obtain i where "read_full 8 (cn_in c) = Ok (handshakeResponse, i)" "concat i = r"
    using read_full_append[OF assms(4), of 8] by (auto simp: handshakeResponse_def)
  then show ?thesis
    using assms by (intro exI[of _ i]) (simp add: client_Handshake_def cn_write_def handshakeResponse_def ServerHandshake_def)
qed

definition login_tran :: "ClientPrefs \<Rightarrow> 32 word \<Rightarrow> bytes \<Rightarrow> bytes \<Rightarrow> transaction" where
  "login_tran p rid login passwd = NewTransaction rid TranLogin 0 (login_fields p login passwd)"

lemma client_Connect_ok:
  assumes "concat i = handshakeResponse @ r"
  obtains c' where "client_Connect (Some (i, None)) login passwd c = (Ok (), c')"
    "cn_out c' = ClientHandshake @ Transaction_bytes (login_tran (cn_Pref c) (cn_rand c 0) login passwd)"
    "concat (cn_in c') = r"
    "map_of (cn_activeTasks c') (cn_rand c 0) = Some (login_tran (cn_Pref c) (cn_rand c 0) login passwd)"
proof -
  let ?c = "c\<lparr>cn_done := True, cn_open := True, cn_closed := False, cn_in := i, cn_out := [], cn_room := None\<rparr>"
  obtain i' where h: "client_Handshake ?c = (Ok (), ?c\<lparr>cn_out := ClientHandshake, cn_in := i'\<rparr>)" "concat i' = r"
    using client_Handshake_ok[of ?c r] assms by auto
  show thesis
    by (rule that) (use h in \<open>auto simp: client_Connect_def Let_def new_request_def client_Send_def cn_write_def login_tran_def\<close>)
qed

lemma login_tran_parses:
  assumes "length (cp_Username p) + length login + length passwd \<le> 65000"
  shows "\<exists>t. Transaction_Write zero_tran (Transaction_bytes (login_tran p rid login passwd)) =
      Ok (length (Transaction_bytes (login_tran p rid login passwd)), t) \<and>
    tr_Type t = TranLogin \<and> login_name t = (if login = [] then GuestAccount else login) \<and>
    field_data t FieldUserPassword = Some (EncodeString passwd) \<and> field_data t FieldUserName = Some (cp_Username p)"
proof -
  have wf: "wf_tran (login_tran p rid login passwd)"
    using assms
    by (simp add: wf_tran_def login_tran_def login_fields_def payload_len_def ClientPrefs_IconBytes_def)
  let ?t = "wire_form (login_tran p rid login passwd)"
  have "field_data ?t FieldUserLogin = Some (EncodeString login)"
    by (simp add: wire_form_def login_tran_def login_fields_def Tran_GetField_def)
  then have "login_name ?t = (if login = [] then GuestAccount else login)"
    by (simp add: login_name_def Field_DecodeObfuscatedString_def sl_def)
  then show ?thesis
    unfolding Transaction_Write_bytes[OF wf]
    by (simp add: wire_form_def login_tran_def login_fields_def Tran_GetField_def)
qed


section \<open>Requests and replies\<close>

text \<open>C18: a reply is for the request it answers.  After a request was sent, a reply with its ID goes to
  the handler of the request's type, and a second one is refused.\<close>

theorem reply_reaches_its_handler:
  assumes "client_Send q c = (Ok (), c1)" "tr_IsReply q = 0" "tr_IsReply t = 1" "tr_ID t = tr_ID q"
  shows "let c2 = c1\<lparr>cn_activeTasks := mdel (tr_ID q) (cn_activeTasks c1)\<rparr> in
    client_HandleTransaction hs t c1 = dispatch hs (t\<lparr>tr_Type := tr_Type q\<rparr>) c2 \<and>
    client_HandleTransaction hs t c2 = (Err (Msg ''no matching request for reply ID''), c2)"
proof -
  have "map_of (cn_activeTasks c1) (tr_ID q) = Some q"
    using assms(1,2) by (auto simp: client_Send_def cn_write_def split: if_splits option.splits)
  then show ?thesis using assms by (simp add: client_HandleTransaction_def)
qed

section \<open>A stream of transactions\<close>

definition handle_all :: "client_handlers \<Rightarrow> transaction list \<Rightarrow> Client \<Rightarrow> Client" where
  "handle_all hs ts c = fold (\<lambda>t c. snd (client_HandleTransaction hs t c)) ts c"

text \<open>Handlers that leave the connection alone; what they return is sent.\<close>

definition plain_handlers :: "client_handlers \<Rightarrow> bool" where
  "plain_handlers hs \<longleftrightarrow> (\<forall>h \<in> snd ` set hs. \<forall>t c. cn_open (snd (h t c)) = cn_open c \<and> cn_closed (snd (h t c)) = cn_closed c)"

definition connected :: "Client \<Rightarrow> bool" where
  "connected c \<longleftrightarrow> cn_open c \<and> \<not> cn_closed c"

lemma client_Send_connected: "connected c \<Longrightarrow> client_Send t c = (r, c') \<Longrightarrow> connected c' \<and> r \<noteq> Panic"
  by (auto simp: client_Send_def cn_write_def connected_def split: if_splits option.splits)

lemma send_all_connected: "connected c \<Longrightarrow> send_all ts c = (r, c') \<Longrightarrow> connected c' \<and> r \<noteq> Panic"
proof (induction ts c rule: send_all.induct)
  case (2 t ts c)
  then show ?case
    using client_Send_connected[OF 2(2)] by (auto split: prod.splits outcome.splits)
qed auto

lemma HandleTransaction_connected:
  assumes "plain_handlers hs" "connected c" "client_HandleTransaction hs t c = (r, c')"
  shows "connected c' \<and> r \<noteq> Panic"
proof -
  have d: "connected c' \<and> r \<noteq> Panic" if "connected c" "dispatch hs t c = (r, c')" for t c r
  proof (cases "map_of hs (tr_Type t)")
    case (Some h)
    obtain o1 e c1 where h: "h t c = ((o1, e), c1)" by (metis prod.collapse)
    have "h \<in> snd ` set hs" using map_of_SomeD[OF Some] by force
    then have "connected c1" using assms(1) that(1) h by (metis connected_def plain_handlers_def snd_conv)
    then show ?thesis using that(2) send_all_connected by (auto simp: dispatch_def Some h)
  qed (use that in \<open>auto simp: dispatch_def\<close>)
  have "connected (c\<lparr>cn_activeTasks := m\<rparr>)" for m using assms(2) by (simp add: connected_def)
  then show ?thesis
    using assms(2,3) d by (auto simp: client_HandleTransaction_def split: if_splits option.splits)
qed

text \<open>C12: nothing is lost or repeated.  A stream of serialised transactions, however the network cuts it, is
  handled once each and in order, if the handlers leave the connection alone.\<close>

theorem HandleTransactions_in_order:
  assumes "\<forall>t \<in> set ts. wf_tran t \<and> length (Transaction_bytes t) \<le> MaxScanTokenSize"
    and "concat (cn_in c) = concat (map Transaction_bytes ts)" "[] \<notin> set (cn_in c)"
    and "plain_handlers hs" "cn_open c" "\<not> cn_closed c" "length ts < n"
  shows "HandleTransactions hs n c = Some (Err (Msg ''connection terminated''), handle_all hs (map wire_form ts) c)"
proof -
  have "client_loop hs n s c = Some (Err (Msg ''connection terminated''), handle_all hs (map wire_form ts) c)"
    if "sc_ok s" "pending s = concat (map Transaction_bytes ts)" "connected c" for s
    using that assms(1,7)
  proof (induction ts arbitrary: s n c)
    case Nil
    then show ?case using tran_scan.scan_end[of s] by (cases n) (auto simp: handle_all_def loop_end_def)
  next
    case (Cons t ts)
    then obtain m where m: "n = Suc m" by (cases n) auto
    obtain s1 where s1: "scan transactionScanner s = Ok (True, s1)" "sc_ok s1"
      "scan_bytes s1 = Transaction_bytes t" "pending s1 = concat (map Transaction_bytes ts)"
      using tran_scan.scan_stream[of s "Transaction_bytes t" "concat (map Transaction_bytes ts)"]
        Cons.prems tran_frame_bytes by auto
    obtain r c1 where h: "client_HandleTransaction hs (wire_form t) c = (r, c1)"
      by (cases "client_HandleTransaction hs (wire_form t) c")
    have c1: "connected c1" "r \<noteq> Panic" using HandleTransaction_connected[OF assms(4) Cons.prems(3) h] by auto
    then have "client_loop hs n s c = client_loop hs m s1 c1"
      using s1 Cons.prems m h by (cases r) (simp_all add: Transaction_Write_bytes reading_def connected_def)
    then show ?case using Cons.IH[of s1 c1 m] s1 c1 Cons.prems m h by (simp add: handle_all_def)
  qed
  then show ?thesis using assms by (simp add: HandleTransactions_def reading_def connected_def)
qed


section \<open>Examples\<close>

abbreviation (input) demo_client :: Client where
  "demo_client \<equiv> NewClient (go_str ''Bob'') (\<lambda>n. 7)"

theorem HandleTransactions_returns_witness:
  "\<exists>r c'. HandleTransactions [] 1 (demo_client\<lparr>cn_in := [[1, 2, 3]], cn_open := True\<rparr>) = Some (r, c') \<and> r \<noteq> Ok ()"
  by (rule HandleTransactions_returns) (simp add: NewClient_def)


theorem reply_reaches_its_handler_witness:
  "let q = NewTransaction 5 TranGetMsgs 0 []; t = zero_tran\<lparr>tr_IsReply := 1, tr_ID := 5\<rparr>;
     c = demo_client\<lparr>cn_open := True\<rparr>; c1 = snd (client_Send q c); c2 = c1\<lparr>cn_activeTasks := mdel 5 (cn_activeTasks c1)\<rparr> in
   client_HandleTransaction [] t c1 = dispatch [] (t\<lparr>tr_Type := TranGetMsgs\<rparr>) c2 \<and>
   client_HandleTransaction [] t c2 = (Err (Msg ''no matching request for reply ID''), c2)"
proof -
  let ?q = "NewTransaction 5 TranGetMsgs 0 []" and ?c = "demo_client\<lparr>cn_open := True\<rparr>"
  have "client_Send ?q ?c = (Ok (), snd (client_Send ?q ?c))"
    by (simp add: client_Send_def cn_write_def NewClient_def)
  from reply_reaches_its_handler[OF this, of "zero_tran\<lparr>tr_IsReply := 1, tr_ID := 5\<rparr>" "[]"]
  show ?thesis by (simp add: Let_def)
qed

theorem HandleTransactions_in_order_witness:
  "let b = concat (map Transaction_bytes sample_stream); c = demo_client\<lparr>cn_in := [take 5 b, drop 5 b], cn_open := True\<rparr> in
   HandleTransactions [] 3 c = Some (Err (Msg ''connection terminated''), handle_all [] (map wire_form sample_stream) c)"
  unfolding Let_def
  by (rule HandleTransactions_in_order[OF sample_stream_wf])
    (simp_all add: NewClient_def plain_handlers_def sample_stream_def Transaction_bytes_def)

end
