(* ===== verification/HL_Redis_Bans.thy ===== *)
theory HL_Redis_Bans
  imports HL_Bans "HOL-Library.Sublist"
begin

text \<open>
  The ban list that is kept in Redis, \<^verbatim>\<open>internal/mobius/redis_ban.go\<close>, and its agreement with the ban
  file.  Redis is a parameter: a record of the commands the code sends, over any type of stores.
\<close>

section \<open>Redis\<close>

datatype redis_cmd = SRem bytes bytes | Del bytes

text \<open>\<open>rd_Exec\<close> runs a pipeline; a duration is in the unit of \<open>time\<close>; a cursor is an unsigned number.\<close>

record 'r redis =
  rd_SAdd :: "bytes \<Rightarrow> bytes \<Rightarrow> 'r \<Rightarrow> go_error option \<times> 'r"
  rd_Set :: "bytes \<Rightarrow> bytes \<Rightarrow> time \<Rightarrow> 'r \<Rightarrow> go_error option \<times> 'r"
  rd_Exec :: "redis_cmd list \<Rightarrow> 'r \<Rightarrow> go_error option \<times> 'r"
  rd_SIsMember :: "bytes \<Rightarrow> bytes \<Rightarrow> 'r \<Rightarrow> go_error + bool"
  rd_Exists :: "bytes \<Rightarrow> 'r \<Rightarrow> go_error + nat"
  rd_TTL :: "bytes \<Rightarrow> 'r \<Rightarrow> go_error + time"
  rd_SMembers :: "bytes \<Rightarrow> 'r \<Rightarrow> go_error + bytes list"
  rd_Scan :: "64 word \<Rightarrow> bytes \<Rightarrow> nat \<Rightarrow> 'r \<Rightarrow> go_error + bytes list \<times> 64 word"

definition RedisKeyBannedIPs :: bytes where "RedisKeyBannedIPs = go_str ''mobius:banned:ips''"
definition RedisKeyBannedUsers :: bytes where "RedisKeyBannedUsers = go_str ''mobius:banned:users''"
definition RedisKeyBannedNicknames :: bytes where "RedisKeyBannedNicknames = go_str ''mobius:banned:nicknames''"
definition RedisKeyTempBannedIPs :: bytes where "RedisKeyTempBannedIPs = go_str ''mobius:temp_banned:ips:''"

section \<open>The ban list\<close>

definition rb_Add :: "'r redis \<Rightarrow> time \<Rightarrow> bytes \<Rightarrow> time option \<Rightarrow> 'r \<Rightarrow> go_error option \<times> 'r" where
  "rb_Add rd now ip until s =
     (case until of
        None \<Rightarrow> rd_SAdd rd RedisKeyBannedIPs ip s
      | Some u \<Rightarrow>
          let tempKey = RedisKeyTempBannedIPs @ ip; duration = u - now in
          if duration \<le> 0 then (None, s) else rd_Set rd tempKey (go_str ''1'') duration s)"

text \<open>Whatever Redis cannot answer counts as banned.\<close>

definition rb_IsBanned :: "'r redis \<Rightarrow> time \<Rightarrow> bytes \<Rightarrow> 'r \<Rightarrow> bool \<times> time option" where
  "rb_IsBanned rd now ip s =
     (case rd_SIsMember rd RedisKeyBannedIPs ip s of
        Inl e \<Rightarrow> (True, None)
      | Inr True \<Rightarrow> (True, None)
      | Inr False \<Rightarrow>
          let tempKey = RedisKeyTempBannedIPs @ ip in
          (case rd_Exists rd tempKey s of
             Inl e \<Rightarrow> (True, None)
           | Inr n \<Rightarrow>
               if 0 < n then
                 (case rd_TTL rd tempKey s of
                    Inl e \<Rightarrow> (True, None)
                  | Inr ttl \<Rightarrow> if 0 < ttl then (True, Some (now + ttl)) else (False, None))
               else (False, None)))"

definition rb_UnbanIP :: "'r redis \<Rightarrow> bytes \<Rightarrow> 'r \<Rightarrow> go_error option \<times> 'r" where
  "rb_UnbanIP rd ip = rd_Exec rd [SRem RedisKeyBannedIPs ip, Del (RedisKeyTempBannedIPs @ ip)]"

definition rb_BanUsername :: "'r redis \<Rightarrow> bytes \<Rightarrow> 'r \<Rightarrow> go_error option \<times> 'r" where
  "rb_BanUsername rd = rd_SAdd rd RedisKeyBannedUsers"

text \<open>A single command is a pipeline of one.\<close>

definition rb_UnbanUsername :: "'r redis \<Rightarrow> bytes \<Rightarrow> 'r \<Rightarrow> go_error option \<times> 'r" where
  "rb_UnbanUsername rd u = rd_Exec rd [SRem RedisKeyBannedUsers u]"

definition rb_IsUsernameBanned :: "'r redis \<Rightarrow> bytes \<Rightarrow> 'r \<Rightarrow> bool" where
  "rb_IsUsernameBanned rd u s = (case rd_SIsMember rd RedisKeyBannedUsers u s of Inl e \<Rightarrow> True | Inr banned \<Rightarrow> banned)"

definition rb_BanNickname :: "'r redis \<Rightarrow> bytes \<Rightarrow> 'r \<Rightarrow> go_error option \<times> 'r" where
  "rb_BanNickname rd = rd_SAdd rd RedisKeyBannedNicknames"

definition rb_UnbanNickname :: "'r redis \<Rightarrow> bytes \<Rightarrow> 'r \<Rightarrow> go_error option \<times> 'r" where
  "rb_UnbanNickname rd n = rd_Exec rd [SRem RedisKeyBannedNicknames n]"

definition rb_IsNicknameBanned :: "'r redis \<Rightarrow> bytes \<Rightarrow> 'r \<Rightarrow> bool" where
  "rb_IsNicknameBanned rd n s = (case rd_SIsMember rd RedisKeyBannedNicknames n s of Inl e \<Rightarrow> True | Inr banned \<Rightarrow> banned)"

text \<open>The loop over the cursor, until it is 0 again; \<open>None\<close> with too little fuel.\<close>

fun scan_keys :: "'r redis \<Rightarrow> nat \<Rightarrow> 64 word \<Rightarrow> bytes \<Rightarrow> 'r \<Rightarrow> (go_error + bytes list) option" where
  "scan_keys rd 0 cursor pat s = None"
| "scan_keys rd (Suc n) cursor pat s =
     (case rd_Scan rd cursor pat 100 s of
        Inl e \<Rightarrow> Some (Inl e)
      | Inr (keys, cursor1) \<Rightarrow>
          if cursor1 = 0 then Some (Inr keys)
          else (case scan_keys rd n cursor1 pat s of Some (Inr ks) \<Rightarrow> Some (Inr (keys @ ks)) | r \<Rightarrow> r))"

definition TrimPrefix :: "bytes \<Rightarrow> bytes \<Rightarrow> bytes" where
  "TrimPrefix s pre = (if prefix pre s then drop (length pre) s else s)"

fun unique_ips :: "bytes list \<Rightarrow> bytes list \<Rightarrow> bytes list" where
  "unique_ips seen [] = []"
| "unique_ips seen (ip # ips) = (if ip \<in> set seen then unique_ips seen ips else ip # unique_ips (ip # seen) ips)"

definition rb_ListBannedIPs :: "'r redis \<Rightarrow> nat \<Rightarrow> 'r \<Rightarrow> (go_error + bytes list) option" where
  "rb_ListBannedIPs rd n s =
     (case rd_SMembers rd RedisKeyBannedIPs s of
        Inl e \<Rightarrow> Some (Inl e)
      | Inr permanentIPs \<Rightarrow>
          (case scan_keys rd n 0 (RedisKeyTempBannedIPs @ go_str ''*'') s of
             None \<Rightarrow> None
           | Some (Inl e) \<Rightarrow> Some (Inl e)
           | Some (Inr keys) \<Rightarrow>
               Some (Inr (unique_ips [] (permanentIPs @ map (\<lambda>k. TrimPrefix k RedisKeyTempBannedIPs) keys)))))"

definition rb_ListBannedUsernames :: "'r redis \<Rightarrow> 'r \<Rightarrow> go_error + bytes list" where
  "rb_ListBannedUsernames rd s = rd_SMembers rd RedisKeyBannedUsers s"

definition rb_ListBannedNicknames :: "'r redis \<Rightarrow> 'r \<Rightarrow> go_error + bytes list" where
  "rb_ListBannedNicknames rd s = rd_SMembers rd RedisKeyBannedNicknames s"

section \<open>What Redis documents of its commands\<close>

text \<open>
  \<open>sets\<close> are the sets of a store, \<open>ttl\<close> the time that the other keys still live.  A command that
  succeeds has its effect, on this key only, and an answer is the truth.  Nothing is said of a command
  that fails.
\<close>

fun cmd_sets :: "redis_cmd list \<Rightarrow> (bytes \<Rightarrow> bytes set) \<Rightarrow> bytes \<Rightarrow> bytes set" where
  "cmd_sets [] m = m"
| "cmd_sets (SRem k v # cs) m = cmd_sets cs (m(k := m k - {v}))"
| "cmd_sets (Del k # cs) m = cmd_sets cs (m(k := {}))"

fun cmd_ttl :: "redis_cmd list \<Rightarrow> (bytes \<Rightarrow> time option) \<Rightarrow> bytes \<Rightarrow> time option" where
  "cmd_ttl [] m = m"
| "cmd_ttl (SRem k v # cs) m = cmd_ttl cs m"
| "cmd_ttl (Del k # cs) m = cmd_ttl cs (m(k := None))"

definition redis_ok :: "'r redis \<Rightarrow> ('r \<Rightarrow> bytes \<Rightarrow> bytes set) \<Rightarrow> ('r \<Rightarrow> bytes \<Rightarrow> time option) \<Rightarrow> bool" where
  "redis_ok rd sets ttl \<longleftrightarrow>
     (\<forall>k v s s'. rd_SAdd rd k v s = (None, s') \<longrightarrow> sets s' = (sets s)(k := insert v (sets s k)) \<and> ttl s' = ttl s) \<and>
     (\<forall>k v d s s'. rd_Set rd k v d s = (None, s') \<longrightarrow> sets s' = (sets s)(k := {}) \<and> ttl s' = (ttl s)(k \<mapsto> d)) \<and>
     (\<forall>cs s s'. rd_Exec rd cs s = (None, s') \<longrightarrow> sets s' = cmd_sets cs (sets s) \<and> ttl s' = cmd_ttl cs (ttl s)) \<and>
     (\<forall>k v s b. rd_SIsMember rd k v s = Inr b \<longrightarrow> (b \<longleftrightarrow> v \<in> sets s k)) \<and>
     (\<forall>k s n. rd_Exists rd k s = Inr n \<longrightarrow> (0 < n \<longleftrightarrow> ttl s k \<noteq> None \<or> sets s k \<noteq> {})) \<and>
     (\<forall>k s t d. rd_TTL rd k s = Inr t \<longrightarrow> ttl s k = Some d \<longrightarrow> t = d) \<and>
     (\<forall>k s xs. rd_SMembers rd k s = Inr xs \<longrightarrow> set xs = sets s k)"

lemma redis_okD:
  assumes "redis_ok rd sets ttl"
  shows "rd_SAdd rd k v s = (None, s') \<Longrightarrow> sets s' = (sets s)(k := insert v (sets s k)) \<and> ttl s' = ttl s"
    and "rd_Set rd k v d s = (None, s') \<Longrightarrow> sets s' = (sets s)(k := {}) \<and> ttl s' = (ttl s)(k \<mapsto> d)"
    and "rd_Exec rd cs s = (None, s') \<Longrightarrow> sets s' = cmd_sets cs (sets s) \<and> ttl s' = cmd_ttl cs (ttl s)"
    and "rd_SIsMember rd k v s = Inr b \<Longrightarrow> b \<longleftrightarrow> v \<in> sets s k"
    and "rd_Exists rd k s = Inr n \<Longrightarrow> 0 < n \<longleftrightarrow> ttl s k \<noteq> None \<or> sets s k \<noteq> {}"
    and "rd_TTL rd k s = Inr t \<Longrightarrow> ttl s k = Some d \<Longrightarrow> t = d"
    and "rd_SMembers rd k s = Inr xs \<Longrightarrow> set xs = sets s k"
proof -
  note a = assms[unfolded redis_ok_def]
  show "rd_SAdd rd k v s = (None, s') \<Longrightarrow> sets s' = (sets s)(k := insert v (sets s k)) \<and> ttl s' = ttl s"
    using a by presburger
  show "rd_Set rd k v d s = (None, s') \<Longrightarrow> sets s' = (sets s)(k := {}) \<and> ttl s' = (ttl s)(k \<mapsto> d)"
    using a by presburger
  show "rd_Exec rd cs s = (None, s') \<Longrightarrow> sets s' = cmd_sets cs (sets s) \<and> ttl s' = cmd_ttl cs (ttl s)"
    using a by presburger
  show "rd_SIsMember rd k v s = Inr b \<Longrightarrow> b \<longleftrightarrow> v \<in> sets s k" using a by presburger
  show "rd_Exists rd k s = Inr n \<Longrightarrow> 0 < n \<longleftrightarrow> ttl s k \<noteq> None \<or> sets s k \<noteq> {}" using a by presburger
  show "rd_TTL rd k s = Inr t \<Longrightarrow> ttl s k = Some d \<Longrightarrow> t = d" using a by presburger
  show "rd_SMembers rd k s = Inr xs \<Longrightarrow> set xs = sets s k" using a by presburger
qed

text \<open>A full round of \<^verbatim>\<open>SCAN\<close> finds every key of the pattern, perhaps more than once.  Temporary bans are
  the only keys with this prefix.\<close>

definition scan_ok :: "'r redis \<Rightarrow> ('r \<Rightarrow> bytes \<Rightarrow> time option) \<Rightarrow> bool" where
  "scan_ok rd ttl \<longleftrightarrow> (\<forall>n s ks. scan_keys rd n 0 (RedisKeyTempBannedIPs @ go_str ''*'') s = Some (Inr ks) \<longrightarrow>
     set ks = {k. prefix RedisKeyTempBannedIPs k \<and> ttl s k \<noteq> None})"

text \<open>Redis answers, and the keys of temporary bans hold no sets.\<close>

definition answers :: "'r redis \<Rightarrow> 'r \<Rightarrow> bool" where
  "answers rd s \<longleftrightarrow> (\<forall>k v. rd_SIsMember rd k v s \<in> range Inr) \<and> (\<forall>k. rd_Exists rd k s \<in> range Inr) \<and>
     (\<forall>k. rd_TTL rd k s \<in> range Inr)"

definition no_temp_sets :: "('r \<Rightarrow> bytes \<Rightarrow> bytes set) \<Rightarrow> 'r \<Rightarrow> bool" where
  "no_temp_sets sets s \<longleftrightarrow> (\<forall>ip. sets s (RedisKeyTempBannedIPs @ ip) = {})"

lemma temp_keys [simp]:
  "RedisKeyTempBannedIPs @ ip \<noteq> RedisKeyBannedIPs" "RedisKeyTempBannedIPs @ ip \<noteq> RedisKeyBannedUsers"
  "RedisKeyTempBannedIPs @ ip \<noteq> RedisKeyBannedNicknames" "RedisKeyBannedIPs \<noteq> RedisKeyTempBannedIPs @ ip"
  "RedisKeyBannedUsers \<noteq> RedisKeyTempBannedIPs @ ip" "RedisKeyBannedNicknames \<noteq> RedisKeyTempBannedIPs @ ip"
  "RedisKeyBannedIPs \<noteq> RedisKeyBannedUsers" "RedisKeyBannedIPs \<noteq> RedisKeyBannedNicknames"
  "RedisKeyBannedUsers \<noteq> RedisKeyBannedNicknames" "RedisKeyBannedUsers \<noteq> RedisKeyBannedIPs"
  "RedisKeyBannedNicknames \<noteq> RedisKeyBannedIPs" "RedisKeyBannedNicknames \<noteq> RedisKeyBannedUsers"
  by (simp_all add: RedisKeyTempBannedIPs_def RedisKeyBannedIPs_def RedisKeyBannedUsers_def
      RedisKeyBannedNicknames_def go_str_def)

section \<open>The two ban lists agree\<close>

fun redis_step :: "'r redis \<Rightarrow> time \<Rightarrow> ban_op \<Rightarrow> 'r \<Rightarrow> go_error option \<times> 'r" where
  "redis_step rd now (BanIP ip until) s = rb_Add rd now ip until s"
| "redis_step rd now (UnbanIP ip) s = rb_UnbanIP rd ip s"
| "redis_step rd now (BanUser u) s = rb_BanUsername rd u s"
| "redis_step rd now (UnbanUser u) s = rb_UnbanUsername rd u s"
| "redis_step rd now (BanNick n) s = rb_BanNickname rd n s"
| "redis_step rd now (UnbanNick n) s = rb_UnbanNickname rd n s"

text \<open>What the sets and the times to live say.\<close>

definition abs_banned :: "time \<Rightarrow> (bytes \<Rightarrow> bytes set) \<Rightarrow> (bytes \<Rightarrow> time option) \<Rightarrow> bytes \<Rightarrow> bool \<times> time option" where
  "abs_banned now m t ip =
     (if ip \<in> m RedisKeyBannedIPs then (True, None)
      else case t (RedisKeyTempBannedIPs @ ip) of None \<Rightarrow> (False, None)
        | Some d \<Rightarrow> if 0 < d then (True, Some (now + d)) else (False, None))"

definition same_bans :: "time \<Rightarrow> BanFile \<Rightarrow> (bytes \<Rightarrow> bytes set) \<Rightarrow> (bytes \<Rightarrow> time option) \<Rightarrow> bool" where
  "same_bans now bf m t \<longleftrightarrow> (\<forall>ip. bf_IsBanned ip bf = abs_banned now m t ip) \<and>
     (\<forall>u. bf_IsUsernameBanned u bf \<longleftrightarrow> u \<in> m RedisKeyBannedUsers) \<and>
     (\<forall>n. bf_IsNicknameBanned n bf \<longleftrightarrow> n \<in> m RedisKeyBannedNicknames)"

lemma rb_IsBanned_abs:
  assumes "redis_ok rd sets ttl" "answers rd s" "no_temp_sets sets s"
  shows "rb_IsBanned rd now ip s = abs_banned now (sets s) (ttl s) ip"
proof -
  let ?k = "RedisKeyTempBannedIPs @ ip"
  obtain b n d where r: "rd_SIsMember rd RedisKeyBannedIPs ip s = Inr b" "rd_Exists rd ?k s = Inr n" "rd_TTL rd ?k s = Inr d"
    using assms(2) unfolding answers_def by (metis image_iff)
  have "b \<longleftrightarrow> ip \<in> sets s RedisKeyBannedIPs" "0 < n \<longleftrightarrow> ttl s ?k \<noteq> None"
    "\<And>d'. ttl s ?k = Some d' \<Longrightarrow> d = d'"
    using assms(3) redis_okD(4,5,6)[OF assms(1)] r by (auto simp: no_temp_sets_def)
  then show ?thesis using r by (cases b) (auto simp: rb_IsBanned_def abs_banned_def split: option.split)
qed

text \<open>A temporary ban must end in the future, and not come after a permanent one.\<close>

definition plain_op :: "time \<Rightarrow> BanFile \<Rightarrow> ban_op \<Rightarrow> bool" where
  "plain_op now bf op \<longleftrightarrow> (case op of BanIP ip (Some u) \<Rightarrow> now < u \<and> bf_IsBanned ip bf \<noteq> (True, None) | _ \<Rightarrow> True)"

lemma same_bans_step:
  assumes "redis_ok rd sets ttl" "same_bans now bf (sets s) (ttl s)" "no_temp_sets sets s" "plain_op now bf op"
    "ban_step y op (bf, d) = Ok (None, bf', d')" "redis_step rd now op s = (None, s')"
  shows "same_bans now bf' (sets s') (ttl s') \<and> no_temp_sets sets s'"
proof -
  note SAdd = redis_okD(1)[OF assms(1)] and Set = redis_okD(2)[OF assms(1)] and Exec = redis_okD(3)[OF assms(1)]
  show ?thesis
  proof (cases op)
    case (BanIP ip until)
    have b: "bf_IsBanned q bf' = (if q = ip then (True, until) else bf_IsBanned q bf)" for q
      using bf_Add_lookup[of y ip until bf d None bf' d' q] assms(5) BanIP by simp
    have o: "bf_IsUsernameBanned u bf' = bf_IsUsernameBanned u bf" "bf_IsNicknameBanned n bf' = bf_IsNicknameBanned n bf" for u n
      using assms(5) BanIP
      by (auto simp: bf_Add_def bf_IsUsernameBanned_def bf_IsNicknameBanned_def Let_def split: prod.splits option.splits)
    show ?thesis
    proof (cases until)
      case None
      then show ?thesis
        using assms(2,3,6) BanIP b o SAdd[of RedisKeyBannedIPs ip s s']
        by (auto simp: same_bans_def no_temp_sets_def rb_Add_def abs_banned_def)
    next
      case (Some u)
      then have "now < u" "ip \<notin> sets s RedisKeyBannedIPs"
        using assms(2,4) BanIP by (auto simp: plain_op_def same_bans_def abs_banned_def)
      then show ?thesis
        using assms(2,3,6) BanIP b o Some Set[of "RedisKeyTempBannedIPs @ ip" "go_str ''1''" "u - now" s s']
        by (auto simp: same_bans_def no_temp_sets_def rb_Add_def abs_banned_def Let_def)
    qed
  next
    case (UnbanIP ip)
    have b: "bf_IsBanned q bf' = (if q = ip then (False, None) else bf_IsBanned q bf)" for q
      using assms(5) UnbanIP
      by (cases "bf_banList bf") (auto simp: bf_UnbanIP_def bf_IsBanned_def nil_map_def Let_def split: prod.splits option.splits if_splits)
    have o: "bf_IsUsernameBanned u bf' = bf_IsUsernameBanned u bf" "bf_IsNicknameBanned n bf' = bf_IsNicknameBanned n bf" for u n
      using assms(5) UnbanIP
      by (auto simp: bf_UnbanIP_def bf_IsUsernameBanned_def bf_IsNicknameBanned_def Let_def split: prod.splits option.splits)
    show ?thesis
      using assms(2,3,6) UnbanIP b o Exec[of "[SRem RedisKeyBannedIPs ip, Del (RedisKeyTempBannedIPs @ ip)]" s s']
      by (auto simp: same_bans_def no_temp_sets_def rb_UnbanIP_def abs_banned_def)
  next
    case (BanUser u)
    have o: "bf_IsBanned q bf' = bf_IsBanned q bf" "bf_IsNicknameBanned n bf' = bf_IsNicknameBanned n bf" for q n
      using assms(5) BanUser
      by (auto simp: bf_BanUsername_def bf_IsBanned_def bf_IsNicknameBanned_def Let_def split: prod.splits option.splits)
    show ?thesis
      using assms(2,3,5,6) BanUser o SAdd[of RedisKeyBannedUsers u s s'] user_bans.ban_ok[of y u "(bf, d)" "(bf', d')"]
      by (auto simp: same_bans_def no_temp_sets_def rb_BanUsername_def abs_banned_def)
  next
    case (UnbanUser u)
    have o: "bf_IsBanned q bf' = bf_IsBanned q bf" "bf_IsNicknameBanned n bf' = bf_IsNicknameBanned n bf" for q n
      using assms(5) UnbanUser
      by (auto simp: bf_UnbanUsername_def bf_IsBanned_def bf_IsNicknameBanned_def Let_def split: prod.splits option.splits)
    show ?thesis
      using assms(2,3,5,6) UnbanUser o Exec[of "[SRem RedisKeyBannedUsers u]" s s'] user_bans.unban_ok[of y u "(bf, d)" "(bf', d')"]
      by (auto simp: same_bans_def no_temp_sets_def rb_UnbanUsername_def abs_banned_def)
  next
    case (BanNick u)
    have o: "bf_IsBanned q bf' = bf_IsBanned q bf" "bf_IsUsernameBanned n bf' = bf_IsUsernameBanned n bf" for q n
      using assms(5) BanNick
      by (auto simp: bf_BanNickname_def bf_IsBanned_def bf_IsUsernameBanned_def Let_def split: prod.splits option.splits)
    show ?thesis
      using assms(2,3,5,6) BanNick o SAdd[of RedisKeyBannedNicknames u s s'] nick_bans.ban_ok[of y u "(bf, d)" "(bf', d')"]
      by (auto simp: same_bans_def no_temp_sets_def rb_BanNickname_def abs_banned_def)
  next
    case (UnbanNick u)
    have o: "bf_IsBanned q bf' = bf_IsBanned q bf" "bf_IsUsernameBanned n bf' = bf_IsUsernameBanned n bf" for q n
      using assms(5) UnbanNick
      by (auto simp: bf_UnbanNickname_def bf_IsBanned_def bf_IsUsernameBanned_def Let_def split: prod.splits option.splits)
    show ?thesis
      using assms(2,3,5,6) UnbanNick o Exec[of "[SRem RedisKeyBannedNicknames u]" s s'] nick_bans.unban_ok[of y u "(bf, d)" "(bf', d')"]
      by (auto simp: same_bans_def no_temp_sets_def rb_UnbanNickname_def abs_banned_def)
  qed
qed

text \<open>The same changes to both lists, as long as both report them as done.\<close>

fun run_both :: "ban_yaml \<Rightarrow> 'r redis \<Rightarrow> time \<Rightarrow> ban_op list \<Rightarrow> (BanFile \<times> disk) \<times> 'r \<Rightarrow> ((BanFile \<times> disk) \<times> 'r) option" where
  "run_both y rd now [] st = Some st"
| "run_both y rd now (op # ops) ((bf, d), s) =
     (if \<not> plain_op now bf op then None
      else case (ban_step y op (bf, d), redis_step rd now op s) of
        (Ok (None, p), (None, s1)) \<Rightarrow> run_both y rd now ops (p, s1)
      | _ \<Rightarrow> None)"

lemma same_bans_run:
  assumes "redis_ok rd sets ttl"
  shows "run_both y rd now ops ((bf, d), s) = Some ((bf', d'), s') \<Longrightarrow> same_bans now bf (sets s) (ttl s) \<Longrightarrow>
    no_temp_sets sets s \<Longrightarrow> same_bans now bf' (sets s') (ttl s') \<and> no_temp_sets sets s'"
proof (induction ops arbitrary: bf d s)
  case (Cons op ops)
  then obtain bf1 d1 s1 where step: "plain_op now bf op" "ban_step y op (bf, d) = Ok (None, bf1, d1)"
    "redis_step rd now op s = (None, s1)" "run_both y rd now ops ((bf1, d1), s1) = Some ((bf', d'), s')"
    by (auto split: if_splits outcome.splits prod.splits option.splits)
  then show ?case using Cons.IH[of bf1 d1 s1] same_bans_step[OF assms Cons.prems(2,3) step(1,2,3)] by blast
qed simp


section \<open>Listing the banned addresses\<close>

lemma unique_ips: "set (unique_ips seen ips) = set ips - set seen \<and> distinct (unique_ips seen ips)"
  by (induction seen ips rule: unique_ips.induct) auto


section \<open>A small Redis\<close>

type_synonym demo_store = "(bytes \<times> bytes) list \<times> (bytes, time) gmap"

fun demo_cmd :: "redis_cmd \<Rightarrow> demo_store \<Rightarrow> demo_store" where
  "demo_cmd (SRem k v) s = (removeAll (k, v) (fst s), snd s)"
| "demo_cmd (Del k) s = (filter (\<lambda>p. fst p \<noteq> k) (fst s), mdel k (snd s))"

definition demo_redis :: "demo_store redis" where
  "demo_redis =
     \<lparr>rd_SAdd = \<lambda>k v s. (None, (List.insert (k, v) (fst s), snd s)),
      rd_Set = \<lambda>k v d s. (None, (filter (\<lambda>p. fst p \<noteq> k) (fst s), mput k d (snd s))),
      rd_Exec = \<lambda>cs s. (None, fold demo_cmd cs s),
      rd_SIsMember = \<lambda>k v s. Inr ((k, v) \<in> set (fst s)),
      rd_Exists = \<lambda>k s. Inr (if map_of (snd s) k \<noteq> None \<or> k \<in> fst ` set (fst s) then 1 else 0),
      rd_TTL = \<lambda>k s. Inr (case map_of (snd s) k of Some d \<Rightarrow> d | None \<Rightarrow> - 2),
      rd_SMembers = \<lambda>k s. Inr (map snd (filter (\<lambda>p. fst p = k) (fst s))),
      rd_Scan = \<lambda>cursor pat n s. Inr (filter (prefix (butlast pat)) (map fst (snd s)), 0)\<rparr>"

definition demo_sets :: "demo_store \<Rightarrow> bytes \<Rightarrow> bytes set" where
  "demo_sets s k = {v. (k, v) \<in> set (fst s)}"

definition demo_ttl :: "demo_store \<Rightarrow> bytes \<Rightarrow> time option" where
  "demo_ttl s = map_of (snd s)"

lemma demo_exec: "demo_sets (fold demo_cmd cs s) = cmd_sets cs (demo_sets s) \<and> demo_ttl (fold demo_cmd cs s) = cmd_ttl cs (demo_ttl s)"
proof (induction cs arbitrary: s)
  case (Cons c cs)
  have "demo_sets (demo_cmd (SRem k v) s) = (demo_sets s)(k := demo_sets s k - {v})"
    "demo_ttl (demo_cmd (SRem k v) s) = demo_ttl s" "demo_sets (demo_cmd (Del k) s) = (demo_sets s)(k := {})"
    "demo_ttl (demo_cmd (Del k) s) = (demo_ttl s)(k := None)" for k v
    by (auto simp: demo_sets_def demo_ttl_def fun_eq_iff)
  then show ?case using Cons by (cases c) (simp_all add: fun_upd_def)
qed simp

lemma demo_redis_ok: "redis_ok demo_redis demo_sets demo_ttl"
  unfolding redis_ok_def demo_redis_def
proof (simp add: demo_exec, intro conjI allI impI)
qed (force simp: demo_sets_def demo_ttl_def fun_eq_iff image_iff split: if_splits)+

lemma demo_scan_ok: "scan_ok demo_redis demo_ttl"
  unfolding scan_ok_def
proof (intro allI impI)
  fix n s ks assume "scan_keys demo_redis n 0 (RedisKeyTempBannedIPs @ go_str ''*'') s = Some (Inr ks)"
  then show "set ks = {k. prefix RedisKeyTempBannedIPs k \<and> demo_ttl s k \<noteq> None}"
    by (cases n) (force simp: demo_redis_def demo_ttl_def go_str_def map_of_eq_None_iff image_iff)+
qed

lemma demo_answers: "answers demo_redis s"
  by (simp add: answers_def demo_redis_def)



end
