(* ===== verification/HL_References.thy ===== *)
theory HL_References
  imports HL_Small_Server
begin

text \<open>
  The references the server holds: pending transfers, the transfers each client lists, the members of
  private chats.  In every reachable state each of them names an object that exists and is filed under
  its own number.
\<close>

section \<open>What it means\<close>

definition refs_ok :: "server \<Rightarrow> bool" where
  "refs_ok s \<longleftrightarrow>
     (\<forall>i f. map_of (sv_fileTransfers s) i = Some f \<longrightarrow>
        f < sv_next_ft s \<and> ft_RefNum (sv_fts s f) = i \<and> ft_ClientConn (sv_fts s f) < sv_next s \<and>
        map_of (cl_transfers (cc s (ft_ClientConn (sv_fts s f))) (ft_Type (sv_fts s f))) i = Some f) \<and>
     (\<forall>r ty i f. r < sv_next s \<longrightarrow> map_of (cl_transfers (cc s r) ty) i = Some f \<longrightarrow>
        f < sv_next_ft s \<and> ft_RefNum (sv_fts s f) = i \<and> ft_Type (sv_fts s f) = ty \<and> ft_ClientConn (sv_fts s f) = r) \<and>
     (\<forall>i c k r. map_of (sv_chats s) i = Some c \<longrightarrow> map_of (ch_ClientConn c) k = Some r \<longrightarrow>
        r < sv_next s \<and> cl_ID (cc s r) = k)"

text \<open>What it looks at.\<close>

definition ref_view :: "server \<Rightarrow> nat \<times> nat \<times> (32 word, nat) gmap \<times> (32 word, PrivateChat) gmap \<times>
    (nat \<Rightarrow> 32 word \<times> nat \<times> nat) \<times> (nat \<Rightarrow> 16 word \<times> (nat \<Rightarrow> (32 word, nat) gmap))" where
  "ref_view s = (sv_next s, sv_next_ft s, sv_fileTransfers s, sv_chats s,
     (\<lambda>f. (ft_RefNum (sv_fts s f), ft_Type (sv_fts s f), ft_ClientConn (sv_fts s f))),
     (\<lambda>r. (cl_ID (cc s r), cl_transfers (cc s r))))"

named_theorems rviews

lemma refs_view: "ref_view s' = ref_view s \<Longrightarrow> refs_ok s \<Longrightarrow> refs_ok s'"
proof -
  assume v: "ref_view s' = ref_view s"
  have f: "ft_RefNum (sv_fts s' f) = ft_RefNum (sv_fts s f)" "ft_Type (sv_fts s' f) = ft_Type (sv_fts s f)"
    "ft_ClientConn (sv_fts s' f) = ft_ClientConn (sv_fts s f)" for f
    using v by (auto simp: ref_view_def fun_eq_iff)
  have c: "cl_ID (cc s' r) = cl_ID (cc s r)" "cl_transfers (cc s' r) = cl_transfers (cc s r)" for r
    using v by (auto simp: ref_view_def fun_eq_iff)
  have o: "sv_next s' = sv_next s" "sv_next_ft s' = sv_next_ft s" "sv_fileTransfers s' = sv_fileTransfers s" "sv_chats s' = sv_chats s"
    using v by (auto simp: ref_view_def)
  show "refs_ok s \<Longrightarrow> refs_ok s'" by (simp add: refs_ok_def f c o)
qed

lemma rview_fields [rviews]:
  "ref_view (s\<lparr>sv_clients := a\<rparr>) = ref_view s" "ref_view (s\<lparr>sv_later := b\<rparr>) = ref_view s"
  "ref_view (s\<lparr>sv_accounts := e\<rparr>) = ref_view s" "ref_view (s\<lparr>sv_bans := g\<rparr>) = ref_view s"
  "ref_view (s\<lparr>sv_news := h\<rparr>) = ref_view s" "ref_view (s\<lparr>sv_board := i\<rparr>) = ref_view s" "ref_view (s\<lparr>sv_disk := j\<rparr>) = ref_view s"
  "ref_view (s\<lparr>sv_files := k\<rparr>) = ref_view s" "ref_view (s\<lparr>sv_outbox := l\<rparr>) = ref_view s" "ref_view (s\<lparr>sv_rand := q\<rparr>) = ref_view s"
  "ref_view (s\<lparr>sv_redis := u\<rparr>) = ref_view s" "ref_view (s\<lparr>sv_agreement := w\<rparr>) = ref_view s"
  "ref_view (s\<lparr>sv_stats := st\<rparr>) = ref_view s" "ref_view (s\<lparr>sv_Banner := bn\<rparr>) = ref_view s"
  by (simp_all add: ref_view_def)

lemma rview_upd_conn:
  "cl_ID (f (cc s r)) = cl_ID (cc s r) \<Longrightarrow> cl_transfers (f (cc s r)) = cl_transfers (cc s r) \<Longrightarrow>
   ref_view (upd_conn r f s) = ref_view s"
  by (auto simp: ref_view_def upd_conn_def)

lemma rview_basic [rviews]:
  "ref_view (skip_rand n s) = ref_view s" "ref_view (send ts s) = ref_view s"
  "ref_view (disconnect_later c s) = ref_view s" "ref_view (snd (new_tran ty i fs s)) = ref_view s"
  "ref_view (redis_SRem e s) = ref_view s" "ref_view (redis_SAdd e s) = ref_view s"
  "ref_view (snd (on_accounts f s)) = ref_view s" "ref_view (snd (on_news g s)) = ref_view s"
  "ref_view (snd (on_files h s)) = ref_view s"
  by (simp_all add: skip_rand_def send_def disconnect_later_def new_tran_def redis_SRem_def redis_SAdd_def
      on_accounts_def on_news_def on_files_def split_beta rviews)

lemma rview_fan_out [rviews]: "ref_view (snd (fan_out ty fs rs s)) = ref_view s"
  by (induction ty fs rs s rule: fan_out.induct) (simp_all add: split_beta rviews)

lemma rview_SendAll [rviews]: "ref_view (SendAll ty fs s) = ref_view s"
  by (simp add: SendAll_def rviews split_beta)

lemma rview_Disconnect [rviews]: "ref_view (Disconnect r s) = ref_view s"
  by (simp add: Disconnect_def ClientMgr_Delete_def Let_def split_beta rviews rview_upd_conn)

lemma rview_ban_address: "ban_address x ip u s = Some s' \<Longrightarrow> ref_view s' = ref_view s"
  by (auto simp: ban_address_def rviews split: option.splits outcome.splits)

lemma rview_upd_ft:
  "ft_RefNum (g (sv_fts s f)) = ft_RefNum (sv_fts s f) \<Longrightarrow> ft_Type (g (sv_fts s f)) = ft_Type (sv_fts s f) \<Longrightarrow>
   ft_ClientConn (g (sv_fts s f)) = ft_ClientConn (sv_fts s f) \<Longrightarrow> ref_view (upd_ft f g s) = ref_view s"
  by (auto simp: ref_view_def upd_ft_def)

section \<open>Chats and transfers\<close>

lemma refs_okI:
  assumes "\<And>i f. map_of (sv_fileTransfers s) i = Some f \<Longrightarrow>
      f < sv_next_ft s \<and> ft_RefNum (sv_fts s f) = i \<and> ft_ClientConn (sv_fts s f) < sv_next s \<and>
      map_of (cl_transfers (cc s (ft_ClientConn (sv_fts s f))) (ft_Type (sv_fts s f))) i = Some f"
    and "\<And>r ty i f. r < sv_next s \<Longrightarrow> map_of (cl_transfers (cc s r) ty) i = Some f \<Longrightarrow>
      f < sv_next_ft s \<and> ft_RefNum (sv_fts s f) = i \<and> ft_Type (sv_fts s f) = ty \<and> ft_ClientConn (sv_fts s f) = r"
    and "\<And>i c k r. map_of (sv_chats s) i = Some c \<Longrightarrow> map_of (ch_ClientConn c) k = Some r \<Longrightarrow> r < sv_next s \<and> cl_ID (cc s r) = k"
  shows "refs_ok s"
  using assms unfolding refs_ok_def by blast

lemma refs_okD:
  assumes "refs_ok s"
  shows "map_of (sv_fileTransfers s) i = Some f \<Longrightarrow>
      f < sv_next_ft s \<and> ft_RefNum (sv_fts s f) = i \<and> ft_ClientConn (sv_fts s f) < sv_next s \<and>
      map_of (cl_transfers (cc s (ft_ClientConn (sv_fts s f))) (ft_Type (sv_fts s f))) i = Some f"
    and "map_of (cl_transfers (cc s r) ty) i = Some f \<Longrightarrow> r < sv_next s \<Longrightarrow>
      f < sv_next_ft s \<and> ft_RefNum (sv_fts s f) = i \<and> ft_Type (sv_fts s f) = ty \<and> ft_ClientConn (sv_fts s f) = r"
    and "map_of (sv_chats s) j = Some c \<Longrightarrow> map_of (ch_ClientConn c) k = Some q \<Longrightarrow> q < sv_next s \<and> cl_ID (cc s q) = k"
  using assms unfolding refs_ok_def by blast+

text \<open>A change of one chat.\<close>

lemma refs_chat_upd:
  assumes "refs_ok s" "\<And>k r. map_of (ch_ClientConn c) k = Some r \<Longrightarrow> r < sv_next s \<and> cl_ID (cc s r) = k"
  shows "refs_ok (s\<lparr>sv_chats := mput i c (sv_chats s)\<rparr>)"
proof (rule refs_okI, goal_cases)
  case (3 j d k r)
  then show ?case using assms(2) refs_okD(3)[OF assms(1), of j d k r] by (simp split: if_splits)
next
  case (1 j f)
  then show ?case using refs_okD(1)[OF assms(1), of j f] by simp
next
  case (2 r ty j f)
  then show ?case using refs_okD(2)[OF assms(1), of r ty j f] by simp
qed

lemma refs_chat_member:
  assumes "refs_ok s" "r < sv_next s"
  shows "ChatMgr_Join i r s = Some s' \<Longrightarrow> refs_ok s'" "refs_ok (snd (ChatMgr_New r s))"
proof -
  show "ChatMgr_Join i r s = Some s' \<Longrightarrow> refs_ok s'"
  proof -
    assume "ChatMgr_Join i r s = Some s'"
    then obtain c where c: "map_of (sv_chats s) i = Some c"
      "s' = s\<lparr>sv_chats := mput i (c\<lparr>ch_ClientConn := mput (cl_ID (cc s r)) r (ch_ClientConn c)\<rparr>) (sv_chats s)\<rparr>"
      by (auto simp: ChatMgr_Join_def split: option.splits)
    show ?thesis unfolding c(2)
    proof (rule refs_chat_upd[OF assms(1)])
      fix k q assume "map_of (ch_ClientConn (c\<lparr>ch_ClientConn := mput (cl_ID (cc s r)) r (ch_ClientConn c)\<rparr>)) k = Some q"
      then show "q < sv_next s \<and> cl_ID (cc s q) = k" using assms(2) refs_okD(3)[OF assms(1) c(1), of k q] by (simp split: if_splits)
    qed
  qed
  let ?c = "\<lparr>ch_Subject = [], ch_ClientConn = mput (cl_ID (cc s r)) r []\<rparr>"
  have "refs_ok (skip_rand 1 s)" using refs_view[OF _ assms(1)] by (simp add: rviews)
  moreover have "q < sv_next (skip_rand 1 s) \<and> cl_ID (cc (skip_rand 1 s) q) = k" if "map_of (ch_ClientConn ?c) k = Some q" for k q
    using assms(2) that by (simp add: skip_rand_def split: if_splits)
  ultimately have "refs_ok ((skip_rand 1 s)\<lparr>sv_chats := mput (sv_rand s 0) ?c (sv_chats (skip_rand 1 s))\<rparr>)"
    by (rule refs_chat_upd)
  then show "refs_ok (snd (ChatMgr_New r s))" by (simp add: ChatMgr_New_def Let_def skip_rand_def)
qed

lemma refs_chat_less:
  assumes "refs_ok s"
  shows "refs_ok (ChatMgr_Leave i k s)" "ChatMgr_SetSubject i b s = Some s' \<Longrightarrow> refs_ok s'"
proof -
  have c: "q < sv_next s \<and> cl_ID (cc s q) = j" if "map_of (sv_chats s) i = Some c" "map_of (ch_ClientConn c) j = Some q" for c j q
    using refs_okD(3)[OF assms that] .
  show "refs_ok (ChatMgr_Leave i k s)"
    using assms c by (auto simp: ChatMgr_Leave_def intro!: refs_chat_upd split: option.split if_split_asm)
  show "ChatMgr_SetSubject i b s = Some s' \<Longrightarrow> refs_ok s'"
    using assms c by (auto simp: ChatMgr_SetSubject_def intro!: refs_chat_upd split: option.split_asm)
qed

text \<open>The state after a new transfer, and after the removal of one.\<close>

lemma NewFileTransfer_state:
  fixes s r ty fr fn fp sz
  defines "s' \<equiv> snd (NewFileTransfer r ty fr fn fp sz s)" and "f \<equiv> sv_next_ft s" and "i \<equiv> sv_rand s 0"
  shows "sv_fileTransfers s' = mput i f (sv_fileTransfers s)" "sv_next s' = sv_next s" "sv_next_ft s' = Suc f"
    "sv_chats s' = sv_chats s" "cl_ID (cc s' q) = cl_ID (cc s q)"
    "g \<noteq> f \<Longrightarrow> sv_fts s' g = sv_fts s g"
    "ft_RefNum (sv_fts s' f) = i" "ft_Type (sv_fts s' f) = ty" "ft_ClientConn (sv_fts s' f) = r"
    "cl_transfers (cc s' q) ty' = (if q = r \<and> ty' = ty then mput i f (cl_transfers (cc s q) ty') else cl_transfers (cc s q) ty')"
  by (simp_all add: s'_def f_def i_def NewFileTransfer_def FileTransferMgr_Add_def Let_def upd_ft_def upd_conn_def cftm_Add_def skip_rand_def del: not_None_eq)

lemma refs_NewFileTransfer:
  assumes "refs_ok s" "r < sv_next s"
  shows "refs_ok (snd (NewFileTransfer r ty fr fn fp sz s))"
proof (rule refs_okI, goal_cases)
  case (1 i f)
  note st = NewFileTransfer_state[where r = r and ty = ty and fr = fr and fn = fn and fp = fp and sz = sz and s = s]
  show ?case
  proof (cases "i = sv_rand s 0")
    case True
    then have "f = sv_next_ft s" using 1 by (simp add: st)
    then show ?thesis using True assms(2) by (simp add: st)
  next
    case False
    then have o: "map_of (sv_fileTransfers s) i = Some f" using 1 by (simp add: st)
    note r = refs_okD(1)[OF assms(1) o]
    then have "f \<noteq> sv_next_ft s" by simp
    then show ?thesis using False r by (simp add: st) metis
  qed
next
  case (2 q ty' i f)
  note st = NewFileTransfer_state[where r = r and ty = ty and fr = fr and fn = fn and fp = fp and sz = sz and s = s]
  show ?case
  proof (cases "q = r \<and> ty' = ty \<and> i = sv_rand s 0")
    case True
    then have "f = sv_next_ft s" using 2 by (simp add: st)
    then show ?thesis using True by (simp add: st)
  next
    case False
    then have o: "map_of (cl_transfers (cc s q) ty') i = Some f" "q < sv_next s" using 2 by (auto simp: st split: if_splits)
    note r = refs_okD(2)[OF assms(1) o]
    then have "f \<noteq> sv_next_ft s" by simp
    then show ?thesis using r by (simp add: st)
  qed
next
  case (3 i c k q)
  then show ?case using refs_okD(3)[OF assms(1)] by (simp add: NewFileTransfer_state)
qed

lemma refs_FileTransferMgr_Delete:
  assumes "refs_ok s" "FileTransferMgr_Delete i s = Some s'"
  shows "refs_ok s'"
proof -
  obtain f where f: "map_of (sv_fileTransfers s) i = Some f" using assms(2) by (auto simp: FileTransferMgr_Delete_def split: option.splits)
  let ?r = "ft_ClientConn (sv_fts s f)" and ?ty = "ft_Type (sv_fts s f)"
  have s': "sv_fileTransfers s' = mdel i (sv_fileTransfers s)" "sv_next s' = sv_next s" "sv_next_ft s' = sv_next_ft s"
    "sv_chats s' = sv_chats s" "sv_fts s' = sv_fts s" "\<And>q. cl_ID (cc s' q) = cl_ID (cc s q)"
    "\<And>q ty. cl_transfers (cc s' q) ty = (if q = ?r \<and> ty = ?ty then mdel i (cl_transfers (cc s q) ty) else cl_transfers (cc s q) ty)"
    using assms(2) f by (auto simp: FileTransferMgr_Delete_def Let_def upd_conn_def cftm_Delete_def)
  show ?thesis
  proof (rule refs_okI, goal_cases)
    case (1 j g)
    then have "j \<noteq> i" "map_of (sv_fileTransfers s) j = Some g" by (auto simp: s' split: if_splits)
    then show ?case using refs_okD(1)[OF assms(1), of j g] by (simp add: s') metis
  next
    case (2 q ty j g)
    then have "map_of (cl_transfers (cc s q) ty) j = Some g" "q < sv_next s" by (auto simp: s' split: if_splits)
    from refs_okD(2)[OF assms(1) this] show ?case by (simp add: s')
  next
    case (3 j c k q)
    then show ?case using refs_okD(3)[OF assms(1)] by (simp add: s')
  qed
qed

section \<open>Handlers\<close>

lemma effect_refs:
  assumes "effect x r s0 s" "server_inv s0" "r < sv_next s0" "refs_ok s0"
  shows "refs_ok s"
  using assms(1)
proof (induction rule: effect_in.induct)
  case (e_conn s c f)
  then show ?case by (auto intro!: refs_view[OF rview_upd_conn] simp: same_conn_def)
next
  case (e_access s c a access)
  then show ?case by (auto intro!: refs_view[OF rview_upd_conn])
next
  case (e_chat_new s)
  then show ?case using effect_inv[OF e_chat_new.hyps assms(2,3)] assms(3) good_next[of s0 s] by (simp add: refs_chat_member)
next
  case (e_chat_join i s s')
  then show ?case using effect_inv[OF e_chat_join.hyps(2) assms(2,3)] assms(3) refs_chat_member good_next by metis
next
  case (e_chat_subject i b s s')
  then show ?case using refs_chat_less by blast
next
  case (e_transfer s ty fr fn fp sz)
  then show ?case using effect_inv[OF _ assms(2,3)] assms(3) good_next[of s0 s] by (simp add: refs_NewFileTransfer)
next
  case (e_ft s g f)
  then show ?case by (auto intro!: refs_view[OF rview_upd_ft])
next
  case (e_ban ip u s s')
  then show ?case using refs_view rview_ban_address by blast
next
  case (e_chat_leave s i)
  then show ?case by (simp add: refs_chat_less)
next
  case e_refl
  show ?case by (rule assms)
qed (erule refs_view[rotated]; simp add: rviews)+

lemma rview_handled:
  "(case hs (tr_Type t) of None \<Rightarrow> Done s [] | Some h \<Rightarrow> h r t s) = Done s1 ts \<Longrightarrow>
   \<exists>s'. handleTransaction hs r t s = Done s' [] \<and> ref_view s' = ref_view s1"
  unfolding handleTransaction_def by (simp add: Let_def rviews rview_upd_conn)

lemma handled_refs:
  assumes "server_inv s" "r < sv_next s" "refs_ok s"
  shows "refs_ok (after (handleTransaction (RegisterHandlers x) r t s))"
proof -
  let ?z = "case RegisterHandlers x (tr_Type t) of None \<Rightarrow> Done s [] | Some h \<Rightarrow> h r t s"
  have z: "refs_ok (after ?z)"
    using effect_refs[OF effect_handler assms] assms by (auto split: option.split)
  show ?thesis
  proof (cases ?z)
    case (Done s1 ts)
    then show ?thesis using z rview_handled[where hs = "RegisterHandlers x" and r = r and t = t and s = s, OF Done] refs_view by auto
  qed (use z in \<open>simp add: handleTransaction_def\<close>)
qed

section \<open>The other steps\<close>

lemma rview_idle_check [rviews]: "ref_view (idle_check r s) = ref_view s"
  by (simp add: idle_check_def Let_def rviews rview_upd_conn)

lemma rview_keepalive [rviews]: "ref_view (keepalive_tick s) = ref_view s"
proof -
  have "ref_view (fold idle_check rs s) = ref_view s" for rs
    by (induction rs arbitrary: s) (simp_all add: rviews)
  then show ?thesis by (simp add: keepalive_tick_def)
qed

lemma rview_reload [rviews]: "ref_view (reloadFunc x lo dir s) = ref_view s"
  by (simp add: reloadFunc_def Let_def reload_with_def reload_bans_def reload_banner_def rviews split_beta split: option.split sum.split)

lemma rview_kick_banned [rviews]: "ref_view (snd (kick_banned req rs s)) = ref_view s"
  by (induction req rs s rule: kick_banned.induct) (simp_all add: rviews)

lemma rview_ban_part:
  assumes "\<And>s. ref_view (snd (next s)) = ref_view s" shows "ref_view (snd (ban_part b f msg next s)) = ref_view s"
  using assms by (auto simp: ban_part_def Let_def rviews split: option.split outcome.split)

lemma rview_serve_api [rviews]: "ref_view (snd (serve_api x a url header body s)) = ref_view s"
proof -
  have "ref_view (snd (h body s)) = ref_view s" if "h \<in> snd ` set (api_routes x a)" for h
    using that
    by (auto simp: api_routes_def OnlineHandler_def BanHandler_def UnbanHandler_def ListBannedIPsHandler_def
        ListBannedUsernamesHandler_def ListBannedNicknamesHandler_def ReloadHandler_def ShutdownHandler_def Shutdown_def
        RenderStats_def Let_def rviews intro!: rview_ban_part split: option.split)
  then have "ref_view (snd (authMiddleware k header h body s)) = ref_view s" if "map_of (api_routes x a) url = Some h" for h k
    using that map_of_SomeD by (fastforce simp: authMiddleware_def)
  then show ?thesis by (auto simp: serve_api_def split: option.split)
qed

lemma rview_run_transfer: "run_transfer x f cs room s = (res, out, s') \<Longrightarrow> ref_view s' = ref_view s"
  by (auto simp: run_transfer_def Let_def begin_transfer_def finish_transfer_def rviews rview_upd_ft
      split: outcome.splits prod.splits option.splits if_splits)

lemma refs_handleFileTransfer: "refs_ok s \<Longrightarrow> refs_ok (snd (snd (handleFileTransfer x cs room s)))"
  by (auto simp: handleFileTransfer_def split: option.split outcome.split prod.split
      dest!: rview_run_transfer intro: refs_FileTransferMgr_Delete refs_view)

section \<open>Connections\<close>

lemma refs_NewClientConn:
  assumes "refs_ok s" "NewClientConn a s = (r, s1)" shows "refs_ok s1"
proof -
  have s1: "sv_fileTransfers s1 = sv_fileTransfers s" "sv_next s1 = Suc (sv_next s)" "sv_next_ft s1 = sv_next_ft s"
    "sv_chats s1 = sv_chats s" "sv_fts s1 = sv_fts s" "\<And>q. q \<noteq> sv_next s \<Longrightarrow> cc s1 q = cc s q"
    "\<And>ty. cl_transfers (cc s1 (sv_next s)) ty = []"
    using assms(2) by (auto simp: NewClientConn_def ClientMgr_Add_def Let_def upd_conn_def)
  show ?thesis
  proof (rule refs_okI, goal_cases)
    case (1 i f)
    from refs_okD(1)[OF assms(1) this[unfolded s1]] show ?case by (simp add: s1)
  next
    case (2 q ty i f)
    then have q: "q < sv_next s" using s1(7)[of ty] by (cases "q = sv_next s") (auto simp: s1(2))
    then show ?case using refs_okD(2)[OF assms(1), of q ty i f] 2 s1(6)[of q] by (simp add: s1)
  next
    case (3 i c k q)
    from refs_okD(3)[OF assms(1) this[unfolded s1]] show ?case using s1(6)[of q] by (simp add: s1)
  qed
qed

lemma rview_set_up_client [rviews]: "ref_view (set_up_client t acc r s) = ref_view s"
  by (simp add: set_up_client_def Let_def rview_upd_conn split: option.split)

lemma rview_greet [rviews]: "ref_view (greet x t login ip acc r s) = ref_view s"
  by (simp add: greet_def Let_def count_login_def announce_def show_agreement_def split_beta rviews)

fun result_refs :: "login_result \<Rightarrow> bool" where
  "result_refs (Refused s b) \<longleftrightarrow> refs_ok s"
| "result_refs (Failed s) \<longleftrightarrow> refs_ok s"
| "result_refs (Closed s r b) \<longleftrightarrow> refs_ok s"
| "result_refs (LoggedIn s r) \<longleftrightarrow> refs_ok s"

lemma refuse_refs: "refs_ok s \<Longrightarrow> result_refs (refuse m s)"
  by (simp add: refuse_def sendBanMessage_def split_beta refs_view[of _ s] rviews)

lemma login_client_refs: "refs_ok s \<Longrightarrow> result_refs (login_client x t login ip a s)"
proof -
  assume s: "refs_ok s"
  obtain r s1 where n: "NewClientConn a s = (r, s1)" by (cases "NewClientConn a s")
  note s1 = refs_NewClientConn[OF s n]
  show ?thesis
    by (auto simp: login_client_def n Let_def split: option.split intro!: refs_view[OF _ s1] simp: rviews rview_upd_conn)
qed

lemma login_step_refs: "refs_ok s \<Longrightarrow> result_refs (login_step x a buf s)"
  by (auto simp: login_step_def Let_def split: outcome.split option.split ban_state.split
      intro!: refuse_refs login_client_refs intro: refs_view rview_ban_address)

lemma rview_end_connection [rviews]: "ref_view (end_connection login ip r s) = ref_view s"
  by (simp add: end_connection_def Let_def rviews)

lemma open_session_refs: "refs_ok (wo_server w) \<Longrightarrow> refs_ok (wo_server (open_session x a buf w))"
  using login_step_refs[of "wo_server w" x a buf]
  by (auto simp: open_session_def Let_def refs_view rviews split: login_result.splits)

lemma close_session_refs: "refs_ok (wo_server w) \<Longrightarrow> refs_ok (wo_server (close_session se w))"
  by (erule refs_view[rotated]) (simp add: close_session_def count_logout_def rviews)

lemma receive_refs:
  assumes "world_inv w" "se \<in> set (wo_live w)" "refs_ok (wo_server w)" shows "refs_ok (wo_server (receive x se tok w))"
proof -
  have c: "refs_ok (after (handleTransaction (RegisterHandlers x) (se_conn se) t (wo_server w)))" for t
    using assms by (intro handled_refs) (auto simp: world_inv_def)
  show ?thesis
  proof (cases "Transaction_Write zero_tran tok")
    case (Ok p)
    show ?thesis
    proof (cases "handleTransaction (RegisterHandlers x) (se_conn se) (snd p) (wo_server w)")
      case (Done s ts)
      then show ?thesis using c[of "snd p"] Ok by (simp add: receive_def split_beta)
    next
      case (Crash s)
      then show ?thesis using c[of "snd p"] Ok close_session_refs[of "w\<lparr>wo_server := s\<rparr>" se] by (simp add: receive_def split_beta)
    qed
  qed (use close_session_refs[OF assms(3)] in \<open>simp_all add: receive_def\<close>)
qed

lemma step_refs: "world_step x w w' \<Longrightarrow> world_inv w \<Longrightarrow> refs_ok (wo_server w) \<Longrightarrow> refs_ok (wo_server w')"
proof (induction rule: world_step.induct)
  case (Later w)
  have "ref_view (run_later (wo_server w)) = ref_view (wo_server w)" by (simp add: run_later_def rviews split: list.split)
  then show ?case using Later refs_view by (simp add: on_server_def)
next
  case (Outbox w)
  have "ref_view (snd (processOutbox (wo_server w))) = ref_view (wo_server w)"
    by (simp add: processOutbox_def rviews split: list.split)
  then show ?case using Outbox refs_view by (simp add: on_server_def)
next
  case (Idle w)
  then show ?case using refs_view[OF rview_keepalive] by (simp add: on_server_def)
next
  case (Api w a url key body)
  then show ?case using refs_view[OF rview_serve_api] by (simp add: on_server_def)
qed (simp_all add: open_session_refs close_session_refs receive_refs on_server_def refs_handleFileTransfer)

text \<open>C14: the references of a running server are never dangling.  In every reachable state a pending
  transfer is an existing object under its own reference number, belongs to an accepted connection, and
  that connection lists it under its type; whatever a connection lists is its own; and every member of a
  private chat is an accepted connection filed under its client ID.\<close>

theorem references_valid:
  assumes "reachable x w"
  shows "(\<forall>i f. FileTransferMgr_Get i (wo_server w) = Some f \<longrightarrow>
      f < sv_next_ft (wo_server w) \<and> ft_RefNum (sv_fts (wo_server w) f) = i \<and>
      ft_ClientConn (sv_fts (wo_server w) f) < sv_next (wo_server w) \<and>
      map_of (cl_transfers (cc (wo_server w) (ft_ClientConn (sv_fts (wo_server w) f))) (ft_Type (sv_fts (wo_server w) f))) i = Some f) \<and>
    (\<forall>r ty i f. r < sv_next (wo_server w) \<longrightarrow> map_of (cl_transfers (cc (wo_server w) r) ty) i = Some f \<longrightarrow>
      f < sv_next_ft (wo_server w) \<and> ft_RefNum (sv_fts (wo_server w) f) = i \<and> ft_Type (sv_fts (wo_server w) f) = ty \<and>
      ft_ClientConn (sv_fts (wo_server w) f) = r) \<and>
    (\<forall>i c k r. map_of (sv_chats (wo_server w)) i = Some c \<longrightarrow> map_of (ch_ClientConn c) k = Some r \<longrightarrow>
      r < sv_next (wo_server w) \<and> cl_ID (cc (wo_server w) r) = k)"
proof -
  obtain w0 where w0: "started w0" "(world_step x)\<^sup>*\<^sup>* w0 w" using assms by (auto simp: reachable_def)
  have "refs_ok (wo_server w)"
    using w0(2)
  proof (induction rule: rtranclp_induct)
    case base
    then show ?case using w0(1) by (simp add: refs_ok_def started_def)
  next
    case (step w1 w2)
    have "reachable x w1" using w0(1) step.hyps(1) by (auto simp: reachable_def)
    then show ?case using step_refs[OF step.hyps(2) reachable_inv step.IH] by simp
  qed
  then show ?thesis by (simp add: refs_ok_def FileTransferMgr_Get_def)
qed

text \<open>The guest asks for the banner and has one transfer then.\<close>

definition banner_request :: bytes where
  "banner_request = Transaction_bytes (NewTransaction 0 TranDownloadBanner 0 [])"

definition demo_banner :: world where
  "demo_banner = receive demo_externals (hd (wo_live demo_logged_in)) banner_request demo_logged_in"

lemma demo_banner_transfer:
  "FileTransferMgr_Get (sv_rand (wo_server demo_logged_in) 0) (wo_server demo_banner) = Some (sv_next_ft (wo_server demo_logged_in))"
proof -
  have "(case Transaction_Write zero_tran banner_request of Ok (n, t) \<Rightarrow> tr_Type t = TranDownloadBanner | _ \<Rightarrow> False)" by code_simp
  then obtain n t where t: "Transaction_Write zero_tran banner_request = Ok (n, t)" "tr_Type t = TranDownloadBanner"
    by (auto split: outcome.splits)
  have h: "RegisterHandlers demo_externals (tr_Type t) = Some HandleDownloadBanner" by (simp add: t(2) RegisterHandlers_def)
  let ?s = "wo_server demo_logged_in" and ?r = "se_conn (hd (wo_live demo_logged_in))"
  obtain s1 ts where d: "HandleDownloadBanner ?r t ?s = Done s1 ts"
    "sv_fileTransfers s1 = mput (sv_rand ?s 0) (sv_next_ft ?s) (sv_fileTransfers ?s)"
    by (simp add: HandleDownloadBanner_def split_beta NewFileTransfer_state)
  obtain s' where "handleTransaction (RegisterHandlers demo_externals) ?r t ?s = Done s' []" "ref_view s' = ref_view s1"
    using rview_handled[where hs = "RegisterHandlers demo_externals" and r = ?r and t = t and s = ?s] h d(1) by auto
  moreover from this have "sv_fileTransfers s' = sv_fileTransfers s1" by (simp add: ref_view_def)
  ultimately show ?thesis using d by (simp add: demo_banner_def receive_def t(1) FileTransferMgr_Get_def)
qed

theorem references_valid_witness:
  "\<exists>i f. FileTransferMgr_Get i (wo_server demo_banner) = Some f \<and>
   map_of (cl_transfers (cc (wo_server demo_banner) (ft_ClientConn (sv_fts (wo_server demo_banner) f)))
     (ft_Type (sv_fts (wo_server demo_banner) f))) i = Some f"
proof -
  have "wo_live demo_logged_in \<noteq> []" using demo_facts(2) by auto
  then have "world_step demo_externals demo_logged_in demo_banner"
    unfolding demo_banner_def by (intro Receive) simp
  then have "reachable demo_externals demo_banner"
    using demo_reachable unfolding reachable_def by (meson rtranclp.rtrancl_into_rtrancl)
  from references_valid[OF this] show ?thesis using demo_banner_transfer by blast
qed

end
