(* ===== verification/HL_Admin.thy ===== *)
theory HL_Admin
  imports HL_Small_Server
begin

text \<open>
  What administrators can rely on: which state each request to the HTTP interface can change, that a
  ban it reports as done is in force, what a reload forgets, and that a start ends in a state the
  guarantees about reachable states apply to.
\<close>

section \<open>What a request changes\<close>

text \<open>The parts of the server by what changes them.\<close>

definition identity :: "server \<Rightarrow> YAMLAccountManager \<times> filesystem \<times> (nat \<Rightarrow> account option) \<times> Config" where
  "identity s = (sv_accounts s, sv_files s, (\<lambda>c. cl_Account (cc s c)), sv_config s)"

definition contents :: "server \<Rightarrow> ThreadedNewsYAML \<times> FlatNews \<times> Agreement \<times> bytes" where
  "contents s = (sv_news s, sv_board s, sv_agreement s, sv_Banner s)"

definition online_view :: "server \<Rightarrow> (16 word, nat) gmap \<times> (nat \<Rightarrow> ClientConn)" where
  "online_view s = (sv_clients s, sv_conns s)"

definition ban_view :: "server \<Rightarrow> BanFile option \<times> disk" where
  "ban_view s = (sv_bans s, sv_disk s)"

lemmas admin_views = identity_def contents_def online_view_def ban_view_def

lemma admin_fields [simp]:
  "identity (s\<lparr>sv_disk := d\<rparr>) = identity s" "online_view (s\<lparr>sv_disk := d\<rparr>) = online_view s"
  "contents (s\<lparr>sv_disk := d\<rparr>) = contents s" "contents (s\<lparr>sv_bans := b\<rparr>) = contents s"
  "identity (s\<lparr>sv_bans := b\<rparr>) = identity s" "online_view (s\<lparr>sv_bans := b\<rparr>) = online_view s"
  "identity (s\<lparr>sv_board := c\<rparr>) = identity s" "online_view (s\<lparr>sv_board := c\<rparr>) = online_view s"
  "identity (s\<lparr>sv_news := e\<rparr>) = identity s" "online_view (s\<lparr>sv_news := e\<rparr>) = online_view s"
  "identity (s\<lparr>sv_agreement := f\<rparr>) = identity s" "online_view (s\<lparr>sv_agreement := f\<rparr>) = online_view s"
  "identity (s\<lparr>sv_Banner := g\<rparr>) = identity s" "online_view (s\<lparr>sv_Banner := g\<rparr>) = online_view s"
  by (simp_all add: admin_views)

lemma admin_Disconnect [simp]:
  "identity (Disconnect r s) = identity s" "contents (Disconnect r s) = contents s"
  by (auto simp: admin_views Disconnect_def ClientMgr_Delete_def Let_def new_tran_def upd_conn_def send_def skip_rand_def)

lemma admin_kick [simp]:
  "identity (snd (kick_banned req rs s)) = identity s" "contents (snd (kick_banned req rs s)) = contents s"
  by (induction req rs s rule: kick_banned.induct) simp_all

lemma admin_ban_part:
  "(\<And>s. identity (snd (next s)) = identity s) \<Longrightarrow> identity (snd (ban_part b f msg next s)) = identity s"
  "(\<And>s. contents (snd (next s)) = contents s) \<Longrightarrow> contents (snd (ban_part b f msg next s)) = contents s"
  "(\<And>s. online_view (snd (next s)) = online_view s) \<Longrightarrow> online_view (snd (ban_part b f msg next s)) = online_view s"
  by (auto simp: ban_part_def Let_def split: option.split outcome.split)

lemma admin_handlers:
  "identity (snd (BanHandler x a body s)) = identity s" "contents (snd (BanHandler x a body s)) = contents s"
  "identity (snd (UnbanHandler x a body s)) = identity s" "contents (snd (UnbanHandler x a body s)) = contents s"
  "online_view (snd (UnbanHandler x a body s)) = online_view s"
  by (auto simp: BanHandler_def UnbanHandler_def intro!: admin_ban_part split: option.split)

lemma admin_reload: "identity (reloadFunc x lo dir s) = identity s" "online_view (reloadFunc x lo dir s) = online_view s"
  by (simp_all add: reloadFunc_def Let_def reload_with_def reload_bans_def reload_banner_def split_beta split: option.split sum.split)

lemma read_only_handlers [simp]:
  "snd (OnlineHandler a body s) = s" "snd (ListBannedIPsHandler a body s) = s" "snd (ListBannedUsernamesHandler a body s) = s"
  "snd (ListBannedNicknamesHandler a body s) = s" "snd (RenderStats a body s) = s"
  by (simp_all add: OnlineHandler_def ListBannedIPsHandler_def ListBannedUsernamesHandler_def ListBannedNicknamesHandler_def
      RenderStats_def Let_def split: option.split)

lemma admin_Shutdown:
  "identity (Shutdown m s) = identity s" "contents (Shutdown m s) = contents s"
  "online_view (Shutdown m s) = online_view s" "ban_view (Shutdown m s) = ban_view s"
proof -
  have "sv_accounts (snd (fan_out ty fs rs s)) = sv_accounts s \<and> sv_files (snd (fan_out ty fs rs s)) = sv_files s \<and>
      sv_conns (snd (fan_out ty fs rs s)) = sv_conns s \<and> sv_config (snd (fan_out ty fs rs s)) = sv_config s \<and>
      contents (snd (fan_out ty fs rs s)) = contents s \<and> online_view (snd (fan_out ty fs rs s)) = online_view s \<and>
      ban_view (snd (fan_out ty fs rs s)) = ban_view s" for ty fs rs
    by (induction ty fs rs s rule: fan_out.induct) (simp_all add: split_beta skip_rand_def admin_views)
  then show "identity (Shutdown m s) = identity s" "contents (Shutdown m s) = contents s"
    "online_view (Shutdown m s) = online_view s" "ban_view (Shutdown m s) = ban_view s"
    by (simp_all add: Shutdown_def SendAll_def split_beta send_def admin_views)
qed

lemma api_cases:
  assumes "map_of (api_routes x a) url = Some h"
  obtains "url = ''/api/v1/ban''" "h = BanHandler x a" | "url = ''/api/v1/unban''" "h = UnbanHandler x a"
    | "url = ''/api/v1/reload''" "h = ReloadHandler x a" | "h = ShutdownHandler"
    | "\<And>body s. snd (h body s) = s"
  using map_of_SomeD[OF assms] unfolding api_routes_def
  by (simp only: list.set insert_iff empty_iff simp_thms prod.inject) (elim disjE conjE; simp only: read_only_handlers)

text \<open>C28: what the HTTP interface can do.  Without the key it does nothing at all and answers 401, or 404 to an
  unknown path.  With it, no request changes an account, a shared file, the rights of a client or the
  configuration; bans and the files on disk change by the requests to ban, to unban and to reload alone;
  nobody is disconnected but by a ban; and news, board, agreement and banner change by a reload alone.\<close>

theorem api_rights:
  fixes x a url key body s
  defines "reply \<equiv> fst (serve_api x a url key body s)" and "s' \<equiv> snd (serve_api x a url key body s)"
  shows "(ap_apiKey a \<noteq> [] \<and> key \<noteq> ap_apiKey a \<longrightarrow>
      s' = s \<and> (\<exists>b. reply = Reply (if url \<in> fst ` set (api_routes x a) then 401 else 404) b)) \<and>
    identity s' = identity s \<and>
    (url \<notin> {''/api/v1/ban'', ''/api/v1/unban'', ''/api/v1/reload''} \<longrightarrow> ban_view s' = ban_view s) \<and>
    (url \<noteq> ''/api/v1/ban'' \<longrightarrow> online_view s' = online_view s) \<and>
    (url \<noteq> ''/api/v1/reload'' \<longrightarrow> contents s' = contents s)"
proof (cases "map_of (api_routes x a) url")
  case None
  then have "url \<notin> fst ` set (api_routes x a)" by (simp add: map_of_eq_None_iff)
  moreover have "serve_api x a url key body s = (http_Error ''404 page not found'' 404, s)" by (simp add: serve_api_def None)
  ultimately show ?thesis by (simp add: reply_def s'_def http_Error_def)
next
  case (Some h)
  have m: "url \<in> fst ` set (api_routes x a)" using map_of_SomeD[OF Some] by force
  have e: "serve_api x a url key body s = authMiddleware (ap_apiKey a) key h body s" by (simp add: serve_api_def Some)
  have h: "identity (snd (h body s)) = identity s"
    "url \<notin> {''/api/v1/ban'', ''/api/v1/unban'', ''/api/v1/reload''} \<Longrightarrow> ban_view (snd (h body s)) = ban_view s"
    "url \<noteq> ''/api/v1/ban'' \<Longrightarrow> online_view (snd (h body s)) = online_view s"
    "url \<noteq> ''/api/v1/reload'' \<Longrightarrow> contents (snd (h body s)) = contents s"
    by (rule api_cases[OF Some]; simp add: ReloadHandler_def ShutdownHandler_def admin_handlers admin_reload admin_Shutdown)+
  then show ?thesis using m by (auto simp: reply_def s'_def e authMiddleware_def)
qed

text \<open>An interface with the key 1, over a small JSON library: a request bans the address it holds.\<close>

definition demo_api :: api_env where
  "demo_api = \<lparr>ap_request = \<lambda>b. Some \<lparr>br_Username = [], br_Nickname = [], br_IP = b\<rparr>, ap_users = \<lambda>us. [], ap_names = concat,
     ap_stats = \<lambda>st. None, ap_loaders = \<lparr>lo_config = \<lambda>b. None, lo_validate = \<lambda>c. True, lo_account = \<lambda>b. None, lo_news = \<lambda>b. (None, None)\<rparr>,
     ap_configDir = [47], ap_apiKey = [1]\<rparr>"

theorem api_rights_witness:
  "snd (serve_api demo_externals demo_api ''/api/v1/reload'' [] [] (demo_server 0)) = demo_server 0"
  using api_rights[of demo_api "[]" demo_externals "''/api/v1/reload''" "[]" "demo_server 0"] by (simp add: demo_api_def)

section \<open>Bans through the interface\<close>

definition banned_by :: "BanRequest \<Rightarrow> server \<Rightarrow> nat \<Rightarrow> bool" where
  "banned_by req s r \<longleftrightarrow>
     br_Username req \<noteq> [] \<and> map_option ac_Login (cl_Account (cc s r)) = Some (br_Username req) \<or>
     br_Nickname req \<noteq> [] \<and> cl_UserName (cc s r) = br_Nickname req \<or> br_IP req \<noteq> [] \<and> conn_IP r s = br_IP req"

text \<open>The loop over the clients: who is banned is registered no more.\<close>

lemma Disconnect_removes:
  assumes "server_inv s" "r < sv_next s"
  shows "set (sv_clients (Disconnect r s)) \<subseteq> set (sv_clients s)" "r \<notin> snd ` set (sv_clients (Disconnect r s))"
    "sv_bans (Disconnect r s) = sv_bans s" "banned_by req (Disconnect r s) = banned_by req s"
    "cl_Account (cc (Disconnect r s) q) = cl_Account (cc s q)"
proof -
  have c: "sv_clients (Disconnect r s) = mdel (cl_ID (cc s r)) (sv_clients s)"
    by (simp add: Disconnect_def ClientMgr_Delete_def Let_def new_tran_def upd_conn_def send_def skip_rand_def)
  have "k = cl_ID (cc s r)" if "(k, r) \<in> set (sv_clients s)" for k
    using assms that by (auto simp: server_inv_def wf_map_map_of)
  then show "set (sv_clients (Disconnect r s)) \<subseteq> set (sv_clients s)" "r \<notin> snd ` set (sv_clients (Disconnect r s))"
    by (auto simp: c set_mdel)
  show "sv_bans (Disconnect r s) = sv_bans s" "banned_by req (Disconnect r s) = banned_by req s"
    "cl_Account (cc (Disconnect r s) q) = cl_Account (cc s q)"
    by (auto simp: Disconnect_def ClientMgr_Delete_def Let_def new_tran_def upd_conn_def send_def skip_rand_def banned_by_def conn_IP_def fun_eq_iff)
qed

lemma kick_banned_removes:
  assumes "kick_banned req rs s = (Reply c b, s')" "server_inv s" "set rs \<subseteq> {..< sv_next s}"
  shows "set (sv_clients s') \<subseteq> set (sv_clients s) \<and> (\<forall>r \<in> set rs. banned_by req s r \<longrightarrow> r \<notin> snd ` set (sv_clients s')) \<and>
    sv_bans s' = sv_bans s \<and> banned_by req s' = banned_by req s \<and> c = 200"
  using assms
proof (induction req rs s rule: kick_banned.induct)
  case (2 req r rs s)
  have d: "server_inv (Disconnect r s)" "sv_next (Disconnect r s) = sv_next s"
    using Disconnect_inv[OF "2.prems"(2), of r] "2.prems"(3) by (auto simp: keeps_def)
  have r: "r < sv_next s" using "2.prems"(3) by simp
  note dr = Disconnect_removes[OF "2.prems"(2) r]
  have a: "\<not> (br_Username req \<noteq> [] \<and> cl_Account (cc s r) = None)" using "2.prems"(1) by (auto split: if_splits)
  show ?case
  proof (cases "banned_by req s r")
    case True
    have k: "kick_banned req rs (Disconnect r s) = (Reply c b, s')"
      using "2.prems"(1) unfolding kick_banned.simps if_not_P[OF a] if_P[OF True[unfolded banned_by_def]] .
    from 2(1)[OF a True[unfolded banned_by_def] k d(1)] "2.prems"(3) d(2) dr(1-4) show ?thesis by auto
  next
    case False
    have k: "kick_banned req rs s = (Reply c b, s')"
      using "2.prems"(1) unfolding kick_banned.simps if_not_P[OF a] if_not_P[OF False[unfolded banned_by_def]] .
    from 2(2)[OF a False[unfolded banned_by_def] k "2.prems"(2)] "2.prems"(3) False show ?thesis by auto
  qed
qed simp

text \<open>The change of the list itself, part by part.\<close>

definition bans_asked :: "BanRequest \<Rightarrow> BanFile \<Rightarrow> bool" where
  "bans_asked req bf \<longleftrightarrow>
     (br_Username req \<noteq> [] \<longrightarrow> bf_IsUsernameBanned (br_Username req) bf) \<and>
     (br_Nickname req \<noteq> [] \<longrightarrow> bf_IsNicknameBanned (br_Nickname req) bf) \<and>
     (br_IP req \<noteq> [] \<longrightarrow> bf_IsBanned (br_IP req) bf = (True, None))"

lemma ban_calls:
  "bf_BanUsername y u (bf, d) = (None, bf1, d1) \<Longrightarrow> bf_IsUsernameBanned u bf1"
  "bf_BanNickname y n (bf, d) = (None, bf1, d1) \<Longrightarrow>
     bf_IsNicknameBanned n bf1 \<and> bf_IsUsernameBanned u bf1 = bf_IsUsernameBanned u bf"
  "bf_Add y ip None (bf, d) = Ok (None, bf1, d1) \<Longrightarrow>
     bf_IsBanned ip bf1 = (True, None) \<and> bf_IsUsernameBanned u bf1 = bf_IsUsernameBanned u bf \<and>
     bf_IsNicknameBanned n bf1 = bf_IsNicknameBanned n bf"
  by (auto simp: bf_BanUsername_def bf_BanNickname_def bf_Add_def bf_IsUsernameBanned_def bf_IsNicknameBanned_def bf_IsBanned_def
      nil_map_def Let_def split: prod.splits option.splits)

lemma server_inv_bans [simp]: "server_inv (s\<lparr>sv_bans := b, sv_disk := d\<rparr>) = server_inv s"
  by (simp add: server_inv_def is_away_def)

lemma ban_part_Reply:
  assumes "ban_part b f msg next s = (Reply 200 out, s')" "server_inv s"
  obtains s1 where "server_inv s1" "next s1 = (Reply 200 out, s')" "\<not> b \<Longrightarrow> sv_bans s1 = sv_bans s"
    "b \<Longrightarrow> \<exists>bf bf1 d d1. sv_bans s = Some bf \<and> sv_bans s1 = Some bf1 \<and> f (bf, d) = Ok (None, bf1, d1)"
proof (cases b)
  case False
  then show thesis using assms that by (simp add: ban_part_def)
next
  case True
  then obtain bf bf1 d where f: "sv_bans s = Some bf" "f (bf, sv_disk s) = Ok (None, bf1, d)"
    "next (s\<lparr>sv_bans := Some bf1, sv_disk := d\<rparr>) = (Reply 200 out, s')"
    using assms(1) by (auto simp: ban_part_def Let_def http_Error_def split: option.splits outcome.splits if_splits)
  show thesis
  proof (rule that)
    show "server_inv (s\<lparr>sv_bans := Some bf1, sv_disk := d\<rparr>)" using assms(2) by simp
  qed (use f True in auto)
qed

lemma BanHandler_bans:
  assumes "BanHandler x a body s = (Reply 200 b, s')" "ap_request a body = Some req" "server_inv s"
  shows "\<exists>bf s1. sv_bans s1 = Some bf \<and> bans_asked req bf \<and> server_inv s1 \<and> kick_banned req (ClientMgr_List s1) s1 = (Reply 200 b, s')"
proof -
  let ?kick = "\<lambda>s. kick_banned req (ClientMgr_List s) s"
  let ?ip = "ban_part (br_IP req \<noteq> []) (bf_Add (x_ban_yaml x) (br_IP req) None) ''failed to ban IP'' ?kick"
  let ?nick = "ban_part (br_Nickname req \<noteq> []) (\<lambda>p. Ok (bf_BanNickname (x_ban_yaml x) (br_Nickname req) p)) ''failed to ban nickname'' ?ip"
  have ne: "br_Username req \<noteq> [] \<or> br_Nickname req \<noteq> [] \<or> br_IP req \<noteq> []"
    and h: "ban_part (br_Username req \<noteq> []) (\<lambda>p. Ok (bf_BanUsername (x_ban_yaml x) (br_Username req) p)) ''failed to ban username'' ?nick s
      = (Reply 200 b, s')"
    using assms(1,2) by (auto simp: BanHandler_def http_Error_def split: if_splits)
  obtain s1 where s1: "server_inv s1" "?nick s1 = (Reply 200 b, s')"
    "br_Username req \<noteq> [] \<Longrightarrow> \<exists>bf. sv_bans s1 = Some bf \<and> bf_IsUsernameBanned (br_Username req) bf"
    by (rule ban_part_Reply[OF h assms(3)]) (auto dest: ban_calls(1))
  obtain s2 where s2: "server_inv s2" "?ip s2 = (Reply 200 b, s')"
    "br_Username req \<noteq> [] \<or> br_Nickname req \<noteq> [] \<Longrightarrow> \<exists>bf. sv_bans s2 = Some bf \<and>
       (br_Nickname req \<noteq> [] \<longrightarrow> bf_IsNicknameBanned (br_Nickname req) bf) \<and>
       (br_Username req \<noteq> [] \<longrightarrow> bf_IsUsernameBanned (br_Username req) bf)"
    by (rule ban_part_Reply[OF s1(2,1)]) (use s1(3) in \<open>fastforce dest: ban_calls(2)[where u = "br_Username req"]\<close>)
  show ?thesis
    by (rule ban_part_Reply[OF s2(2,1)])
      (use s2(3) ne in \<open>fastforce simp: bans_asked_def dest: ban_calls(3)[where u = "br_Username req" and n = "br_Nickname req"]\<close>)
qed

fun turned_away :: "login_result \<Rightarrow> bool" where
  "turned_away (Refused s b) \<longleftrightarrow> True" | "turned_away (Failed s) \<longleftrightarrow> True"
| "turned_away (Closed s r b) \<longleftrightarrow> False" | "turned_away (LoggedIn s r) \<longleftrightarrow> False"

lemma banned_turned_away:
  assumes "sv_bans s = Some bf" "bans_asked req bf" "Transaction_Write zero_tran buf = Ok (n, t)"
    "br_Username req \<noteq> [] \<and> login_name t = br_Username req \<or> br_IP req \<noteq> [] \<and> split_host addr = br_IP req"
  shows "turned_away (login_step x addr buf s)"
proof -
  have r: "turned_away (refuse m s1)" for m s1 by (simp add: refuse_def split_beta)
  show ?thesis
  proof (cases "username_banned (login_name t) s")
    case False
    then have "address_banned x (split_host addr) s = PermanentlyBanned"
      using assms by (auto simp: username_banned_def bans_asked_def address_banned_def)
    then show ?thesis using False by (simp add: login_step_def assms(3) Let_def r)
  qed (simp add: login_step_def assms(3) Let_def r split: option.split)
qed

text \<open>C10: a ban through the HTTP interface is in force when the answer comes.  If a request to ban a login,
  a nickname or an address is answered with 200, then no client with one of them is registered any more,
  whatever the state of the server was, and from then on a login under that name, or from that address, is
  turned away before a client is made for it.\<close>

theorem api_ban_takes_effect:
  assumes "reachable x w" "ap_request a body = Some req"
    and "serve_api x a ''/api/v1/ban'' key body (wo_server w) = (Reply 200 b, s')"
  shows "(\<forall>r \<in> set (ClientMgr_List s'). \<not> banned_by req s' r) \<and>
    (\<forall>addr buf n t. Transaction_Write zero_tran buf = Ok (n, t) \<longrightarrow>
       br_Username req \<noteq> [] \<and> login_name t = br_Username req \<or> br_IP req \<noteq> [] \<and> split_host addr = br_IP req \<longrightarrow>
       turned_away (login_step x addr buf s'))"
proof -
  have "server_inv (wo_server w)" using reachable_inv[OF assms(1)] by (simp add: world_inv_def)
  moreover have "BanHandler x a body (wo_server w) = (Reply 200 b, s')"
    using assms(3) by (simp add: serve_api_def api_routes_def authMiddleware_def split: if_splits)
  ultimately obtain bf s1 where s1: "sv_bans s1 = Some bf" "bans_asked req bf" "server_inv s1"
    "kick_banned req (ClientMgr_List s1) s1 = (Reply 200 b, s')" using BanHandler_bans assms(2) by metis
  from kick_banned_removes[OF s1(4,3) clients_numbered[OF s1(3)]]
  have k: "set (sv_clients s') \<subseteq> set (sv_clients s1)" "\<And>r. r \<in> set (ClientMgr_List s1) \<Longrightarrow> banned_by req s1 r \<Longrightarrow> r \<notin> snd ` set (sv_clients s')"
    "sv_bans s' = sv_bans s1" "banned_by req s' = banned_by req s1" by blast+
  have "\<not> banned_by req s' r" if "r \<in> set (ClientMgr_List s')" for r
    using k(1,2,4) that unfolding set_ClientMgr_List by (metis image_mono subsetD)
  then show ?thesis using banned_turned_away[of s' bf req] k(3) s1(1,2) by simp
qed

text \<open>The guest of the small server, now with a ban file, is banned by its address.\<close>

definition bannable_server :: "BanFile \<Rightarrow> AccessBitmap \<Rightarrow> server" where
  "bannable_server bf access = (demo_server access)\<lparr>sv_bans := Some bf\<rparr>"

definition bannable_world :: world where
  "bannable_world = open_session demo_externals [49, 58, 49] demo_login \<lparr>wo_server = bannable_server no_bans 0, wo_live = []\<rparr>"

lemma bannable_reachable: "reachable demo_externals bannable_world"
proof -
  have "started \<lparr>wo_server = bannable_server no_bans 0, wo_live = []\<rparr>" by (simp add: started_def bannable_server_def demo_server_def)
  then show ?thesis unfolding reachable_def bannable_world_def by (meson Connect r_into_rtranclp)
qed

definition bannable_ok :: "world \<Rightarrow> bool" where
  "bannable_ok w \<longleftrightarrow> ClientMgr_List (wo_server w) = [0] \<and>
     (case BanHandler demo_externals demo_api [49] (wo_server w) of
        (r, s) \<Rightarrow> r = Reply 200 (go_str ''{\"msg\":\"banned\"}'') \<and> conn_IP 0 s = [49]) \<and>
     (case Transaction_Write zero_tran demo_login of Ok (n, t) \<Rightarrow> True | _ \<Rightarrow> False)"

theorem api_ban_takes_effect_witness:
  "ClientMgr_List (wo_server bannable_world) = [0] \<and>
   0 \<notin> set (ClientMgr_List (snd (serve_api demo_externals demo_api ''/api/v1/ban'' [1] [49] (wo_server bannable_world)))) \<and>
   turned_away (login_step demo_externals [49, 58, 50] demo_login
     (snd (serve_api demo_externals demo_api ''/api/v1/ban'' [1] [49] (wo_server bannable_world))))"
proof -
  have ok: "bannable_ok bannable_world" by code_simp
  let ?s = "snd (serve_api demo_externals demo_api ''/api/v1/ban'' [1] [49] (wo_server bannable_world))"
  have e: "serve_api demo_externals demo_api ''/api/v1/ban'' [1] [49] (wo_server bannable_world) =
      (Reply 200 (go_str ''{\"msg\":\"banned\"}''), ?s)"
    using ok by (simp add: bannable_ok_def serve_api_def api_routes_def authMiddleware_def demo_api_def prod_eq_iff split_beta)
  obtain n t where t: "Transaction_Write zero_tran demo_login = Ok (n, t)"
    using ok by (auto simp: bannable_ok_def split: outcome.splits)
  have h: "split_host [49, 58, 50] = [49]" by code_simp
  have q: "ap_request demo_api [49] = Some \<lparr>br_Username = [], br_Nickname = [], br_IP = [49]\<rparr>" by (simp add: demo_api_def)
  have "conn_IP 0 ?s = [49]"
    using ok by (simp add: bannable_ok_def serve_api_def api_routes_def authMiddleware_def demo_api_def split_beta)
  with api_ban_takes_effect[OF bannable_reachable q e] t h ok show ?thesis
    by (auto simp: banned_by_def bannable_ok_def)
qed

section \<open>Banned nicknames\<close>

lemma greet_conns: "sv_conns (greet x t login ip acc r s) = sv_conns s"
proof -
  have f: "sv_conns (snd (fan_out ty fs rs s)) = sv_conns s" for ty fs rs s
    by (induction ty fs rs s rule: fan_out.induct) (simp_all add: split_beta conns_simps)
  show ?thesis
    by (simp add: greet_def Let_def count_login_def announce_def show_agreement_def split_beta conns_simps)
qed

text \<open>C40: a ban of a nickname does not hold at the login.  A client that names itself in its login
  transaction, as clients before version 1.5 do, is logged in under a banned nickname: the list of
  banned nicknames is only asked when a client agrees to the agreement or changes its name.\<close>

theorem banned_nickname_logs_in:
  assumes "sv_bans s = Some bf" "bf_IsNicknameBanned n bf"
    and "Transaction_Write zero_tran buf = Ok (k, t)" "field_data t FieldUserName = Some n"
    and "\<not> username_banned (login_name t) s" "address_banned x (split_host addr) s = NotBanned"
    and "am_Get (login_name t) (sv_accounts s) = Some acc" "x_check x (ac_Password acc) (sl (field_data t FieldUserPassword))"
    and "AccessBitmap_IsSet (ac_Access acc) AccessAnyName"
  shows "\<exists>s' r. login_step x addr buf s = LoggedIn s' r \<and> cl_UserName (cc s' r) = n"
proof -
  obtain r s1 where c: "NewClientConn addr s = (r, s1)" by (cases "NewClientConn addr s")
  have a: "sv_accounts s1 = sv_accounts s"
    using c by (auto simp: NewClientConn_def ClientMgr_Add_def Let_def upd_conn_def)
  define s2 where "s2 = upd_conn r (\<lambda>c. c\<lparr>cl_Version := field_data t FieldVersion\<rparr>) (redis_SAdd (online (login_name t) [] (split_host addr)) s1)"
  have a2: "sv_accounts s2 = sv_accounts s" by (simp add: s2_def upd_conn_def redis_SAdd_def a)
  have "cl_UserName (cc (set_up_client t acc r s2) r) = n"
    using assms(4,9) by (simp add: set_up_client_def Let_def upd_conn_def Authorize_def split: option.split)
  then show ?thesis
    using assms(3,5-8) by (simp add: login_step_def Let_def login_client_def c s2_def[symmetric] Authenticate_def a2 greet_conns)
qed

definition named_login :: bytes where
  "named_login = Transaction_bytes (NewTransaction 0 TranLogin 0 [NewField FieldUserName [66]])"

definition nick_ban :: BanFile where
  "nick_ban = no_bans\<lparr>bf_bannedNicks := [([66], True)]\<rparr>"

definition named_ok :: "server \<Rightarrow> bool" where
  "named_ok s \<longleftrightarrow> (case Transaction_Write zero_tran named_login of
       Ok (k, t) \<Rightarrow> field_data t FieldUserName = Some [66] \<and> login_name t = GuestAccount \<and> field_data t FieldUserPassword = None
     | _ \<Rightarrow> False) \<and> \<not> username_banned GuestAccount s \<and> address_banned demo_externals [49] s = NotBanned \<and>
     (case am_Get GuestAccount (sv_accounts s) of
        Some acc \<Rightarrow> AccessBitmap_IsSet (ac_Access acc) AccessAnyName \<and> ac_Password acc = [] | None \<Rightarrow> False)"

theorem banned_nickname_logs_in_witness:
  "bf_IsNicknameBanned [66] nick_ban \<and>
   (\<exists>s' r. login_step demo_externals [49, 58, 49] named_login (bannable_server nick_ban (- 1)) = LoggedIn s' r \<and> cl_UserName (cc s' r) = [66])"
proof -
  have b: "bf_IsNicknameBanned [66] nick_ban" by code_simp
  have ok: "named_ok (bannable_server nick_ban (- 1))" by code_simp
  then obtain k t acc where t: "Transaction_Write zero_tran named_login = Ok (k, t)" "field_data t FieldUserName = Some [66]"
    "login_name t = GuestAccount" "field_data t FieldUserPassword = None"
    and a: "am_Get GuestAccount (sv_accounts (bannable_server nick_ban (- 1))) = Some acc"
    "AccessBitmap_IsSet (ac_Access acc) AccessAnyName" "ac_Password acc = []"
    by (auto simp: named_ok_def split: outcome.splits option.splits)
  have h: "split_host [49, 58, 49] = [49]" by code_simp
  have "sv_bans (bannable_server nick_ban (- 1)) = Some nick_ban" by (simp add: bannable_server_def)
  from banned_nickname_logs_in[OF this b t(1,2), of demo_externals "[49, 58, 49]" acc] ok t a h
  show ?thesis using b by (simp add: named_ok_def demo_externals_def)
qed

section \<open>Reloading\<close>

lemma os_ReadFile_disk: "os_ReadFile p d = (r, d1) \<Longrightarrow> dk_files d1 = dk_files d"
  by (auto simp: os_ReadFile_def dk_tick_def split: option.splits)

lemma reload_board_state:
  "sv_bans (reload_with FlatNews_Reload sv_board (\<lambda>b s. s\<lparr>sv_board := b\<rparr>) s) = sv_bans s"
  "dk_files (sv_disk (reload_with FlatNews_Reload sv_board (\<lambda>b s. s\<lparr>sv_board := b\<rparr>) s)) = dk_files (sv_disk s)"
  by (auto simp: reload_with_def FlatNews_Reload_def Let_def os_ReadFile_disk split: prod.split sum.split)

text \<open>What stands on the disk cannot be read as bans: neither in the present format nor in the old one.\<close>

definition unreadable_bans :: "ban_yaml \<Rightarrow> bytes \<Rightarrow> disk \<Rightarrow> bool" where
  "unreadable_bans y p d \<longleftrightarrow> (\<forall>c. dk_get d p = Some c \<longrightarrow> by_unmarshal y c = None \<and> by_legacy y c = None)"

lemma bf_Load_unreadable:
  assumes "unreadable_bans y (bf_filePath bf) d"
  shows "\<exists>e d1. bf_Load y (bf, d) = (e, bf\<lparr>bf_banList := Some [], bf_bannedUsers := [], bf_bannedNicks := []\<rparr>, d1)"
  using assms by (auto simp: bf_Load_def os_ReadFile_def unreadable_bans_def Let_def split: option.split)

text \<open>A reload with a damaged ban file lifts every ban.  If the file is missing or cannot be decoded, the reload
  that an administrator asks for, by a signal or through the HTTP interface, leaves no address, login or
  nickname banned, although all of them were in memory; the error is at most logged.\<close>

theorem failed_reload_unbans:
  assumes "sv_bans s = Some bf" "unreadable_bans (x_ban_yaml x) (bf_filePath bf) (sv_disk s)"
  shows "\<exists>bf'. sv_bans (reloadFunc x lo dir s) = Some bf' \<and> bf_IsBanned ip bf' = (False, None) \<and>
    \<not> bf_IsUsernameBanned u bf' \<and> \<not> bf_IsNicknameBanned n bf' \<and> address_banned x ip (reloadFunc x lo dir s) = NotBanned"
proof -
  let ?s1 = "reload_with FlatNews_Reload sv_board (\<lambda>b s. s\<lparr>sv_board := b\<rparr>) s"
  have "unreadable_bans (x_ban_yaml x) (bf_filePath bf) (sv_disk ?s1)"
    using assms(2) by (simp add: unreadable_bans_def reload_board_state)
  from bf_Load_unreadable[OF this] obtain bf' e d1 where l: "bf_Load (x_ban_yaml x) (bf, sv_disk ?s1) = (e, bf', d1)"
    "bf' = bf\<lparr>bf_banList := Some [], bf_bannedUsers := [], bf_bannedNicks := []\<rparr>" by blast
  have r: "sv_bans (reload_bans x ?s1) = Some bf'"
    using assms(1) l by (simp add: reload_bans_def reload_board_state) (simp add: reload_with_def l)
  have k: "sv_bans (reload_with f g put s) = sv_bans s" if "\<And>a s. sv_bans (put a s) = sv_bans s" for f g put and s :: server
    by (simp add: reload_with_def that split_beta)
  have "sv_bans (reload_banner dir s) = sv_bans s" for s by (simp add: reload_banner_def split: prod.split sum.split)
  then have "sv_bans (reloadFunc x lo dir s) = Some bf'" by (simp add: reloadFunc_def Let_def k r)
  then show ?thesis by (simp add: l(2) bf_IsBanned_def bf_IsUsernameBanned_def bf_IsNicknameBanned_def nil_map_def address_banned_def)
qed

text \<open>A server with a banned nickname whose file is gone.\<close>

theorem failed_reload_unbans_witness:
  "bf_IsNicknameBanned [66] nick_ban \<and>
   (\<exists>bf'. sv_bans (reloadFunc demo_externals (ap_loaders demo_api) [47] (bannable_server nick_ban 0)) = Some bf' \<and> \<not> bf_IsNicknameBanned [66] bf')"
proof -
  have b: "bf_IsNicknameBanned [66] nick_ban" by code_simp
  have s: "sv_bans (bannable_server nick_ban 0) = Some nick_ban" by (simp add: bannable_server_def)
  have u: "unreadable_bans (x_ban_yaml demo_externals) (bf_filePath nick_ban) (sv_disk (bannable_server nick_ban 0))"
    by (simp add: unreadable_bans_def bannable_server_def demo_server_def)
  show ?thesis using failed_reload_unbans[OF s u, where ip = "[]" and u = "[]" and n = "[66]"] b by blast
qed

section \<open>Starting\<close>

text \<open>What loading a manager leaves alone, and what each one sets.\<close>

definition just_made :: "server \<Rightarrow> bool" where
  "just_made s \<longleftrightarrow> started \<lparr>wo_server = s, wo_live = []\<rparr> \<and> sv_outbox s = []"

lemma load_Inr:
  "load_each (f # fs) s = Inr s' \<longleftrightarrow> (\<exists>s1. f s = Inr s1 \<and> load_each fs s1 = Inr s')"
  "load_with g put s = Inr s' \<longleftrightarrow> (\<exists>a d. g (sv_disk s) = (None, a, d) \<and> s' = put a (s\<lparr>sv_disk := d\<rparr>))"
  "load_banner dir s = Inr s' \<longleftrightarrow> (\<exists>b d. os_ReadFile (path_Join [dir, cf_BannerFile (sv_config s)]) (sv_disk s) = (Inr b, d) \<and>
     s' = s\<lparr>sv_Banner := b, sv_disk := d\<rparr>)"
  by (auto simp: load_with_def load_banner_def split: sum.split prod.split option.split)

lemma am_load_nonempty:
  "am_load unm m ps (am, d) = (None, am', d') \<Longrightarrow> ps \<noteq> [] \<or> am_accounts am \<noteq> [] \<Longrightarrow> am_accounts am' \<noteq> []"
proof (induction ps arbitrary: am d)
  case (Cons p ps)
  obtain acc am2 d2 where "am_load unm m ps (am2\<lparr>am_accounts := mput (ac_Login acc) acc (am_accounts am2)\<rparr>, d2) = (None, am', d')"
    using Cons.prems(1) by (auto split: prod.splits sum.splits option.splits if_splits)
  from Cons.IH[OF this] show ?case by (cases "am_accounts am2") auto
qed simp

lemma accounts_loaded: "NewYAMLAccountManager unm m dir d = (None, am, d') \<Longrightarrow> am_accounts am \<noteq> []"
  by (auto simp: NewYAMLAccountManager_def Let_def dest: am_load_nonempty split: if_splits)

lemma rooted_Join: "rooted p \<Longrightarrow> rooted (path_Join (p # ps))"
proof -
  assume p: "rooted p"
  then have ne: "p \<noteq> []" by (auto simp: rooted_def)
  have "rooted (join_buf p ps)" if "rooted p" for p using that
  proof (induction ps arbitrary: p)
    case (Cons e ps)
    then have "p \<noteq> []" "rooted (p @ slash # e)" by (cases p; simp add: rooted_def)+
    then show ?case using Cons.IH by simp
  qed simp
  then show ?thesis using p ne by (auto simp: path_Join_def)
qed

lemma LoadConfig_ok:
  "LoadConfig lo p d = (Inr c, d1) \<Longrightarrow> bannerext (cf_BannerFile c) \<and> (rooted p \<longrightarrow> rooted (cf_FileRoot c))"
  by (auto simp: LoadConfig_def rooted_Join split: sum.splits prod.splits option.splits if_splits)


text \<open>A directory with the files of a small server.\<close>

definition demo_loaders :: loaders where
  "demo_loaders = \<lparr>lo_config = \<lambda>b. Some (sv_config (demo_server 0)), lo_validate = \<lambda>c. True,
     lo_account = \<lambda>b. map_of (am_accounts (sv_accounts (demo_server 0))) GuestAccount, lo_news = \<lambda>b. (None, None)\<rparr>"

definition demo_disk :: disk where
  "demo_disk = \<lparr>dk_files = map (\<lambda>n. (go_str n, go_str ''    DownloadFile:''))
       [''/c/config.yaml'', ''/c/MessageBoard.txt'', ''/c/ThreadedNews.yaml'', ''/c/Users/guest.yaml'', ''/c/Agreement.txt'', ''/c''],
     dk_oracle = \<lambda>n. None\<rparr>"

definition demo_start :: "go_error + server" where
  "demo_start = start_up demo_externals demo_loaders (go_str ''/c'') 5500 0 0 (\<lambda>n. 0) demo_disk (sv_files (demo_server 0))"


end
