(* ===== verification/HL_Plain_Files.thy ===== *)
theory HL_Plain_Files
  imports HL_File_Transfer
begin

text \<open>
  The calls of the file store in the usual case: an absolute path without links, and an operating
  system that refuses nothing.
\<close>

section \<open>Clean absolute paths\<close>

definition good_seg :: "bytes \<Rightarrow> bool" where
  "good_seg s \<longleftrightarrow> plain_seg s \<and> slash \<notin> set s"

definition abs_path :: "bytes list \<Rightarrow> bytes" where
  "abs_path d = slash # join_slash d"

lemma good_segD: "good_seg s \<Longrightarrow> s \<noteq> [] \<and> s \<noteq> dot \<and> s \<noteq> dotdot \<and> slash \<notin> set s"
  by (auto simp: good_seg_def plain_seg_def)

lemma abs_path_ne [simp]: "abs_path d \<noteq> []" and rooted_abs [simp]: "rooted (abs_path d)"
  by (simp_all add: abs_path_def rooted_def)

lemma split_abs: "\<forall>s \<in> set d. good_seg s \<Longrightarrow> split_slash (abs_path d) = (if d = [] then [[], []] else [] # d)"
  by (auto simp: abs_path_def split_join_slash good_seg_def)

lemma filter_plain: "\<forall>s \<in> set d. good_seg s \<Longrightarrow> filter plain_seg d = d"
  by (auto simp: good_seg_def filter_id_conv)

lemma path_segs_no_dotdot: "dotdot \<notin> set (split_slash p) \<Longrightarrow> path_segs p = filter plain_seg (split_slash p)"
  by (simp add: path_segs_def fold_clean_no_dotdot)

lemma good_split:
  assumes "\<forall>s \<in> set d. good_seg s"
  shows "dotdot \<notin> set (split_slash (abs_path d))" "filter plain_seg (split_slash (abs_path d)) = d"
  using assms filter_plain[OF assms] by (auto simp: split_abs good_seg_def plain_seg_def)

lemma path_segs_abs: "\<forall>s \<in> set d. good_seg s \<Longrightarrow> path_segs (abs_path d) = d"
  by (simp add: path_segs_no_dotdot good_split)

lemma Clean_abs: "\<forall>s \<in> set d. good_seg s \<Longrightarrow> path_Clean (abs_path d) = abs_path d"
  by (simp add: path_Clean_def path_segs_abs) (simp add: abs_path_def)

lemma fs_segs_abs: "\<forall>s \<in> set d. good_seg s \<Longrightarrow> fs_segs (abs_path d) = d"
  by (auto simp: fs_segs_def split_abs good_seg_def plain_seg_def filter_id_conv)

lemma join_slash_snoc: "join_slash (d @ [n]) = (if d = [] then n else join_slash d @ slash # n)"
  by (induction d rule: join_slash.induct) simp_all

lemma abs_path_suffix: "abs_path (d @ [n]) @ s = abs_path (d @ [n @ s])"
  by (simp add: abs_path_def join_slash_snoc)

lemma path_segs_append:
  assumes "\<forall>s \<in> set d. good_seg s" "dotdot \<notin> set (split_slash r)"
  shows "path_segs (abs_path d @ slash # r) = d @ filter plain_seg (split_slash r)"
  using good_split[OF assms(1)] assms(2)
  by (subst path_segs_no_dotdot) (simp_all add: split_slash_append)

lemma rooted_append [simp]: "rooted (abs_path d @ r)"
  by (simp add: abs_path_def rooted_def)

lemma Join_abs:
  assumes "\<forall>s \<in> set d. good_seg s" "good_seg n"
  shows "path_Join [abs_path d, n] = abs_path (d @ [n])"
proof -
  have "split_slash n = [n]" "plain_seg n" "dotdot \<noteq> n"
    using assms(2) by (auto simp: split_slash_no_slash good_seg_def plain_seg_def)
  then have "path_segs (abs_path d @ slash # n) = d @ [n]" by (subst path_segs_append[OF assms(1)]) simp_all
  then have "path_Clean (abs_path d @ slash # n) = abs_path (d @ [n])"
    by (simp add: path_Clean_def) (simp add: abs_path_def)
  then show ?thesis by (simp add: path_Join_def)
qed

lemma last_split_abs: "\<forall>s \<in> set (d @ [n]). good_seg s \<Longrightarrow> last (split_slash (abs_path (d @ [n]))) = n"
  by (simp add: split_abs)

lemma Base_abs:
  assumes "\<forall>s \<in> set (d @ [n]). good_seg s" shows "filepath_Base (abs_path (d @ [n])) = n"
proof -
  have "n \<noteq> []" "slash \<notin> set n" using assms by (auto simp: good_seg_def plain_seg_def)
  then obtain m c where n: "n = m @ [c]" "c \<noteq> slash" by (cases n rule: rev_cases) auto
  have "rev (abs_path (d @ [n])) = c # rev m @ rev (if d = [] then [slash] else abs_path d @ [slash])"
    by (simp add: abs_path_def join_slash_snoc n(1))
  then have "dropWhile (\<lambda>c. c = slash) (rev (abs_path (d @ [n]))) = rev (abs_path (d @ [n]))"
    by (simp only: dropWhile.simps n(2) if_False)
  then show ?thesis unfolding filepath_Base_def Let_def using last_split_abs[OF assms] by simp
qed

lemma Dir_abs:
  assumes "\<forall>s \<in> set (d @ [n]). good_seg s" shows "filepath_Dir (abs_path (d @ [n])) = abs_path d"
proof -
  have d: "\<forall>s \<in> set d. good_seg s" using assms by simp
  have "take (length (abs_path (d @ [n])) - length n) (abs_path (d @ [n])) =
      (if d = [] then abs_path d else abs_path d @ [slash])"
    by (simp add: abs_path_def join_slash_snoc)
  moreover have "path_Clean (abs_path d @ [slash]) = abs_path d"
  proof -
    have "path_segs (abs_path d @ slash # []) = d" by (subst path_segs_append[OF d]) (simp_all add: plain_seg_def)
    then show ?thesis by (simp add: path_Clean_def) (simp add: abs_path_def)
  qed
  ultimately show ?thesis unfolding filepath_Dir_def last_split_abs[OF assms] using Clean_abs[OF d] by (cases "d = []") simp_all
qed

section \<open>Resolving them\<close>

lemma walk_plain:
  "real_dir m (base @ d) \<Longrightarrow> dotdot \<notin> set d \<Longrightarrow> walk k m f base (d @ rest) = walk k m f (base @ d) rest"
proof (induction d arbitrary: base)
  case (Cons c d)
  have "is_dir (m (base @ [c]))"
    using Cons.prems(1) unfolding real_dir_def by (drule_tac x="Suc (length base)" in spec) simp
  then obtain t where "m (base @ [c]) = Some (Dir t)" by (auto simp: is_dir_def split: option.splits node.splits)
  then show ?case using Cons.IH[of "base @ [c]"] Cons.prems by auto
qed simp

lemma resolve_plain:
  assumes "\<forall>s \<in> set (d @ [n]). good_seg s" "real_dir (fs_get fs) d" "f \<longrightarrow> (\<forall>t. fs_get fs (d @ [n]) \<noteq> Some (Link t))"
  shows "fs_resolve f (abs_path (d @ [n])) fs = Inr (d @ [n])"
proof -
  have "dotdot \<notin> set d" "n \<noteq> dotdot" using assms(1) by (auto simp: good_seg_def plain_seg_def)
  moreover have "walk 40 (fs_get fs) f d [n] = Inr (d @ [n])"
    using assms(3) \<open>n \<noteq> dotdot\<close> by (auto split: option.split node.split)
  ultimately show ?thesis
    using assms walk_plain[of "fs_get fs" "[]" d 40 f "[n]"] by (simp add: fs_resolve_def fs_segs_abs del: walk.simps)
qed

text \<open>Changing a name in a folder leaves the folder reachable.\<close>

lemma real_dir_cong: "(\<And>k. k \<le> length q \<Longrightarrow> m' (take k q) = m (take k q)) \<Longrightarrow> real_dir m' q = real_dir m q"
  by (simp add: real_dir_def)

lemma take_ne_snoc: "take k d \<noteq> d @ [n]"
  by (metis Suc_n_not_le_n length_append_singleton length_take min.cobounded1)

lemma real_dir_upd [simp]: "real_dir (m(d @ [n] := v)) d = real_dir m d"
  by (rule real_dir_cong) (simp add: take_ne_snoc)

section \<open>An operating system that refuses nothing\<close>

definition quiet :: "filesystem \<Rightarrow> bool" where
  "quiet fs \<longleftrightarrow> fs_oracle fs = (\<lambda>_. None)"

lemma quiet_call [simp]: "quiet fs \<Longrightarrow> fs_call f fs = f fs"
  by (cases fs) (simp add: quiet_def fs_call_def fs_tick_def)

lemma quiet_put [simp]: "quiet (fs_put q v fs) = quiet fs" "fs_now (fs_put q v fs) = fs_now fs"
  "fs_get (fs_put q v fs) = (fs_get fs)(q \<mapsto> v)"
  by (simp_all add: quiet_def fs_put_def)

lemma quiet_nodes [simp]: "quiet (fs\<lparr>fs_nodes := m\<rparr>) = quiet fs"
  by (simp add: quiet_def)

text \<open>A file or a free name in a folder that is reached without links.\<close>

definition in_dir :: "bytes list \<Rightarrow> filesystem \<Rightarrow> bool" where
  "in_dir d fs \<longleftrightarrow> quiet fs \<and> real_dir (fs_get fs) d \<and> (\<forall>s \<in> set d. good_seg s)"

lemma in_dir_put [simp]: "in_dir d (fs_put (d @ [n]) v fs) = in_dir d fs"
  by (simp add: in_dir_def)

definition no_link :: "node option \<Rightarrow> bool" where
  "no_link v \<longleftrightarrow> (\<forall>t. v \<noteq> Some (Link t))"

lemma no_link_simps [simp]: "no_link None" "no_link (Some (Reg b t))" "no_link (Some (Dir t))"
  by (simp_all add: no_link_def)

lemma at_plain:
  assumes "in_dir d fs" "good_seg n" "f \<longrightarrow> no_link (fs_get fs (d @ [n]))"
  shows "fs_at f (abs_path (d @ [n])) g fs = g (d @ [n]) fs"
  using assms resolve_plain[of d n fs f] by (simp add: in_dir_def fs_at_def no_link_def)

lemma Stat_plain:
  assumes "in_dir d fs" "good_seg n" "no_link (fs_get fs (d @ [n]))"
  shows "FS_Stat (abs_path (d @ [n])) fs =
    (case fs_get fs (d @ [n]) of None \<Rightarrow> Inl NotExist | Some v \<Rightarrow> Inr (node_info fs (d @ [n]) n v), fs)"
  using assms Base_abs[of d n] by (auto simp: FS_Stat_def stat_at_def at_plain in_dir_def split: option.split)

lemma ReadFile_plain:
  assumes "in_dir d fs" "good_seg n" "fs_get fs (d @ [n]) = Some (Reg b t)"
  shows "FS_ReadFile (abs_path (d @ [n])) fs = (Inr b, fs)"
  using assms by (simp add: FS_ReadFile_def at_plain)

lemma ReadFile_missing:
  assumes "in_dir d fs" "good_seg n" "fs_get fs (d @ [n]) = None"
  shows "FS_ReadFile (abs_path (d @ [n])) fs = (Inl NotExist, fs)"
  using assms by (simp add: FS_ReadFile_def at_plain)

lemma OpenWrite_plain:
  assumes "in_dir d fs" "good_seg n"
  shows "fs_get fs (d @ [n]) = None \<Longrightarrow>
      FS_OpenWrite trunc (abs_path (d @ [n])) fs = (Inr (d @ [n]), fs_put (d @ [n]) (Reg [] (fs_now fs)) fs)"
    and "fs_get fs (d @ [n]) = Some (Reg b t) \<Longrightarrow>
      FS_OpenWrite False (abs_path (d @ [n])) fs = (Inr (d @ [n]), fs)"
  using assms by (simp_all add: FS_OpenWrite_def at_plain)

lemma Append_plain:
  "quiet fs \<Longrightarrow> fs_get fs q = Some (Reg b t) \<Longrightarrow> FS_Append q c fs = (Inr (), fs_put q (Reg (b @ c) (fs_now fs)) fs)"
  by (simp add: FS_Append_def)

text \<open>Renaming a file to a free name in its folder.\<close>

lemma below_file: "below (d @ [n]) q \<longleftrightarrow> take (Suc (length d)) q = d @ [n]"
  by (simp add: below_def)

end
