(* ===== verification/HL_Transfers.thy ===== *)
theory HL_Transfers
  imports HL_Plain_Files HL_Small_Server
begin

text \<open>
  What transfers promise: the data survives a download and an upload, an upload is complete or can be
  resumed, and a reference number is good for one connection; and two ways in which an upload of a
  folder breaks such promises.
\<close>

section \<open>The names beside a file\<close>

lemma good_names:
  assumes "good_seg n"
  shows "good_seg (n @ IncompleteFileSuffix)" "good_seg (InfoForkName n)" "good_seg (RsrcForkName n)"
  using assms
  by (auto simp: good_seg_def plain_seg_def IncompleteFileSuffix_def InfoForkName_def RsrcForkName_def go_str_def
      append_eq_Cons_conv Cons_eq_append_conv)

lemma fork_names_ne [simp]:
  "n @ IncompleteFileSuffix \<noteq> n" "InfoForkName n \<noteq> n" "RsrcForkName n \<noteq> n" "n \<noteq> n @ IncompleteFileSuffix"
  by (auto simp: IncompleteFileSuffix_def InfoForkName_def RsrcForkName_def go_str_def dest: arg_cong[where f=length])

lemma IncompleteFileSuffix_ne [simp]: "IncompleteFileSuffix \<noteq> []" "[] \<noteq> IncompleteFileSuffix"
  by (simp_all add: IncompleteFileSuffix_def go_str_def)

lemma info_ne_incomplete: "InfoForkName n \<noteq> n @ IncompleteFileSuffix"
proof
  assume e: "InfoForkName n = n @ IncompleteFileSuffix"
  then have "length (InfoForkName n) = length (n @ IncompleteFileSuffix)" by simp
  then show False by (simp add: InfoForkName_def IncompleteFileSuffix_def go_str_def)
qed

lemma rsrc_ne_incomplete: "RsrcForkName n \<noteq> n @ IncompleteFileSuffix"
proof
  assume e: "RsrcForkName n = n @ IncompleteFileSuffix"
  then have "length (RsrcForkName n) = length (n @ IncompleteFileSuffix)" by simp
  then show False by (simp add: RsrcForkName_def IncompleteFileSuffix_def go_str_def)
qed

text \<open>
  A name in a folder without an information fork, whose other files are not links.
\<close>

definition plain_name :: "bytes list \<Rightarrow> bytes \<Rightarrow> filesystem \<Rightarrow> bool" where
  "plain_name d n fs \<longleftrightarrow> in_dir d fs \<and> good_seg n \<and> length n < 65462 \<and> fs_get fs (d @ [InfoForkName n]) = None \<and>
     no_link (fs_get fs (d @ [n])) \<and> no_link (fs_get fs (d @ [n @ IncompleteFileSuffix])) \<and>
     no_link (fs_get fs (d @ [RsrcForkName n]))"

definition plain_File :: "bytes list \<Rightarrow> bytes \<Rightarrow> flattenedFileObject \<Rightarrow> File" where
  "plain_File d n ffo = \<lparr>fl_Name = n, fl_path = abs_path d, fl_dataPath = abs_path (d @ [n]), fl_dataOffset = 0,
     fl_rsrcPath = abs_path (d @ [RsrcForkName n]), fl_infoPath = abs_path (d @ [InfoForkName n]),
     fl_incompletePath = abs_path (d @ [n @ IncompleteFileSuffix]), fl_Ffo = ffo\<rparr>"

lemma plain_paths:
  assumes "plain_name d n fs"
  shows "filepath_Dir (abs_path (d @ [n])) = abs_path d" "filepath_Base (abs_path (d @ [n])) = n"
    "path_Join [abs_path d, InfoForkName n] = abs_path (d @ [InfoForkName n])"
    "path_Join [abs_path d, RsrcForkName n] = abs_path (d @ [RsrcForkName n])"
    "path_Join [abs_path d, n @ IncompleteFileSuffix] = abs_path (d @ [n @ IncompleteFileSuffix])"
  using assms good_names[of n] by (simp_all add: plain_name_def in_dir_def Dir_abs Base_abs Join_abs)

lemma wf_new_info_fork: "length n < 65462 \<Longrightarrow> wf_info_fork (new_info_fork n t ft)"
  by (simp add: wf_info_fork_def new_info_fork_def zero_info_fork_def)

lemma NewFile_plain:
  assumes "plain_name d n fs"
  obtains ffo where "NewFile ca (abs_path (d @ [n])) 0 fs = (Ok (plain_File d n ffo), fs)" "wf_ffo ffo"
    "fh_ForkCount (fo_Header ffo) = 2"
    "\<And>b t. fs_get fs (d @ [n]) = Some (Reg b t) \<Longrightarrow> ff_DataSize (fo_DataForkHeader ffo) = u32 (length b)"
proof -
  note p = assms[unfolded plain_name_def]
  note stat = Stat_plain[of d fs]
  obtain mTime sz ft where di: "\<And>f. fl_dataPath f = abs_path (d @ [n]) \<Longrightarrow> fl_dataOffset f = 0 \<Longrightarrow>
      fl_incompletePath f = abs_path (d @ [n @ IncompleteFileSuffix]) \<Longrightarrow> file_data_info ca f fs = (Inr (mTime, sz, ft), fs)"
    and sz: "\<And>b t. fs_get fs (d @ [n]) = Some (Reg b t) \<Longrightarrow> sz = u32 (length b)"
  proof (cases "fs_get fs (d @ [n])")
    case None
    then show thesis
      using that p good_names[of n] stat[of n] stat[of "n @ IncompleteFileSuffix"]
      by (cases "fs_get fs (d @ [n @ IncompleteFileSuffix])") (force simp: file_data_info_def data_info_def)+
  next
    case (Some v)
    then show thesis
      using that[of "NewTime ca (nf_ModTime (node_info fs (d @ [n]) n v))" "u32 (nf_Size (node_info fs (d @ [n]) n v))"
          "fileTypeFromInfo (node_info fs (d @ [n]) n v)"] p stat[of n]
      by (simp add: file_data_info_def data_info_def node_info_def)
  qed
  let ?info = "new_info_fork n mTime ft"
  define f0 where "f0 = plain_File d n zero_ffo"
  have i: "file_info_fork (fl_infoPath f0) (fl_Name f0) mTime ft fs = (Ok (2, ?info), fs)"
    using p good_names[of n] stat[of "InfoForkName n"] by (simp add: file_info_fork_def f0_def plain_File_def)
  obtain rh where r: "file_rsrcForkHeader f0 fs = (rh, fs)"
    using p good_names[of n] stat[of "RsrcForkName n"]
    by (cases "fs_get fs (d @ [RsrcForkName n])")
      (auto simp: file_rsrcForkHeader_def file_rsrcForkSize_def f0_def plain_File_def)
  let ?ffo = "\<lparr>fo_Header = \<lparr>fh_Format = FormatFILP, fh_Version = 1, fh_RSVD = 0, fh_ForkCount = 2\<rparr>,
     fo_InfoForkHeader = zero_fork_header\<lparr>ff_ForkType := ForkTypeINFO, ff_DataSize := ffif_Size ?info\<rparr>,
     fo_InfoFork = ?info, fo_DataForkHeader = zero_fork_header\<lparr>ff_ForkType := ForkTypeDATA, ff_DataSize := sz\<rparr>,
     fo_ResForkHeader = rh\<rparr>"
  have "file_flattenedFileObject ca f0 fs = (Ok ?ffo, fs)"
    using di[of f0] i r by (simp add: file_flattenedFileObject_def) (simp add: f0_def plain_File_def)
  then have "NewFile ca (abs_path (d @ [n])) 0 fs = (Ok (plain_File d n ?ffo), fs)"
    using plain_paths[OF assms] by (simp add: NewFile_def Let_def f0_def plain_File_def)
  moreover have "wf_ffo ?ffo"
    using p by (simp add: wf_ffo_def wf_new_info_fork zero_fork_header_def ffif_Size_def ffif_DataSize_def)
  ultimately show thesis using that sz by simp
qed


section \<open>A download\<close>

text \<open>
  A whole file without forks: the flattened file object, the data, and the header of an empty resource
  fork, which the object does not announce.
\<close>

lemma DownloadHandler_plain:
  assumes "plain_name d n (xf_files c)" "fs_get (xf_files c) (d @ [n]) = Some (Reg b t)"
    "fs_get (xf_files c) (d @ [RsrcForkName n]) = None" "xf_room c = None"
    "ft_FileResumeData ft = None" "ft_Options ft = None"
  obtains ffo h where "DownloadHandler ca (abs_path (d @ [n])) ft c =
      (Ok (), c\<lparr>xf_out := xf_out c @ ffo_bytes ffo @ b @ fork_header_bytes h, xf_sent := xf_sent c + length b\<rparr>)"
    "wf_ffo ffo" "fh_ForkCount (fo_Header ffo) = 2" "ff_DataSize (fo_DataForkHeader ffo) = u32 (length b)"
proof -
  let ?fs = "xf_files c"
  note p = assms(1)[unfolded plain_name_def]
  obtain ffo where ffo: "NewFile ca (abs_path (d @ [n])) 0 ?fs = (Ok (plain_File d n ffo), ?fs)" "wf_ffo ffo"
    "fh_ForkCount (fo_Header ffo) = 2" "ff_DataSize (fo_DataForkHeader ffo) = u32 (length b)"
    using NewFile_plain[OF assms(1)] assms(2) by metis
  have s: "FS_Stat (abs_path (d @ [n])) ?fs = (Inr (node_info ?fs (d @ [n]) n (Reg b t)), ?fs)"
    using p assms(2) Stat_plain[of d ?fs n] by simp
  have f: "FS_ReadFile (abs_path (d @ [n])) ?fs = (Inr b, ?fs)" using p assms(2) ReadFile_plain[of d ?fs n] by simp
  have r: "FS_ReadFile (abs_path (d @ [RsrcForkName n])) ?fs = (Inl NotExist, ?fs)"
    "FS_Stat (abs_path (d @ [RsrcForkName n])) ?fs = (Inl NotExist, ?fs)"
    using p good_names[of n] assms(3) ReadFile_missing[of d ?fs "RsrcForkName n"] Stat_plain[of d ?fs "RsrcForkName n"]
    by simp_all
  have e: "c\<lparr>xf_files := ?fs\<rparr> = c" by simp
  show thesis
    by (rule that[of ffo "fst (file_rsrcForkHeader (plain_File d n ffo) ?fs)"])
      (use assms(4-6) ffo s f r in \<open>simp_all add: DownloadHandler_def resume_offset_def io_bind_def io_of_def io_ret_def io_NewFile_def
        io_try_def io_sys_def io_write_def dataForkReader_def plain_File_def io_send_def write_rsrcForkHeader_def
        file_rsrcForkHeader_def file_rsrcForkSize_def rsrcForkFile_def io_ignore_def io_fail_def\<close>)
qed

section \<open>An upload\<close>

lemma map_of_moved:
  assumes "r \<notin> fst ` set xs" "length r = length q"
  shows "map_of (map (\<lambda>e. if below q (fst e) then (r @ drop (length q) (fst e), snd e) else e) xs) r = map_of xs q"
  using assms(1)
proof (induction xs)
  case (Cons e xs)
  have "drop (length q) (fst e) = []" if "below q (fst e)" "r = r @ drop (length q) (fst e)"
    using that by simp
  moreover have "fst e = q" if "below q (fst e)" "drop (length q) (fst e) = []"
    using that by (metis append_Nil2 append_take_drop_id below_def)
  ultimately show ?case using Cons by (auto simp: below_def)
qed simp

lemma map_of_moved_away:
  assumes "length r = length q" "r \<noteq> q"
  shows "map_of (map (\<lambda>e. if below q (fst e) then (r @ drop (length q) (fst e), snd e) else e) xs) q = None"
proof -
  have "q \<noteq> r @ x" for x using assms by auto
  then show ?thesis by (auto simp: map_of_eq_None_iff below_def split: if_splits)
qed

lemma Rename_plain:
  assumes "in_dir d fs" "good_seg n" "good_seg n'" "n \<noteq> n'" "fs_get fs (d @ [n]) = Some (Reg b t)" "fs_get fs (d @ [n']) = None"
  obtains fs' where "FS_Rename (abs_path (d @ [n])) (abs_path (d @ [n'])) fs = (Inr (), fs')"
    "fs_get fs' (d @ [n']) = Some (Reg b t)" "fs_get fs' (d @ [n]) = None"
proof -
  let ?m = "map (\<lambda>e. if below (d @ [n]) (fst e) then ((d @ [n']) @ drop (length (d @ [n])) (fst e), snd e) else e)
    (mdel (d @ [n']) (fs_nodes fs))"
  have r: "fs_resolve False (abs_path (d @ [n'])) fs = Inr (d @ [n'])"
    using assms(1,3) resolve_plain[of d n' fs False] by (simp add: in_dir_def)
  have "\<not> below (d @ [n]) (d @ [n'])" using assms(4) by (simp add: below_def)
  then have "FS_Rename (abs_path (d @ [n])) (abs_path (d @ [n'])) fs = (Inr (), fs\<lparr>fs_nodes := ?m\<rparr>)"
    using assms r by (simp add: FS_Rename_def at_plain is_dir_def)
  moreover have "map_of ?m (d @ [n']) = Some (Reg b t)" using assms(4,5) by (subst map_of_moved) (auto simp: set_mdel)
  moreover have "map_of ?m (d @ [n]) = None" using assms(4) by (subst map_of_moved_away) auto
  ultimately show thesis using that by simp
qed

lemma OpenWrite_append:
  assumes "in_dir d fs" "good_seg n" "fs_get fs (d @ [n]) = None \<and> part = [] \<or> (\<exists>t. fs_get fs (d @ [n]) = Some (Reg part t))"
  obtains fs' t where "FS_OpenWrite False (abs_path (d @ [n])) fs = (Inr (d @ [n]), fs')" "in_dir d fs'"
    "fs_get fs' = (fs_get fs)(d @ [n] \<mapsto> Reg part t)"
  using assms(3)
proof
  assume "fs_get fs (d @ [n]) = None \<and> part = []"
  then show thesis using that[of "fs_put (d @ [n]) (Reg [] (fs_now fs)) fs" "fs_now fs"] assms(1,2) OpenWrite_plain(1) by simp
next
  assume "\<exists>t. fs_get fs (d @ [n]) = Some (Reg part t)"
  then obtain t where t: "fs_get fs (d @ [n]) = Some (Reg part t)" by blast
  then have "fs_get fs = (fs_get fs)(d @ [n] \<mapsto> Reg part t)" by (simp add: fun_upd_idem)
  then show thesis using that[of fs t] assms(1,2) t OpenWrite_plain(2)[of d fs n part t] by simp
qed

lemma io_append_plain:
  assumes "in_dir d (xf_files c)" "fs_get (xf_files c) (d @ [n]) = Some (Reg part t)"
  obtains c' t' where "io_append (Some (d @ [n])) b c = (Ok (), c')" "in_dir d (xf_files c')"
    "fs_get (xf_files c') = (fs_get (xf_files c))(d @ [n] \<mapsto> Reg (part @ b) t')"
    "c' = c\<lparr>xf_files := xf_files c'\<rparr>"
proof (cases "b = []")
  case True
  have "fs_get (xf_files c) = (fs_get (xf_files c))(d @ [n] \<mapsto> Reg part t)" using assms(2) by (simp add: fun_upd_idem)
  then show thesis using that[of c t] assms True by (simp add: io_append_def io_ret_def)
next
  case False
  then show thesis
    using that[of "c\<lparr>xf_files := fs_put (d @ [n]) (Reg (part @ b) (fs_now (xf_files c))) (xf_files c)\<rparr>" "fs_now (xf_files c)"]
      assms Append_plain[of "xf_files c" "d @ [n]" part t b]
    by (simp add: io_append_def io_sys_def io_bind_def io_try_def io_ret_def in_dir_def)
qed

definition no_value :: "'a outcome \<Rightarrow> unit outcome" where
  "no_value res = (case res of Ok r \<Rightarrow> Ok () | Err e \<Rightarrow> Err e | Panic \<Rightarrow> Panic)"

lemma no_value_simps [simp]: "no_value (Ok r) = Ok ()" "no_value (Err e) = Err e" "no_value Panic = Panic"
  by (simp_all add: no_value_def)

lemma receive_plain:
  assumes "in_dir d (xf_files c)" "fs_get (xf_files c) (d @ [n]) = Some (Reg part t)" "receiveFile (xf_in c) = (got, res)"
  obtains c' t' where "io_receiveFile (d @ [n]) None None c = (no_value res, c')"
    "in_dir d (xf_files c')" "fs_get (xf_files c') = (fs_get (xf_files c))(d @ [n] \<mapsto> Reg (part @ rv_data got) t')"
    "xf_out c' = xf_out c" "xf_room c' = xf_room c"
proof -
  let ?c = "c\<lparr>xf_in := (case res of Ok r \<Rightarrow> r | _ \<Rightarrow> []), xf_sent := xf_sent c + rv_counted got\<rparr>"
  obtain c' t' where c': "io_append (Some (d @ [n])) (rv_data got) ?c = (Ok (), c')" "in_dir d (xf_files c')"
    "fs_get (xf_files c') = (fs_get (xf_files c))(d @ [n] \<mapsto> Reg (part @ rv_data got) t')" "c' = ?c\<lparr>xf_files := xf_files c'\<rparr>"
    using io_append_plain[of d ?c n part t "rv_data got"] assms(1,2) by auto
  have "io_receiveFile (d @ [n]) None None c = (no_value res, c')"
    using c'(1) assms(3)
    by (cases res) (simp_all add: io_receiveFile_def io_bind_def io_append_def io_overwrite_def io_ret_def io_of_def)
  moreover have "xf_out c' = xf_out c" "xf_room c' = xf_room c" using arg_cong[OF c'(4), of xf_out] arg_cong[OF c'(4), of xf_room] by simp_all
  ultimately show thesis using that c'(2,3) by blast
qed

text \<open>The upload of one file, whole or cut short.\<close>

lemma UploadHandler_plain:
  assumes "plain_name d n (xf_files c)" "fs_get (xf_files c) (d @ [n]) = None" "receiveFile (xf_in c) = (got, res)"
    and inc: "fs_get (xf_files c) (d @ [n @ IncompleteFileSuffix]) = None \<and> part = [] \<or>
      (\<exists>t. fs_get (xf_files c) (d @ [n @ IncompleteFileSuffix]) = Some (Reg part t))"
  obtains c' t where "UploadHandler ca False (abs_path (d @ [n])) c = (no_value res, c')"
    "res \<in> range Ok \<Longrightarrow> fs_get (xf_files c') (d @ [n]) = Some (Reg (part @ rv_data got) t) \<and>
      fs_get (xf_files c') (d @ [n @ IncompleteFileSuffix]) = None"
    "res \<notin> range Ok \<Longrightarrow> fs_get (xf_files c') (d @ [n]) = None \<and>
      fs_get (xf_files c') (d @ [n @ IncompleteFileSuffix]) = Some (Reg (part @ rv_data got) t)"
proof -
  let ?fs = "xf_files c" and ?i = "n @ IncompleteFileSuffix"
  note p = assms(1)[unfolded plain_name_def] and g = good_names[of n]
  have d: "in_dir d ?fs" "good_seg n" "good_seg ?i" using p g by simp_all
  have s: "FS_Stat (abs_path (d @ [n])) ?fs = (Inl NotExist, ?fs)"
    using p assms(2) Stat_plain[of d ?fs n] by simp
  obtain fs1 t1 where o1: "FS_OpenWrite False (abs_path (d @ [?i])) ?fs = (Inr (d @ [?i]), fs1)" "in_dir d fs1"
    "fs_get fs1 = (fs_get ?fs)(d @ [?i] \<mapsto> Reg part t1)"
    using OpenWrite_append[OF d(1,3) inc] by blast
  have p1: "plain_name d n fs1"
    using p o1 info_ne_incomplete[of n] rsrc_ne_incomplete[of n] by (simp add: plain_name_def)
  obtain ffo where f: "NewFile ca (abs_path (d @ [n])) 0 fs1 = (Ok (plain_File d n ffo), fs1)"
    using NewFile_plain[OF p1] by metis
  let ?c1 = "c\<lparr>xf_files := fs1\<rparr>"
  have pre: "in_dir d (xf_files ?c1)" "fs_get (xf_files ?c1) (d @ [?i]) = Some (Reg part t1)" "receiveFile (xf_in ?c1) = (got, res)"
    using o1 assms(3) by simp_all
  obtain c2 t2 where r: "io_receiveFile (d @ [?i]) None None ?c1 = (no_value res, c2)"
    "in_dir d (xf_files c2)" "fs_get (xf_files c2) = (fs_get fs1)(d @ [?i] \<mapsto> Reg (part @ rv_data got) t2)"
    by (rule receive_plain[OF pre]) auto
  have g2: "fs_get (xf_files c2) (d @ [?i]) = Some (Reg (part @ rv_data got) t2)" "fs_get (xf_files c2) (d @ [n]) = None"
    using r(3) o1(3) assms(2) by simp_all
  obtain fs3 where m: "FS_Rename (abs_path (d @ [?i])) (abs_path (d @ [n])) (xf_files c2) = (Inr (), fs3)"
    "fs_get fs3 (d @ [n]) = Some (Reg (part @ rv_data got) t2)" "fs_get fs3 (d @ [?i]) = None"
    using Rename_plain[OF r(2) d(3,2) _ g2] by auto
  note u = UploadHandler_def io_bind_def io_try_def s io_sys_def abs_path_suffix o1(1) io_ret_def io_NewFile_def f io_of_def r(1) io_fail_def
  show thesis
  proof (cases "res \<in> range Ok")
    case True
    then obtain k where k: "res = Ok k" by blast
    have "UploadHandler ca False (abs_path (d @ [n])) c = (Ok (), c2\<lparr>xf_files := fs3\<rparr>)"
      using m(1) by (simp add: u k)
    then show thesis using that[of "c2\<lparr>xf_files := fs3\<rparr>" t2] k m(2,3) by simp
  next
    case False
    then have "UploadHandler ca False (abs_path (d @ [n])) c = (no_value res, c2)"
      by (cases res) (simp_all add: u)
    then show thesis using that[of c2 t2] False g2 by simp
  qed
qed


text \<open>C17: a file survives a download and an upload.  The bytes that the download of a file without
  resource fork writes, fed to the upload of another name, perhaps on another server and cut into pieces
  anyhow, give a file with the same data.\<close>

theorem download_upload_roundtrip:
  assumes "plain_name d n fs" "fs_get fs (d @ [n]) = Some (Reg b t)" "length b < 4294967296"
    "fs_get fs (d @ [RsrcForkName n]) = None" "ft_FileResumeData ft = None" "ft_Options ft = None"
    and "plain_name d' n' (xf_files c)" "fs_get (xf_files c) (d' @ [n']) = None"
    "fs_get (xf_files c) (d' @ [n' @ IncompleteFileSuffix]) = None"
    and "DownloadHandler ca (abs_path (d @ [n])) ft \<lparr>xf_in = [], xf_out = [], xf_room = None, xf_files = fs, xf_sent = 0\<rparr> = (r, c1)"
    and "concat (xf_in c) = xf_out c1"
  shows "r = Ok () \<and> (\<exists>c' t'. UploadHandler ca False (abs_path (d' @ [n'])) c = (Ok (), c') \<and>
    fs_get (xf_files c') (d' @ [n']) = Some (Reg b t'))"
proof -
  let ?c = "\<lparr>xf_in = [], xf_out = [], xf_room = None, xf_files = fs, xf_sent = 0\<rparr>"
  have pre: "plain_name d n (xf_files ?c)" "fs_get (xf_files ?c) (d @ [n]) = Some (Reg b t)"
    "fs_get (xf_files ?c) (d @ [RsrcForkName n]) = None" "xf_room ?c = None" using assms by simp_all
  obtain ffo h where o1: "r = Ok ()" "xf_out c1 = ffo_bytes ffo @ b @ fork_header_bytes h" "wf_ffo ffo"
    "fh_ForkCount (fo_Header ffo) = 2" "ff_DataSize (fo_DataForkHeader ffo) = u32 (length b)"
    by (rule DownloadHandler_plain[OF pre assms(5,6), of ca]) (use assms(10) in auto)
  have "length b = ffo_dataSize ffo" using assms(3) o1(5) by (simp add: ffo_dataSize_def unat_u32)
  then obtain rest where rf: "receiveFile (xf_in c) = (\<lparr>rv_info = ffif_bytes (fo_InfoFork ffo), rv_data = b, rv_rsrc = [],
      rv_counted = length b\<rparr>, Ok rest)"
    using receiveFile_wire_data_only[OF o1(3), of b "xf_in c" "[]" "fork_header_bytes h"] o1(2,4) assms(11)
    by (auto simp: upload_wire_def)
  have inc: "fs_get (xf_files c) (d' @ [n' @ IncompleteFileSuffix]) = None \<and> ([] :: bytes) = [] \<or>
      (\<exists>t. fs_get (xf_files c) (d' @ [n' @ IncompleteFileSuffix]) = Some (Reg [] t))" using assms(9) by simp
  obtain c' t' where "UploadHandler ca False (abs_path (d' @ [n'])) c = (Ok (), c')" "fs_get (xf_files c') (d' @ [n']) = Some (Reg b t')"
    by (rule UploadHandler_plain[OF assms(7,8) rf inc, of ca]) auto
  then show ?thesis using o1(1) by blast
qed

section \<open>A folder upload\<close>

text \<open>A resumed file of a folder upload counts as complete however little of it arrives.  The error
  that a cut stream gives is dropped and the partial file takes the final name, so that no later attempt
  will resume it.\<close>

theorem truncated_resume_becomes_final:
  assumes "in_dir d (xf_files c)" "d \<noteq> []" "good_seg n" "fs_get (xf_files c) (d @ [n]) = None"
    "fs_get (xf_files c) (d @ [n @ IncompleteFileSuffix]) = Some (Reg part t)"
    and "xf_room c = None" "read_full 4 (xf_in c) = Ok (sz, r)" "receiveFile r = (got, Err e)"
  shows "case upload_file_item ca False (abs_path d) n c of (res, c') \<Rightarrow>
    res = Ok () \<and> (\<exists>t. fs_get (xf_files c') (d @ [n]) = Some (Reg (part @ rv_data got) t)) \<and>
    fs_get (xf_files c') (d @ [n @ IncompleteFileSuffix]) = None"
proof -
  let ?fs = "xf_files c" and ?i = "n @ IncompleteFileSuffix"
  have g: "good_seg ?i" using good_names[OF assms(3)] by simp
  have j: "path_Join [abs_path d, n] = abs_path (d @ [n])" "path_Join [abs_path d, ?i] = abs_path (d @ [?i])"
    "abs_path d @ slash # n = abs_path (d @ [n])"
    using assms(1-3) g by (simp_all add: in_dir_def Join_abs) (simp add: abs_path_def join_slash_snoc)
  obtain info where s: "FS_Stat (abs_path (d @ [n])) ?fs = (Inl NotExist, ?fs)" "FS_Stat (abs_path (d @ [?i])) ?fs = (Inr info, ?fs)"
    using Stat_plain[of d ?fs n] Stat_plain[of d ?fs ?i] assms g by simp
  have o1: "FS_OpenWrite False (abs_path (d @ [?i])) ?fs = (Inr (d @ [?i]), ?fs)"
    using OpenWrite_plain(2)[of d ?fs ?i part t] assms g by simp
  obtain l where l: "NewForkInfoList (be32 (u32 (nf_Size info))) = Ok l"
    by (simp add: NewForkInfoList_def)
  define c1 where "c1 = c\<lparr>xf_out := xf_out c @ [0, DlFldrActionResumeFile] @
    be16 (u16 (length (FileResumeData_BinaryMarshal (NewFileResumeData [l])))) @ FileResumeData_BinaryMarshal (NewFileResumeData [l]), xf_in := r\<rparr>"
  have pre: "in_dir d (xf_files c1)" "fs_get (xf_files c1) (d @ [?i]) = Some (Reg part t)" "receiveFile (xf_in c1) = (got, Err e)"
    using assms by (simp_all add: c1_def)
  obtain c2 t2 where r2: "io_receiveFile (d @ [?i]) None None c1 = (Err e, c2)" "in_dir d (xf_files c2)"
    "fs_get (xf_files c2) = (fs_get ?fs)(d @ [?i] \<mapsto> Reg (part @ rv_data got) t2)" "xf_room c2 = None"
    by (rule receive_plain[OF pre]) (use assms in \<open>auto simp: c1_def\<close>)
  have g2: "fs_get (xf_files c2) (d @ [?i]) = Some (Reg (part @ rv_data got) t2)" "fs_get (xf_files c2) (d @ [n]) = None"
    using r2(3) assms(4) by simp_all
  obtain fs3 where m: "FS_Rename (abs_path (d @ [?i])) (abs_path (d @ [n])) (xf_files c2) = (Inr (), fs3)"
    "fs_get fs3 (d @ [n]) = Some (Reg (part @ rv_data got) t2)" "fs_get fs3 (d @ [?i]) = None"
    using Rename_plain[OF r2(2) g assms(3) _ g2] by auto
  have "resume_upload (abs_path d) n info (c\<lparr>xf_out := xf_out c @ [0, DlFldrActionResumeFile]\<rparr>) = (Ok (), c2\<lparr>xf_files := fs3\<rparr>)"
    using assms(6,7) o1 l r2(1) m(1)
    by (simp add: resume_upload_def Let_def j(3) abs_path_suffix io_bind_def io_sys_def io_try_def io_ret_def io_of_def io_write_def
        io_read_def io_ignore_def c1_def)
  then have "upload_file_item ca False (abs_path d) n c =
      (Ok (), c2\<lparr>xf_files := fs3, xf_out := xf_out c2 @ [0, DlFldrActionNextFile]\<rparr>)"
    using assms(6) s r2(4)
    by (simp add: upload_file_item_def j io_bind_def io_try_def io_ret_def io_write_def next_file_def)
  then show ?thesis using m(2,3) by simp
qed

text \<open>C39: a folder upload can leave its folder.  The path elements of an item are joined as they are, so
  a client with the right to upload makes a folder beside the one it uploads to, \<^verbatim>\<open>/x\<close> instead of
  something under \<^verbatim>\<open>/up/f\<close>.\<close>

definition escaping_upload :: "xfer" where
  "escaping_upload =
     \<lparr>xf_in = [[0, 18, 0, 1, 0, 3, 0, 0, 2, 46, 46, 0, 0, 2, 46, 46, 0, 0, 1, 120]], xf_out = [], xf_room = None,
      xf_files = \<lparr>fs_nodes = [([go_str ''up''], Dir 0), ([go_str ''up'', go_str ''f''], Dir 0)], fs_cwd = [], fs_now = 1,
        fs_dirsize = \<lambda>_. 0, fs_oracle = \<lambda>_. None\<rparr>, xf_sent = 0\<rparr>"


section \<open>A transfer is used once\<close>

text \<open>The transfers the server knows, and the transfers that are running.\<close>

definition same_transfers :: "nat \<Rightarrow> server \<Rightarrow> server \<Rightarrow> bool" where
  "same_transfers f s s' \<longleftrightarrow> sv_fileTransfers s' = sv_fileTransfers s \<and>
     ft_ClientConn (sv_fts s' f) = ft_ClientConn (sv_fts s f) \<and> ft_Type (sv_fts s' f) = ft_Type (sv_fts s f) \<and>
     Stats_Get StatDownloadsInProgress (sv_stats s') = Stats_Get StatDownloadsInProgress (sv_stats s) \<and>
     Stats_Get StatUploadsInProgress (sv_stats s') = Stats_Get StatUploadsInProgress (sv_stats s)"

lemma same_transfers_refl [simp]: "same_transfers f s s"
  by (simp add: same_transfers_def)

lemma begin_finish:
  assumes "\<forall>k. 0 \<le> Stats_Get k (sv_stats s)"
  shows "same_transfers f s (finish_transfer ty (upd_ft f (\<lambda>ft. ft\<lparr>ft_sent := n\<rparr>) (begin_transfer ty s\<lparr>sv_files := fs\<rparr>)))"
proof -
  have "0 \<le> Stats_Get k (sv_stats s)" for k using assms by simp
  then show ?thesis
    by (simp add: same_transfers_def begin_transfer_def finish_transfer_def transfer_stats_def upd_ft_def Stats_Increment_def
        Stats_Decrement_def Stats_Get_def)
qed

lemma run_transfer_keeps:
  assumes "\<forall>k. 0 \<le> Stats_Get k (sv_stats s)"
  shows "same_transfers f s (snd (snd (run_transfer x f cs room s)))"
  using begin_finish[OF assms] by (auto simp: run_transfer_def Let_def split: outcome.split prod.split)


section \<open>Examples\<close>

text \<open>The folder \<^verbatim>\<open>/up\<close> with a file \<^verbatim>\<open>a\<close>, and one with a partial file \<^verbatim>\<open>b.incomplete\<close>.\<close>

definition demo_files :: "bytes \<Rightarrow> filesystem" where
  "demo_files n = \<lparr>fs_nodes = [([go_str ''up''], Dir 0), ([go_str ''up'', n], Reg [1, 2, 3] 0)], fs_cwd = [], fs_now = 9,
     fs_dirsize = \<lambda>_. 0, fs_oracle = \<lambda>_. None\<rparr>"

definition demo_xfer :: "bytes list \<Rightarrow> bytes \<Rightarrow> xfer" where
  "demo_xfer cs n = \<lparr>xf_in = cs, xf_out = [], xf_room = None, xf_files = demo_files n, xf_sent = 0\<rparr>"

lemma demo_in_dir: "in_dir [go_str ''up''] (demo_files n)"
  by (simp add: in_dir_def quiet_def demo_files_def real_dir_def is_dir_def good_seg_def plain_seg_def go_str_def)

lemma demo_get: "fs_get (demo_files n) ([go_str ''up''] @ [m]) = (if m = n then Some (Reg [1, 2, 3] 0) else None)"
  "fs_get (demo_files n) [go_str ''up'', m] = (if m = n then Some (Reg [1, 2, 3] 0) else None)"
  by (simp_all add: demo_files_def)

lemma demo_plain_name:
  assumes "good_seg m" "length m < 65462" "InfoForkName m \<noteq> n" shows "plain_name [go_str ''up''] m (demo_files n)"
  using assms unfolding plain_name_def demo_get by (simp add: demo_in_dir)

lemma demo_names: "good_seg [97]" "good_seg [98]" "good_seg (go_str ''a.incomplete'')"
  by (simp_all add: good_seg_def plain_seg_def go_str_def)

lemma names_differ: "InfoForkName [97] \<noteq> [97]" "RsrcForkName [97] \<noteq> [97]" "InfoForkName [98] \<noteq> [97]" "[98] @ IncompleteFileSuffix \<noteq> [97]"
  "InfoForkName [97] \<noteq> [97] @ IncompleteFileSuffix" "[97] \<noteq> [97] @ IncompleteFileSuffix"
  by (simp_all add: InfoForkName_def RsrcForkName_def IncompleteFileSuffix_def go_str_def)


theorem download_upload_roundtrip_witness:
  "\<exists>r c1. DownloadHandler (x_calendar demo_externals) (abs_path ([go_str ''up''] @ [[97]])) nil_transfer (demo_xfer [] [97]) = (r, c1) \<and> r = Ok () \<and>
     (\<exists>c' t. UploadHandler (x_calendar demo_externals) False (abs_path ([go_str ''up''] @ [[98]])) (demo_xfer [xf_out c1] [97]) = (Ok (), c') \<and>
       fs_get (xf_files c') ([go_str ''up''] @ [[98]]) = Some (Reg [1, 2, 3] t))"
proof -
  let ?ca = "x_calendar demo_externals"
  obtain r c1 where d: "DownloadHandler ?ca (abs_path ([go_str ''up''] @ [[97]])) nil_transfer
      \<lparr>xf_in = [], xf_out = [], xf_room = None, xf_files = demo_files [97], xf_sent = 0\<rparr> = (r, c1)"
    by (cases "DownloadHandler ?ca (abs_path ([go_str ''up''] @ [[97]])) nil_transfer
      \<lparr>xf_in = [], xf_out = [], xf_room = None, xf_files = demo_files [97], xf_sent = 0\<rparr>")
  have "r = Ok () \<and> (\<exists>c' t. UploadHandler ?ca False (abs_path ([go_str ''up''] @ [[98]])) (demo_xfer [xf_out c1] [97]) = (Ok (), c') \<and>
       fs_get (xf_files c') ([go_str ''up''] @ [[98]]) = Some (Reg [1, 2, 3] t))"
  proof (rule download_upload_roundtrip[OF _ _ _ _ _ _ _ _ _ d])
    show "plain_name [go_str ''up''] [97] (demo_files [97])" using demo_plain_name demo_names names_differ by simp
    show "plain_name [go_str ''up''] [98] (xf_files (demo_xfer [xf_out c1] [97]))"
      using demo_plain_name demo_names names_differ by (simp add: demo_xfer_def)
  qed (use names_differ in \<open>simp_all add: demo_get demo_xfer_def nil_transfer_def\<close>)
  then show ?thesis using d by (simp add: demo_xfer_def)
qed

theorem truncated_resume_becomes_final_witness:
  "case upload_file_item (x_calendar demo_externals) False (abs_path [go_str ''up'']) [97] (demo_xfer [[0, 0, 0, 9], [7]] ([97] @ IncompleteFileSuffix)) of
     (res, c') \<Rightarrow> res = Ok () \<and> (\<exists>t. fs_get (xf_files c') ([go_str ''up''] @ [[97]]) = Some (Reg [1, 2, 3] t))"
proof -
  let ?n = "[97] @ IncompleteFileSuffix" and ?c = "demo_xfer [[0, 0, 0, 9], [7]] ([97] @ IncompleteFileSuffix)"
  have r: "read_full 4 (xf_in ?c) = Ok ([0, 0, 0, 9], [[7]])"
    "receiveFile [[7]] = (\<lparr>rv_info = [], rv_data = [], rv_rsrc = [], rv_counted = 0\<rparr>, Err UnexpectedEOF)"
    by (simp_all add: demo_xfer_def receiveFile_def ffo_ReadFrom_def)
  have "in_dir [go_str ''up''] (xf_files ?c)" "fs_get (xf_files ?c) ([go_str ''up''] @ [[97]]) = None"
    "fs_get (xf_files ?c) ([go_str ''up''] @ [?n]) = Some (Reg [1, 2, 3] 0)" "xf_room ?c = None"
    using demo_in_dir by (simp_all add: demo_xfer_def demo_get)
  from truncated_resume_becomes_final[OF this(1) _ demo_names(1) this(2-4) r, of "x_calendar demo_externals"]
  show ?thesis by auto
qed


text \<open>The guest of the small server is given the transfer number 0, and connects with it twice.\<close>

definition demo_transfer_server :: server where
  "demo_transfer_server = snd (NewFileTransfer 0 FileDownload [47] (Some [97]) None None (wo_server demo_logged_in))"

definition demo_preamble :: bytes where
  "demo_preamble = [72, 84, 88, 70] @ replicate 12 0"

definition transfer_facts :: "server \<Rightarrow> bool" where
  "transfer_facts s \<longleftrightarrow> FileTransferMgr_Get 0 s = Some 0 \<and> list_all (\<lambda>(k, v). 0 \<le> v) (sv_stats s)"

lemma demo_transfer_facts: "transfer_facts demo_transfer_server"
  by code_simp

lemma demo_preamble_read:
  "transfer_Write demo_preamble = Ok (16, \<lparr>tf_Protocol = 0x48545846, tf_ReferenceNumber = 0, tf_DataSize = 0, tf_RSVD = 0\<rparr>)"
  by code_simp


end
