(* ===== verification/HL_Confinement.thy ===== *)
theory HL_Confinement
  imports HL_Transfers HL_Small_Server "HOL-Library.Sublist"
begin

text \<open>
  What clients change in the shared files stays inside their file root.  The first part gives the locations
  that count as inside and shows that the system calls keep to them as long as the links inside do; the
  second turns the paths of a request into such locations; the last interprets the policy of
  \<^verbatim>\<open>HL_Handler_Effects\<close> with it, for every handler of the table.
\<close>

section \<open>Paths inside a root\<close>

text \<open>
  \<open>R\<close> is the location of the root.  The forks of the root itself lie beside it.
\<close>

definition fork_names :: "bytes \<Rightarrow> bytes list" where
  "fork_names n = [InfoForkName n, RsrcForkName n, n @ IncompleteFileSuffix]"

definition in_root :: "bytes list \<Rightarrow> bytes list \<Rightarrow> bool" where
  "in_root R q \<longleftrightarrow> below R q \<or> list_ex (\<lambda>n. below (butlast R @ [n]) q) (fork_names (last R))"

definition path_in :: "bytes list \<Rightarrow> bytes \<Rightarrow> bool" where
  "path_in R p \<longleftrightarrow> rooted p \<and> dotdot \<notin> set (fs_segs p) \<and> in_root R (fs_segs p)"

lemma below_prefix: "below q p = prefix q p"
  by (auto simp: below_def take_is_prefix elim!: prefixE) (metis take_is_prefix)

lemma in_root_prefix: "in_root R q \<longleftrightarrow> prefix R q \<or> (\<exists>n \<in> set (fork_names (last R)). prefix (butlast R @ [n]) q)"
  by (simp add: in_root_def below_prefix list_ex_iff)

lemma in_root_append: "in_root R q \<Longrightarrow> in_root R (q @ r)"
  by (auto simp: in_root_prefix intro: prefix_prefix)

text \<open>On the way to the inside one passes proper prefixes of the root only.\<close>

lemma in_root_split: "in_root R (p @ r) \<Longrightarrow> in_root R p \<or> (below p R \<and> p \<noteq> R)"
  by (cases R rule: rev_cases) (auto simp: in_root_prefix below_prefix prefix_append append_eq_append_conv2 Cons_eq_append_conv)

lemma in_root_not_prefix: "in_root R q \<Longrightarrow> below q R \<Longrightarrow> q = R"
proof (cases R rule: rev_cases)
  case (snoc ys y)
  assume q: "in_root R q" "below q R"
  have "\<not> prefix q ys" using q(1) snoc by (auto simp: in_root_prefix dest!: prefix_length_le)
  then show ?thesis using q(2) by (simp add: snoc below_prefix)
qed (simp add: below_prefix)

section \<open>Links inside a root\<close>

definition good_entry :: "bytes list \<Rightarrow> bytes list \<times> node \<Rightarrow> bool" where
  "good_entry R e = (case snd e of
     Link t \<Rightarrow> (in_root R (fst e) \<longrightarrow> path_in R t) \<and> (below (fst e) R \<longrightarrow> fst e = R)
   | _ \<Rightarrow> True)"

definition links_inside :: "bytes list \<Rightarrow> filesystem \<Rightarrow> bool" where
  "links_inside R fs \<longleftrightarrow> list_all (good_entry R) (fs_nodes fs)"

lemma walk_stays:
  assumes good: "\<And>q t. m q = Some (Link t) \<Longrightarrow> good_entry R (q, Link t)"
  shows "walk n m follow base rest = Inr q \<Longrightarrow> dotdot \<notin> set rest \<Longrightarrow> in_root R (base @ rest) \<Longrightarrow> in_root R q"
  using good
proof (induction n m follow base rest rule: walk.induct)
  case (2 n m follow base c rest)
  note [simp] = "2.prems"(2)
  have c: "c \<noteq> dotdot" "dotdot \<notin> set rest" using "2.prems"(2) by auto
  have r: "in_root R ((base @ [c]) @ rest)" using "2.prems"(3) by simp
  show ?case
  proof (cases "m (base @ [c])")
    case None
    then show ?thesis using "2.prems" c by (auto split: if_splits)
  next
    case (Some v)
    show ?thesis
    proof (cases v)
      case (Dir t)
      then show ?thesis using 2 Some c by auto
    next
      case (Reg b t)
      then show ?thesis using "2.prems" Some c by (auto split: if_splits)
    next
      case (Link t)
      have g: "good_entry R (base @ [c], Link t)" using "2.prems"(4) Some Link by blast
      show ?thesis
      proof (cases "rest = [] \<and> \<not> follow")
        case True
        then show ?thesis using "2.prems" Some Link c by auto
      next
        case nf: False
        then obtain k where k: "n = Suc k" using "2.prems"(1) Some Link c by (cases n) auto
        have t: "path_in R t" using g in_root_split[OF r] by (auto simp: good_entry_def)
        then have "in_root R ([] @ fs_segs t @ rest)" "dotdot \<notin> set (fs_segs t @ rest)" "rooted t"
          using c by (auto simp: path_in_def in_root_append)
        then show ?thesis using "2.IH"(3)[OF c(1) Some Link nf k] "2.prems"(1,4) nf Some Link c k by auto
      qed
    qed
  qed
qed auto

section \<open>Operations that change files inside a root only\<close>

definition kept :: "bytes list \<Rightarrow> nodes \<Rightarrow> nodes \<Rightarrow> bool" where
  "kept R m m' \<longleftrightarrow> (list_all (good_entry R) m \<longrightarrow>
     list_all (good_entry R) m' \<and> (\<forall>q. \<not> in_root R q \<longrightarrow> map_of m' q = map_of m q))"

definition stays :: "bytes list \<Rightarrow> filesystem \<Rightarrow> filesystem \<Rightarrow> bool" where
  "stays R fs fs' \<longleftrightarrow> kept R (fs_nodes fs) (fs_nodes fs')"

lemma kept_refl [simp]: "kept R m m"
  by (simp add: kept_def)

lemma kept_trans: "kept R m1 m2 \<Longrightarrow> kept R m2 m3 \<Longrightarrow> kept R m1 m3"
  by (simp add: kept_def)

lemma kept_put: "in_root R q \<Longrightarrow> (\<And>t. v = Link t \<Longrightarrow> path_in R t) \<Longrightarrow> kept R m (mput q v m)"
proof -
  assume q: "in_root R q" and v: "\<And>t. v = Link t \<Longrightarrow> path_in R t"
  have "good_entry R (q, v)" using q v in_root_not_prefix by (auto simp: good_entry_def split: node.split)
  then have "list_all (good_entry R) m \<Longrightarrow> list_all (good_entry R) (mput q v m)"
    by (induction m) auto
  then show ?thesis using q by (auto simp: kept_def)
qed

lemma kept_filter: "(\<And>e. \<not> Q e \<Longrightarrow> in_root R (fst e)) \<Longrightarrow> kept R m (filter Q m)"
proof -
  assume Q: "\<And>e. \<not> Q e \<Longrightarrow> in_root R (fst e)"
  have "map_of (filter Q m) q = map_of m q" if "\<not> in_root R q" for q
    using that Q by (induction m) auto
  then show ?thesis by (auto simp: kept_def list_all_iff)
qed

lemma kept_del: "in_root R q \<Longrightarrow> kept R m (mdel q m)"
  unfolding AList.delete_eq by (rule kept_filter) (auto split: prod.splits)

lemma kept_move:
  assumes "in_root R q" "in_root R r"
  shows "kept R m (map (\<lambda>e. if below q (fst e) then (r @ drop (length q) (fst e), snd e) else e) m)"
proof -
  let ?g = "\<lambda>e. if below q (fst e) then (r @ drop (length q) (fst e), snd e) else e"
  have src: "in_root R l" if "below q l" for l
    using that assms(1) in_root_append[of R q "drop (length q) l"] by (auto simp: below_def) (metis append_take_drop_id)
  have dst: "in_root R (r @ l)" for l using assms(2) by (rule in_root_append)
  have "good_entry R (?g e)" if "good_entry R e" for e
    using that src[of "fst e"] dst in_root_not_prefix[OF dst] by (auto simp: good_entry_def split: node.splits)
  moreover have "map_of (map ?g m) l = map_of m l" if "\<not> in_root R l" for l
    using that src dst by (induction m) auto
  ultimately show ?thesis unfolding kept_def list_all_iff set_map by blast
qed

lemma resolve_stays:
  "list_all (good_entry R) (fs_nodes fs) \<Longrightarrow> path_in R p \<Longrightarrow> fs_resolve follow p fs = Inr q \<Longrightarrow> in_root R q"
  by (rule walk_stays[of "fs_get fs" R 40 follow "[]" "fs_segs p"])
    (auto simp: path_in_def fs_resolve_def list_all_iff dest: map_of_SomeD split: if_splits)

lemma stays_at:
  assumes p: "path_in R p" and f: "\<And>q fs. in_root R q \<Longrightarrow> stays R fs (snd (f q fs))"
  shows "stays R fs (snd (fs_at follow p f fs))"
proof -
  have "kept R (fs_nodes fs) (fs_nodes (snd (fs_at follow p f fs)))" if "list_all (good_entry R) (fs_nodes fs)"
    using that f[unfolded stays_def, of _ "fs_tick fs"] resolve_stays[of R "fs_tick fs" p follow] p
    by (auto simp: fs_at_def fs_call_def reads split: option.split sum.split)
  then show ?thesis by (simp add: stays_def kept_def)
qed

lemma stays_refl [simp]: "stays R fs fs"
  by (simp add: stays_def)

lemma stays_trans: "stays R f1 f2 \<Longrightarrow> stays R f2 f3 \<Longrightarrow> stays R f1 f3"
  unfolding stays_def by (rule kept_trans)

lemma stays_reads: "fs_nodes fs' = fs_nodes fs \<Longrightarrow> stays R fs fs'"
  by (simp add: stays_def)

named_theorems stay

lemma stays_Mkdir [stay]: "path_in R p \<Longrightarrow> stays R fs (snd (FS_Mkdir p fs))"
  unfolding FS_Mkdir_def by (rule stays_at) (auto simp: stays_def fs_put_def intro: kept_put)

lemma stays_Symlink [stay]: "path_in R t \<Longrightarrow> path_in R p \<Longrightarrow> stays R fs (snd (FS_Symlink t p fs))"
  unfolding FS_Symlink_def by (rule stays_at) (auto simp: stays_def fs_put_def intro: kept_put)

lemma stays_Remove [stay]: "path_in R p \<Longrightarrow> stays R fs (snd (FS_Remove p fs))"
  unfolding FS_Remove_def by (rule stays_at) (auto simp: stays_def intro: kept_del)

lemma stays_RemoveAll [stay]: "path_in R p \<Longrightarrow> stays R fs (snd (FS_RemoveAll p fs))"
proof -
  assume p: "path_in R p"
  have "in_root R l" if "in_root R q" "below q l" for q l
    using that in_root_append[of R q "drop (length q) l"] by (auto simp: below_def) (metis append_take_drop_id)
  then have "kept R (fs_nodes fs) (fs_nodes (snd (FS_RemoveAll p fs)))" if "list_all (good_entry R) (fs_nodes fs)"
    using that resolve_stays[of R "fs_tick fs" p False] p
    by (auto simp: FS_RemoveAll_def fs_call_def reads intro!: kept_filter split: option.split sum.split)
  then show ?thesis by (simp add: stays_def kept_def)
qed

lemma stays_Rename [stay]: "path_in R p \<Longrightarrow> path_in R p' \<Longrightarrow> stays R fs (snd (FS_Rename p p' fs))"
  unfolding FS_Rename_def
proof (rule stays_at)
  fix q fs assume p': "path_in R p'" and q: "in_root R q"
  let ?fs = "snd (case if q = [] then None else fs_get fs q of None \<Rightarrow> (Inl NotExist, fs)
      | Some v \<Rightarrow> (case fs_resolve False p' fs of Inl e \<Rightarrow> (Inl e, fs)
          | Inr r \<Rightarrow> if r = [] \<or> is_dir (fs_get fs r) then (Inl (Msg ''file exists''), fs)
               else if r = q then (Inr (), fs)
               else if is_dir (Some v) \<and> fs_get fs r \<noteq> None then (Inl (Msg ''not a directory''), fs)
               else if below q r then (Inl (Msg ''invalid argument''), fs)
               else (Inr (), fs\<lparr>fs_nodes := map (\<lambda>e. if below q (fst e) then (r @ drop (length q) (fst e), snd e) else e)
                   (mdel r (fs_nodes fs))\<rparr>)))"
  have "kept R (fs_nodes fs) (map (\<lambda>e. if below q (fst e) then (r @ drop (length q) (fst e), snd e) else e) (mdel r (fs_nodes fs)))"
    if "in_root R r" for r
    by (rule kept_trans[OF kept_del[OF that] kept_move[OF q that]])
  then have "kept R (fs_nodes fs) (fs_nodes ?fs)" if "list_all (good_entry R) (fs_nodes fs)"
    using resolve_stays[OF that p', of False] by (auto split: option.split sum.split)
  then show "stays R fs ?fs" by (simp add: stays_def kept_def)
qed

lemma OpenWrite_inside:
  assumes p: "path_in R p" and o: "FS_OpenWrite tr p fs = (v, fs')"
  shows "stays R fs fs'" "links_inside R fs \<Longrightarrow> v = Inr q \<Longrightarrow> in_root R q"
proof -
  have "stays R fs (snd (FS_OpenWrite tr p fs))"
    unfolding FS_OpenWrite_def by (rule stays_at[OF p]) (auto simp: stays_def fs_put_def intro: kept_put split: option.split node.split)
  then show "stays R fs fs'" by (simp add: o)
  show "links_inside R fs \<Longrightarrow> v = Inr q \<Longrightarrow> in_root R q"
    using o resolve_stays[OF _ p, of "fs_tick fs"]
    by (auto simp: FS_OpenWrite_def fs_at_def fs_call_def links_inside_def reads split: option.splits sum.splits node.splits if_splits)
qed

lemma stays_Append: "in_root R q \<Longrightarrow> stays R fs (snd (FS_Append q b fs))"
  by (auto simp: FS_Append_def fs_call_def stays_def reads fs_put_def intro!: kept_put split: option.split node.split)

lemma stays_Overwrite: "in_root R q \<Longrightarrow> stays R fs (snd (FS_Overwrite q b fs))"
  by (auto simp: FS_Overwrite_def fs_call_def stays_def reads fs_put_def intro!: kept_put split: option.split node.split)

section \<open>The paths of a client\<close>

text \<open>\<open>clean_in R p\<close>: a cleaned absolute path at or below the root.\<close>

definition clean_in :: "bytes list \<Rightarrow> bytes \<Rightarrow> bool" where
  "clean_in R p \<longleftrightarrow> rooted p \<and> path_Clean p = p \<and> below R (path_segs p)"

definition no_climb :: "bytes \<Rightarrow> bool" where
  "no_climb n \<longleftrightarrow> dotdot \<notin> set (split_slash n)"

lemma clean_segs:
  assumes "rooted p" "path_Clean p = p"
  shows "fs_segs p = path_segs p" "split_slash p = [[]] @ (if path_segs p = [] then [[]] else path_segs p)"
proof -
  show s: "split_slash p = [[]] @ (if path_segs p = [] then [[]] else path_segs p)"
    using split_Clean[of p] assms by simp
  have "filter (\<lambda>s. s \<noteq> [] \<and> s \<noteq> dot) (path_segs p) = path_segs p"
    using path_segs_plain[OF assms(1)] by (auto simp: plain_seg_def intro!: filter_True)
  then show "fs_segs p = path_segs p" by (simp add: fs_segs_def s)
qed

lemma path_in_clean: "rooted p \<Longrightarrow> path_Clean p = p \<Longrightarrow> in_root R (path_segs p) \<Longrightarrow> path_in R p"
  using path_segs_plain[of p] by (auto simp: path_in_def clean_segs plain_seg_def)

lemma clean_in_path: "clean_in R p \<Longrightarrow> path_in R p"
  by (rule path_in_clean) (auto simp: clean_in_def in_root_def)

lemma join_name:
  assumes d: "rooted d" and n: "no_climb n"
  shows "rooted (path_Join [d, n])" "path_Clean (path_Join [d, n]) = path_Join [d, n]"
    "path_segs (path_Join [d, n]) = path_segs d @ filter plain_seg (split_slash n)"
proof -
  have ne: "d \<noteq> []" using d by (auto simp: rooted_def)
  then have j: "path_Join [d, n] = path_Clean (d @ slash # n)" by (simp add: path_Join_def)
  have r: "rooted (d @ slash # n)" using d ne by (cases d) (auto simp: rooted_def)
  show "rooted (path_Join [d, n])" using r by (simp add: j)
  show "path_Clean (path_Join [d, n]) = path_Join [d, n]" by (simp add: j path_Clean_idem)
  show "path_segs (path_Join [d, n]) = path_segs d @ filter plain_seg (split_slash n)"
    unfolding j path_segs_Clean using d r n
    by (simp add: path_segs_def split_slash_append fold_clean_no_dotdot no_climb_def)
qed

lemma clean_in_join: "clean_in R d \<Longrightarrow> no_climb n \<Longrightarrow> clean_in R (path_Join [d, n])"
  using join_name[of d n] by (auto simp: clean_in_def below_prefix intro: prefix_prefix)

lemma not_dotdot: "2 < length a \<Longrightarrow> dotdot \<noteq> a @ n" "2 < length a \<Longrightarrow> dotdot \<noteq> n @ a"
  by (auto dest: arg_cong[of _ _ length])

lemma no_climb_prefix: "slash \<notin> set a \<Longrightarrow> 2 < length a \<Longrightarrow> no_climb n \<Longrightarrow> no_climb (a @ n)"
  by (cases "split_slash n") (auto simp: no_climb_def split_slash_prefix not_dotdot)

lemma split_slash_suffix: "slash \<notin> set a \<Longrightarrow> split_slash (n @ a) = butlast (split_slash n) @ [last (split_slash n) @ a]"
proof (induction n)
  case (Cons c n)
  obtain s ss where "split_slash n = s # ss" by (cases "split_slash n") auto
  then show ?case using Cons by (cases ss) auto
qed (simp add: split_slash_no_slash)

lemma no_climb_suffix: "slash \<notin> set a \<Longrightarrow> 2 < length a \<Longrightarrow> no_climb n \<Longrightarrow> no_climb (n @ a)"
  by (auto simp: no_climb_def split_slash_suffix not_dotdot dest: in_set_butlastD)

lemma fork_parts:
  "slash \<notin> set (go_str ''.info_'')" "slash \<notin> set (go_str ''.rsrc_'')" "slash \<notin> set IncompleteFileSuffix"
  "2 < length (go_str ''.info_'')" "2 < length (go_str ''.rsrc_'')" "2 < length IncompleteFileSuffix"
  by (simp_all add: go_str_def IncompleteFileSuffix_def)

lemma no_climb_forks: "no_climb n \<Longrightarrow> m \<in> set (fork_names n) \<Longrightarrow> no_climb m"
  using no_climb_prefix[OF fork_parts(1,4)] no_climb_prefix[OF fork_parts(2,5)] no_climb_suffix[OF fork_parts(3,6)]
  by (auto simp: fork_names_def InfoForkName_def RsrcForkName_def)

lemma split_fork:
  assumes "slash \<notin> set n" "m \<in> set (fork_names n)"
  shows "filter plain_seg (split_slash m) = [m]"
proof -
  have "slash \<notin> set m" using assms fork_parts by (auto simp: fork_names_def InfoForkName_def RsrcForkName_def)
  moreover have "2 < length m" using assms fork_parts by (auto simp: fork_names_def InfoForkName_def RsrcForkName_def)
  then have "plain_seg m" by (auto simp: plain_seg_def)
  ultimately show ?thesis by (simp add: split_slash_no_slash)
qed

text \<open>The directory and the name of a clean path.\<close>

lemma split_last: "\<exists>pre. p = pre @ last (split_slash p) \<and> split_slash pre = butlast (split_slash p) @ [[]]"
proof (induction p)
  case (Cons c p)
  then obtain pre where pre: "p = pre @ last (split_slash p)" "split_slash pre = butlast (split_slash p) @ [[]]" by blast
  obtain s ss where s: "split_slash p = s # ss" by (cases "split_slash p") auto
  show ?case
  proof (cases "c = slash")
    case True
    then show ?thesis using pre s by (intro exI[of _ "c # pre"]) (auto split: if_splits)
  next
    case False
    show ?thesis
    proof (cases "ss = []")
      case True
      then have "pre = []" using pre(2) s by (cases pre) (auto split: if_splits)
      then show ?thesis using pre s True False by (intro exI[of _ "[]"]) simp
    qed (use pre s False in \<open>intro exI[of _ "c # pre"], auto\<close>)
  qed
qed simp

lemma dir_base:
  assumes p: "rooted p" "path_Clean p = p"
  shows "rooted (filepath_Dir p)" "path_segs (filepath_Dir p) = butlast (path_segs p)" "no_climb (filepath_Base p)"
    "path_segs p \<noteq> [] \<Longrightarrow> filepath_Base p = last (path_segs p) \<and> slash \<notin> set (filepath_Base p)"
proof -
  let ?S = "path_segs p"
  note sp = clean_segs(2)[OF p]
  have plain: "plain_seg n \<and> slash \<notin> set n" if "n \<in> set ?S" for n
    using that path_segs_plain[OF p(1)] path_segs_no_slash by blast
  obtain pre where pre: "p = pre @ last (split_slash p)" "split_slash pre = butlast (split_slash p) @ [[]]"
    using split_last by blast
  have bl: "butlast (split_slash p) = [] # butlast ?S" unfolding sp by (cases "?S = []") auto
  have take_pre: "take (length p - length (last (split_slash p))) p = pre"
    using pre(1) by (metis append_eq_conv_conj append_same_eq diff_add_inverse2 length_append)
  have pr: "rooted pre" using pre(2) bl by (cases pre) (auto simp: rooted_def split: if_splits)
  have "path_segs pre = butlast ?S"
    unfolding path_segs_def[of pre] pre(2) bl using pr plain[THEN conjunct1, OF in_set_butlastD]
    by (subst fold_clean_no_dotdot) (auto simp: plain_seg_def intro!: filter_True)
  then show "rooted (filepath_Dir p)" "path_segs (filepath_Dir p) = butlast ?S"
    using pr by (simp_all add: filepath_Dir_def take_pre path_segs_Clean)
  show base: "filepath_Base p = last ?S \<and> slash \<notin> set (filepath_Base p)" if S: "?S \<noteq> []"
  proof -
    have l: "last (split_slash p) = last ?S" using sp S by simp
    have "last ?S \<noteq> []" "slash \<notin> set (last ?S)" using plain[of "last ?S"] S by (auto simp: plain_seg_def)
    then have "last p \<noteq> slash" "p \<noteq> []" using pre(1) l by (metis last_appendR last_in_set) (use p in \<open>auto simp: rooted_def\<close>)
    then have "rev (dropWhile (\<lambda>c. c = slash) (rev p)) = p" by (cases p rule: rev_cases) auto
    then show ?thesis using l \<open>p \<noteq> []\<close> \<open>slash \<notin> set (last ?S)\<close> by (simp add: filepath_Base_def Let_def)
  qed
  show "no_climb (filepath_Base p)"
  proof (cases "?S = []")
    case True
    then have "p = [slash]" using p by (simp add: path_Clean_def split: if_splits)
    then show ?thesis by (simp add: filepath_Base_def no_climb_def)
  next
    case False
    then show ?thesis using base[OF False] plain[of "last ?S"]
      by (auto simp: no_climb_def split_slash_no_slash plain_seg_def)
  qed
qed

text \<open>The forks of a file of the client, and where they are moved to.\<close>

lemma fork_path_in:
  assumes p: "clean_in R p" and m: "m \<in> set (fork_names (filepath_Base p))"
  shows "path_in R (path_Join [filepath_Dir p, m])"
proof -
  have c: "rooted p" "path_Clean p = p" "below R (path_segs p)" using p by (auto simp: clean_in_def)
  note d = dir_base[OF c(1,2)]
  have nc: "no_climb m" by (rule no_climb_forks[OF d(3) m])
  note j = join_name[OF d(1) nc]
  have "in_root R (path_segs (path_Join [filepath_Dir p, m]))"
  proof (cases "path_segs p = R")
    case True
    show ?thesis
    proof (cases "R = []")
      case False
      have "path_segs (path_Join [filepath_Dir p, m]) = butlast R @ [m]" "m \<in> set (fork_names (last R))"
        using d(4) m split_fork[of "last R" m] False True by (auto simp: j d(2))
      then show ?thesis by (auto simp: in_root_prefix)
    qed (simp add: in_root_def below_def)
  next
    case False
    then have "prefix R (butlast (path_segs p))"
      using c(3) by (cases "path_segs p" rule: rev_cases) (auto simp: below_prefix)
    then show ?thesis by (simp add: in_root_prefix j d(2) prefix_prefix)
  qed
  then show ?thesis by (rule path_in_clean[OF j(1,2)])
qed

lemma file_paths_in:
  assumes "clean_in R p" "file_at p f"
  shows "path_in R (fl_dataPath f)" "path_in R (fl_rsrcPath f)" "path_in R (fl_infoPath f)" "path_in R (fl_incompletePath f)"
  using assms clean_in_path fork_path_in[OF assms(1)] by (auto simp: file_at_def fork_names_def)

lemma target_paths_in:
  assumes "clean_in R d" "no_climb n"
  shows "path_in R (path_Join [d, n])" "path_in R (path_Join [d, InfoForkName n])" "path_in R (path_Join [d, RsrcForkName n])"
    "path_in R (path_Join [d, n @ IncompleteFileSuffix])"
  using clean_in_path[OF clean_in_join[OF assms(1)]] assms(2) no_climb_forks[OF assms(2)] by (auto simp: fork_names_def)

lemma stays_meta: "list_all (\<lambda>g. \<forall>fs. stays R fs (snd (g fs))) gs \<Longrightarrow> stays R fs (snd (meta_calls gs fs))"
proof (induction gs arbitrary: fs)
  case (Cons g gs)
  obtain v fs1 where g: "g fs = (v, fs1)" by fastforce
  have "stays R fs (snd (g fs))" using Cons.prems by simp
  then have "stays R fs fs1" by (simp add: g)
  moreover have "stays R fs1 (snd (meta_calls gs fs1))" using Cons by simp
  ultimately show ?case using g stays_trans by (cases v) auto
qed simp

lemma stays_first:
  assumes "list_all (\<lambda>g. \<forall>fs. stays R fs (snd (g fs))) (g # gs)"
  shows "stays R fs (snd (first_then_meta g gs fs))"
proof -
  obtain v fs1 where g: "g fs = (v, fs1)" by fastforce
  have "stays R fs (snd (g fs))" using assms by simp
  then have "stays R fs fs1" by (simp add: g)
  moreover have "stays R fs1 (snd (meta_calls gs fs1))" using assms by (simp add: stays_meta)
  ultimately show ?thesis using g stays_trans by (cases v) (auto simp: first_then_meta_def)
qed

lemma stays_Delete: "clean_in R p \<Longrightarrow> file_at p f \<Longrightarrow> stays R fs (snd (file_Delete f fs))"
  unfolding file_Delete_def by (rule stays_first) (simp add: stay file_paths_in)

lemma stays_Move:
  "clean_in R p \<Longrightarrow> file_at p f \<Longrightarrow> clean_in R d \<Longrightarrow> no_climb n \<Longrightarrow> stays R fs (snd (file_Move d (f\<lparr>fl_Name := n\<rparr>) fs))"
  unfolding file_Move_def
  by (rule stays_first)
    (simp add: stay file_paths_in target_paths_in file_incompleteDataName_def file_rsrcForkName_def file_infoForkName_def)

lemma stays_open: "clean_in R p \<Longrightarrow> file_at p f \<Longrightarrow> stays R fs (snd (file_InfoForkWriter f fs))"
  unfolding file_InfoForkWriter_def by (rule OpenWrite_inside(1)[OF file_paths_in(3) prod.collapse[symmetric]])

lemma stays_comment:
  assumes "clean_in R p" "file_at p f" "file_InfoForkWriter f fs = (Inr q, fs1)"
  shows "stays R fs (snd (FS_Append q c fs1))"
proof -
  note o = OpenWrite_inside[OF file_paths_in(3)[OF assms(1,2)] assms(3)[unfolded file_InfoForkWriter_def]]
  have "stays R fs (snd (FS_Append q c fs1))" if "links_inside R fs"
    by (rule stays_trans[OF o(1) stays_Append]) (use o(2)[OF that refl] in simp)
  then show ?thesis by (auto simp: stays_def kept_def links_inside_def)
qed

section \<open>No transaction changes files outside the root\<close>

definition plain_decoder :: "(bytes \<Rightarrow> bytes option) \<Rightarrow> bool" where
  "plain_decoder d \<longleftrightarrow> (\<exists>f. charmap f \<and> (\<forall>s. d s = Some (concat (map f s))))"

lemma join_in:
  assumes "under_root root (path_Join es)" "rooted root"
  shows "clean_in (path_segs root) (path_Join es)"
proof -
  have "path_Join es \<noteq> []" using assms by (auto simp: under_root_def rooted_def)
  then have "path_Clean (path_Join es) = path_Join es" by (auto simp: path_Join_def path_Clean_idem)
  then show ?thesis using assms by (auto simp: under_root_def clean_in_def below_prefix)
qed

lemma ReadPath_clean:
  assumes "plain_decoder d" "rooted root" "ReadPath d root a b = Ok p"
  shows "clean_in (path_segs root) p"
proof -
  obtain f where f: "charmap f" "\<forall>s. d s = Some (concat (map f s))" using assms(1) by (auto simp: plain_decoder_def)
  have "root \<noteq> []" using assms(2) by (auto simp: rooted_def)
  from ReadPath_under[OF f this assms(3)] have "under_root root p" .
  moreover obtain es where "p = path_Join es" using assms(3) f(2) by (auto simp: ReadPath_def obind_Ok_iff)
  ultimately show ?thesis using join_in assms(2) by blast
qed

lemma folder_clean:
  assumes "plain_decoder d" "rooted root" "d (sub_path items) = Some m" "d (path_Join [[slash], n]) = Some k"
  shows "clean_in (path_segs root) (path_Join [root, m, k])"
proof -
  obtain f where f: "charmap f" "\<forall>s. d s = Some (concat (map f s))" using assms(1) by (auto simp: plain_decoder_def)
  have "root \<noteq> []" using assms(2) by (auto simp: rooted_def)
  moreover have "dotdot \<notin> set (split_slash m)"
    using assms(3) f decode_keeps_no_dotdot[OF f(1) sub_path_no_dotdot] by auto
  moreover have "dotdot \<notin> set (split_slash (path_Join [[slash], n]))"
    by (simp add: path_Join_def rooted_Clean_no_dotdot rooted_def del: rooted_Clean)
  then have "dotdot \<notin> set (split_slash k)" using assms(4) f decode_keeps_no_dotdot[OF f(1)] by auto
  ultimately show ?thesis using join_in[OF join_under_root] assms(2) by blast
qed

text \<open>The policy that kept clients inside an absolute root, given a character map.\<close>

definition confining :: "externals \<Rightarrow> bytes \<Rightarrow> bool" where
  "confining x root \<longleftrightarrow> plain_decoder (x_decode x) \<and> rooted root"

definition confined_path :: "externals \<Rightarrow> bytes \<Rightarrow> bytes \<Rightarrow> bool" where
  "confined_path x root p \<longleftrightarrow> (confining x root \<longrightarrow> clean_in (path_segs root) p)"

definition confined_change :: "externals \<Rightarrow> bytes \<Rightarrow> filesystem \<Rightarrow> filesystem \<Rightarrow> bool" where
  "confined_change x root fs fs' \<longleftrightarrow> (confining x root \<longrightarrow> stays (path_segs root) fs fs')"

definition confined_name :: "externals \<Rightarrow> bytes \<Rightarrow> bytes \<Rightarrow> bool" where
  "confined_name x root n \<longleftrightarrow> (confining x root \<longrightarrow> no_climb n)"

lemmas confinements = confined_name_def confining_def confined_path_def confined_change_def

interpretation confined: file_policy x "Some root" "confined_path x root" "confined_name x root" "confined_change x root" for x root
proof (unfold_locales, goal_cases)
  case (1 d a b p)
  then show ?case by (auto simp: confinements intro: ReadPath_clean)
next
  case (2 d items m n k)
  then show ?case by (auto simp: confinements intro: folder_clean)
next
  case (3 p)
  then show ?case using dir_base(3) by (auto simp: confinements clean_in_def)
next
  case (8 p f d n fs)
  then show ?case by (auto simp: confinements intro: stays_Move)
next
  case (9 p f fs)
  then show ?case by (auto simp: confinements intro: stays_open)
next
  case (10 p f fs l fs1 c)
  then show ?case by (auto simp: confinements intro: stays_comment)
qed (auto simp: confinements clean_in_path stay stays_Delete)

named_theorems same_files

lemma same_files_ops [same_files]:
  "sv_files (skip_rand n s) = sv_files s" "sv_files (send ts s) = sv_files s" "sv_files (upd_conn c f s) = sv_files s"
  "sv_files (upd_ft i g s) = sv_files s" "sv_files (snd (new_tran ty k fs s)) = sv_files s"
  "sv_files (disconnect_later c s) = sv_files s" "sv_files (snd (on_accounts am s)) = sv_files s"
  "sv_files (snd (on_news nw s)) = sv_files s" "sv_files (snd (ChatMgr_New r s)) = sv_files s"
  "sv_files (ChatMgr_Leave ch m s) = sv_files s"
  by (auto simp: skip_rand_def send_def upd_conn_def upd_ft_def new_tran_def disconnect_later_def on_accounts_def on_news_def
      ChatMgr_New_def ChatMgr_Leave_def split_beta Let_def split: option.split)

lemma same_files_more [same_files]:
  "sv_files (snd (fan_out ty fs rs s)) = sv_files s" "sv_files (snd (NewFileTransfer r k fr fn fp sz s)) = sv_files s"
  by (induction ty fs rs s rule: fan_out.induct)
    (simp_all add: split_beta same_files NewFileTransfer_def FileTransferMgr_Add_def cftm_Add_def Let_def)

lemma same_files_all [same_files]:
  "sv_files (SendAll ty fs s) = sv_files s" "sv_files (Disconnect r s) = sv_files s"
  by (simp_all add: SendAll_def Disconnect_def ClientMgr_Delete_def split_beta same_files Let_def)

lemma effect_stays:
  assumes "effect_in x F r s0 s" and F: "\<And>fs fs'. F fs fs' \<Longrightarrow> stays R fs fs'"
  shows "stays R (sv_files s0) (sv_files s)"
  using assms(1)
proof (induction rule: effect_in.induct)
  case (e_read s fs)
  then show ?case using stays_trans[OF _ stays_reads] by simp
next
  case (e_files s fs)
  then show ?case using stays_trans[OF _ F] by simp
next
  case (e_chat_join i s s')
  then show ?case by (auto simp: ChatMgr_Join_def split: option.splits)
next
  case (e_chat_subject i b s s')
  then show ?case by (auto simp: ChatMgr_SetSubject_def split: option.splits)
next
  case (e_ban ip u s s')
  then show ?case by (auto simp: ban_address_def split: option.splits outcome.splits)
qed (simp_all add: same_files)

lemma handler_stays:
  assumes "plain_decoder (x_decode x)" and root: "FileRoot r s = Some root" "rooted root"
    and n: "\<And>b. tr_Type t = TranSetFileInfo \<Longrightarrow> field_data t FieldFileNewName = Some b \<Longrightarrow> no_climb b"
  shows "stays (path_segs root) (sv_files s) (sv_files (after (handleTransaction (RegisterHandlers x) r t s)))"
proof -
  let ?z = "case RegisterHandlers x (tr_Type t) of None \<Rightarrow> Done s [] | Some h \<Rightarrow> h r t s"
  have c: "confining x root" using assms by (simp add: confining_def)
  obtain f where f: "charmap f" "\<forall>s. x_decode x s = Some (concat (map f s))" using assms(1) by (auto simp: plain_decoder_def)
  have "stays (path_segs root) (sv_files s) (sv_files (after (h r t s)))" if "RegisterHandlers x (tr_Type t) = Some h" for h
  proof (rule effect_stays[OF confined.handler])
    show "RegisterHandlers x (tr_Type t) = Some h" by (rule that)
  next
    fix b m assume "tr_Type t = TranSetFileInfo" "field_data t FieldFileNewName = Some b" "x_decode x b = Some m"
    then show "confined_name x root m"
      using n decode_keeps_no_dotdot[OF f(1), of b] f(2) by (auto simp: confined_name_def no_climb_def)
  qed (use c root in \<open>auto simp: confined_change_def\<close>)
  then have "stays (path_segs root) (sv_files s) (sv_files (after ?z))" by (simp split: option.split)
  then show ?thesis by (cases ?z) (simp_all add: handleTransaction_def Let_def same_files)
qed

text \<open>C4: no transaction changes a file outside the client's file root.  Let the root be absolute, the text
  decoder a character map, and let every symbolic link inside the root point into it.  Then whatever a client
  sends, in whatever state, and even if the handler panics, every file outside the root stays as it is, and
  the links inside still point inside, so this holds for the next transaction too.  Only a new file name
  with a \<^verbatim>\<open>..\<close> element must be excluded: the code does not clean it.  The forks of the root itself, which
  lie beside it, count as inside.\<close>

theorem files_outside_unchanged:
  fixes x r t s root
  defines "s' \<equiv> after (handleTransaction (RegisterHandlers x) r t s)"
  assumes "plain_decoder (x_decode x)" "FileRoot r s = Some root" "rooted root" "links_inside (path_segs root) (sv_files s)"
    and "case field_data t FieldFileNewName of None \<Rightarrow> True | Some n \<Rightarrow> tr_Type t = TranSetFileInfo \<longrightarrow> no_climb n"
  shows "links_inside (path_segs root) (sv_files s') \<and>
    (\<forall>q. \<not> in_root (path_segs root) q \<longrightarrow> fs_get (sv_files s') q = fs_get (sv_files s) q)"
proof -
  have "stays (path_segs root) (sv_files s) (sv_files s')"
    unfolding s'_def by (rule handler_stays) (use assms(2-) in auto)
  then show ?thesis using assms(5) by (simp add: stays_def kept_def links_inside_def)
qed

text \<open>A client with every right, whose root is \<^verbatim>\<open>/srv\<close>; beside the root lies a folder \<^verbatim>\<open>/etc\<close>.\<close>

definition rooted_server :: server where
  "rooted_server = (upd_conn 0 (\<lambda>c. c\<lparr>cl_Account := Some \<lparr>ac_Login = GuestAccount, ac_Name = GuestAccount, ac_Password = [],
       ac_Access = - 1, ac_FileRoot = go_str ''/srv''\<rparr>\<rparr>) (demo_server 0))
     \<lparr>sv_files := \<lparr>fs_nodes = [([go_str ''srv''], Dir 0), ([go_str ''etc''], Dir 0), ([go_str ''srv'', go_str ''a''], Reg [1] 0),
         ([go_str ''srv'', go_str ''l''], Link (go_str ''/srv/a''))],
       fs_cwd = [], fs_now = 0, fs_dirsize = \<lambda>p. 0, fs_oracle = \<lambda>n. None\<rparr>\<rparr>"

definition climbing_folder :: transaction where
  "climbing_folder = NewTransaction 0 TranNewFolder 0 [NewField FieldFileName (go_str ''../x'')]"

lemma rooted_facts:
  "plain_decoder (x_decode demo_externals)" "FileRoot 0 rooted_server = Some (go_str ''/srv'')"
  "links_inside [go_str ''srv''] (sv_files rooted_server)" "path_segs (go_str ''/srv'') = [go_str ''srv'']"
proof -
  have "concat (map (\<lambda>b. [b]) s) = s" for s :: bytes by (induction s) auto
  then show "plain_decoder (x_decode demo_externals)"
    by (auto simp: plain_decoder_def charmap_def demo_externals_def intro!: exI[of _ "\<lambda>b. [b]"])
  show "FileRoot 0 rooted_server = Some (go_str ''/srv'')" by (simp add: FileRoot_def rooted_server_def upd_conn_def go_str_def)
  show "links_inside [go_str ''srv''] (sv_files rooted_server)" by code_simp
  show "path_segs (go_str ''/srv'') = [go_str ''srv'']" by code_simp
qed

theorem files_outside_unchanged_witness:
  "fs_get (sv_files (after (handleTransaction (RegisterHandlers demo_externals) 0 climbing_folder rooted_server))) [go_str ''x''] =
   None"
proof -
  have "field_data climbing_folder FieldFileNewName = None" by code_simp
  moreover have "rooted (go_str ''/srv'')" "\<not> in_root [go_str ''srv''] [go_str ''x'']" by code_simp+
  moreover have "fs_get (sv_files rooted_server) [go_str ''x''] = None" by code_simp
  ultimately show ?thesis
    using files_outside_unchanged[OF rooted_facts(1,2), of climbing_folder] rooted_facts(3,4) by auto
qed

text \<open>The folder is made inside the root; a file renamed to a climbing name leaves it.\<close>

lemma climbing_folder_inside:
  "fs_get (sv_files (after (HandleNewFolder demo_externals 0 climbing_folder rooted_server))) [go_str ''srv'', go_str ''x''] = Some (Dir 0)"
  by code_simp

definition climbing_rename :: transaction where
  "climbing_rename = NewTransaction 0 TranSetFileInfo 0 [NewField FieldFileName (go_str ''a''), NewField FieldFileNewName (go_str ''../etc/x'')]"

theorem rename_escapes:
  "fs_get (sv_files (after (HandleSetFileInfo demo_externals 0 climbing_rename rooted_server))) [go_str ''etc'', go_str ''x''] =
   Some (Reg [1] 0)"
  by code_simp

text \<open>A request to delete that names nothing deletes the root.\<close>

lemma delete_nothing_deletes_root:
  "fs_nodes (sv_files (after (HandleDeleteFile demo_externals 0 (NewTransaction 0 TranDeleteFile 0 []) rooted_server))) =
   [([go_str ''etc''], Dir 0)]"
  by code_simp

end
