(* ===== verification/HL_Confined_Transfers.thy ===== *)
theory HL_Confined_Transfers
  imports HL_Confinement
begin

text \<open>
  The connections to the transfer port change files inside the file root only, folder uploads apart.
\<close>

section \<open>Transfers\<close>

text \<open>
  \<open>within R Q m\<close>: from files whose links are inside the root, \<open>m\<close> changes nothing outside, and a
  result satisfies \<open>Q\<close>.
\<close>

definition within :: "bytes list \<Rightarrow> ('a \<Rightarrow> bool) \<Rightarrow> 'a io \<Rightarrow> bool" where
  "within R Q m \<longleftrightarrow> (\<forall>c. links_inside R (xf_files c) \<longrightarrow>
     stays R (xf_files c) (xf_files (snd (m c))) \<and> (case fst (m c) of Ok v \<Rightarrow> Q v | _ \<Rightarrow> True))"

named_theorems wi

lemma stays_links: "stays R fs fs' \<Longrightarrow> links_inside R fs \<Longrightarrow> links_inside R fs'"
  by (simp add: stays_def kept_def links_inside_def)

lemma within_bind:
  assumes "within R P m" and k: "\<And>v. P v \<Longrightarrow> within R Q (k v)"
  shows "within R Q (io_bind m k)"
  unfolding within_def
proof (intro allI impI)
  fix c :: xfer
  assume c: "links_inside R (xf_files c)"
  obtain v c1 where m: "m c = (v, c1)" by fastforce
  have s: "stays R (xf_files c) (xf_files c1)" "case v of Ok w \<Rightarrow> P w | _ \<Rightarrow> True"
    using assms(1) c m by (auto simp: within_def dest!: spec[of _ c])
  then show "stays R (xf_files c) (xf_files (snd (io_bind m k c))) \<and> (case fst (io_bind m k c) of Ok v \<Rightarrow> Q v | _ \<Rightarrow> True)"
    using k stays_links[OF s(1) c] stays_trans[OF s(1)] by (cases v) (auto simp: io_bind_def m within_def)
qed

lemma within_weaken: "within R P m \<Longrightarrow> (\<And>v. P v \<Longrightarrow> Q v) \<Longrightarrow> within R Q m"
  unfolding within_def by (fastforce split: outcome.splits)

lemma within_quiet:
  "(\<And>c. xf_files (snd (m c)) = xf_files c) \<Longrightarrow> within R (\<lambda>v. True) m"
  by (simp add: within_def split: outcome.split)

lemma within_basic [wi]:
  "Q v \<Longrightarrow> within R Q (io_ret v)" "within R Q (io_fail e)" "within R (\<lambda>v. True) (io_of z)"
  "within R (\<lambda>v. True) (io_write b)" "within R (\<lambda>v. True) (io_read n)" "within R (\<lambda>v. True) (io_send b)"
  by (auto simp: within_def io_ret_def io_fail_def io_of_def io_write_def io_read_def io_send_def io_bind_def
      split: outcome.split option.split prod.split)

lemma within_ignore [wi]: "within R (\<lambda>v. True) m \<Longrightarrow> within R (\<lambda>v. True) (io_ignore m)"
  unfolding within_def by (fastforce simp: io_ignore_def split: outcome.splits prod.splits)

lemma within_try: "(\<And>fs. stays R fs (snd (f fs))) \<Longrightarrow> within R (\<lambda>v. True) (io_try f)"
  by (auto simp: within_def io_try_def split_beta)

lemma within_sys: "(\<And>fs. stays R fs (snd (f fs))) \<Longrightarrow> within R (\<lambda>v. True) (io_sys f)"
  unfolding io_sys_def by (rule within_bind[OF within_try]) (auto simp: wi split: sum.split)

lemma within_read [wi]:
  "(\<And>fs. fs_nodes (snd (f fs)) = fs_nodes fs) \<Longrightarrow> within R (\<lambda>v. True) (io_try f)"
  "(\<And>fs. fs_nodes (snd (g fs)) = fs_nodes fs) \<Longrightarrow> within R (\<lambda>v. True) (io_sys g)"
  by (rule within_try within_sys; simp add: stays_reads)+

lemma within_NewFile [wi]: "within R (file_at p) (io_NewFile ca p)"
  using reads_NewFile[of ca p 0]
  by (auto simp: within_def io_NewFile_def io_bind_def io_try_def io_of_def split_beta intro!: stays_reads split: outcome.split)
    (simp_all add: NewFile_at prod_eq_iff)

abbreviation harmless :: "bytes list \<Rightarrow> 'a io \<Rightarrow> bool" where
  "harmless R \<equiv> within R (\<lambda>v. True)"

lemma harmless_bind [wi]: "harmless R m \<Longrightarrow> (\<And>v. harmless R (k v)) \<Longrightarrow> harmless R (io_bind m k)"
  by (rule within_bind) auto

lemma harmless_NewFile [wi]: "harmless R (io_NewFile ca p)"
  by (rule within_weaken[OF within_NewFile]) simp

lemma reads_header [reads]: "fs_nodes (snd (file_rsrcForkHeader f fs)) = fs_nodes fs"
  by (auto simp: file_rsrcForkHeader_def file_rsrcForkSize_def reads dest!: reads_D split: prod.splits sum.splits)

lemma reads_walks [reads]:
  "fs_nodes (snd (FS_WalkRoot p fs)) = fs_nodes fs" "fs_nodes (snd (FS_Visit l fs)) = fs_nodes fs" "fs_nodes (snd (FS_Names fs)) = fs_nodes fs"
  unfolding FS_WalkRoot_def
  by (rule reads_fs_at; simp split: option.split node.split)
    (simp_all add: FS_Visit_def FS_Names_def fs_call_def reads split: option.split)

lemma harmless_reads [wi]:
  "harmless R (io_try (FS_Stat p))" "harmless R (io_sys (FS_ReadFile p))" "harmless R (io_try (file_rsrcForkHeader f))"
  "harmless R (io_sys (FS_WalkRoot p))" "harmless R (io_sys (FS_Visit l))" "harmless R (io_sys FS_Names)"
  by (rule within_read; simp add: reads)+

section \<open>Downloads\<close>

lemma harmless_download: "harmless R (DownloadHandler ca p ft)"
  by (auto simp: DownloadHandler_def dataForkReader_def rsrcForkFile_def write_rsrcForkHeader_def intro!: wi split: sum.split)

lemma harmless_next_action [wi]: "harmless R (read_next_action b)"
  using within_basic(5)[of R 2]
  by (fastforce simp: within_def read_next_action_def split: prod.splits outcome.splits)

lemma harmless_walk_item [wi]: "harmless R (walk_item ca n first path info a)"
  by (auto simp: walk_item_def send_file_def read_resume_def rsrcForkFile_def write_rsrcForkHeader_def intro!: wi split: sum.split)

lemma harmless_walk_items [wi]: "harmless R (walk_items ca n ps a)"
  by (induction ca n ps a rule: walk_items.induct) (auto intro!: wi)

lemma harmless_folder_download: "harmless R (DownloadFolderHandler ca p)"
  by (auto simp: DownloadFolderHandler_def split_beta intro!: wi)

section \<open>Uploads of files\<close>

lemma within_open: "path_in R p \<Longrightarrow> within R (in_root R) (io_sys (FS_OpenWrite tr p))"
  unfolding within_def
proof (intro allI impI)
  fix c :: xfer
  assume p: "path_in R p" and c: "links_inside R (xf_files c)"
  obtain v fs where o: "FS_OpenWrite tr p (xf_files c) = (v, fs)" by fastforce
  show "stays R (xf_files c) (xf_files (snd (io_sys (FS_OpenWrite tr p) c))) \<and>
      (case fst (io_sys (FS_OpenWrite tr p) c) of Ok v \<Rightarrow> in_root R v | _ \<Rightarrow> True)"
    using OpenWrite_inside(1)[OF p o] OpenWrite_inside(2)[OF p o c]
    by (cases v) (auto simp: io_sys_def io_bind_def io_try_def o io_fail_def io_ret_def)
qed

lemma within_receive: 
  assumes "in_root R q" "case w of None \<Rightarrow> True | Some l \<Rightarrow> in_root R l" "case i of None \<Rightarrow> True | Some l \<Rightarrow> in_root R l"
  shows "harmless R (io_receiveFile q w i)"
proof -
  have w: "harmless R (io_bind (io_append i a) (\<lambda>_. io_bind (io_append (Some q) b) (\<lambda>_.
      io_bind (io_overwrite w d) (\<lambda>_. io_bind (io_of res) (\<lambda>_. io_ret ())))))" for a b d and res :: "'a outcome"
    using assms by (auto simp: io_append_def io_overwrite_def intro!: wi within_sys stays_Append stays_Overwrite split: option.split)
  show ?thesis unfolding within_def
  proof (intro allI impI)
    fix c :: xfer
    assume c: "links_inside R (xf_files c)"
    obtain got res where r: "receiveFile (xf_in c) = (got, res)" by fastforce
    show "stays R (xf_files c) (xf_files (snd (io_receiveFile q w i c))) \<and>
        (case fst (io_receiveFile q w i c) of Ok v \<Rightarrow> True | _ \<Rightarrow> True)"
      using w[unfolded within_def, THEN spec, of "c\<lparr>xf_in := (case res of Ok r \<Rightarrow> r | _ \<Rightarrow> []), xf_sent := xf_sent c + rv_counted got\<rparr>"
          "rv_info got" "rv_data got" "rv_rsrc got" res] c
      by (simp add: io_receiveFile_def r split: outcome.split)
  qed
qed

lemma incomplete_path_in:
  assumes p: "clean_in R p"
  shows "path_in R (p @ IncompleteFileSuffix)"
proof -
  let ?S = "path_segs p" and ?s = IncompleteFileSuffix
  have c: "rooted p" "path_Clean p = p" "prefix R ?S" using p by (auto simp: clean_in_def below_prefix)
  have plain: "plain_seg n" if "n \<in> set ?S" for n using that path_segs_plain[OF c(1)] by blast
  have sp: "split_slash (p @ ?s) = [] # butlast ?S @ [(if ?S = [] then [] else last ?S) @ ?s]"
    unfolding split_slash_suffix[OF fork_parts(3)] clean_segs(2)[OF c(1,2)] by simp
  let ?l = "butlast ?S @ [(if ?S = [] then [] else last ?S) @ ?s]"
  have long: "plain_seg m" if "2 < length m" for m using that by (auto simp: plain_seg_def)
  have "plain_seg n" if "n \<in> set ?l" for n
    using that plain[OF in_set_butlastD] long[of "_ @ ?s"] fork_parts(6) by auto
  then have l: "n \<noteq> [] \<and> n \<noteq> dot \<and> n \<noteq> dotdot" if "n \<in> set ?l" for n using that unfolding plain_seg_def by blast
  have "filter (\<lambda>n. n \<noteq> [] \<and> n \<noteq> dot) ?l = ?l" using l by (intro filter_True) blast
  then have f: "fs_segs (p @ ?s) = ?l" "dotdot \<notin> set (fs_segs (p @ ?s))"
    using l[of dotdot] by (auto simp: fs_segs_def sp simp del: filter_append)
  have "in_root R (fs_segs (p @ ?s))"
  proof (cases "?S = R")
    case True
    then show ?thesis unfolding f(1) by (cases "R = []") (auto simp: in_root_prefix fork_names_def)
  next
    case False
    then have "prefix R (butlast ?S)" using c(3) by (cases ?S rule: rev_cases) auto
    then show ?thesis unfolding f(1) by (simp add: in_root_prefix prefix_prefix)
  qed
  moreover have "rooted (p @ ?s)" using c(1) by (cases p) (auto simp: rooted_def)
  ultimately show ?thesis using f(2) by (simp add: path_in_def)
qed

lemma harmless_upload:
  assumes p: "clean_in R p"
  shows "harmless R (UploadHandler ca keep p)"
proof -
  note inc = incomplete_path_in[OF p]
  have forks: "within R (\<lambda>(a, b). (case a of None \<Rightarrow> True | Some l \<Rightarrow> in_root R l) \<and> (case b of None \<Rightarrow> True | Some l \<Rightarrow> in_root R l))
      (if keep then io_bind (io_sys (file_rsrcForkWriter f)) (\<lambda>rq.
         io_bind (io_sys (file_InfoForkWriter f)) (\<lambda>iq. io_ret (Some rq, Some iq))) else io_ret (None, None))"
    if "file_at p f" for f
    unfolding file_rsrcForkWriter_def file_InfoForkWriter_def
    by (auto intro!: within_basic within_bind[OF within_open] simp: file_paths_in[OF p that])
  show ?thesis unfolding UploadHandler_def
    by (auto intro!: wi within_bind[OF within_open[OF inc]] within_bind[OF within_NewFile] within_bind[OF forks]
        within_receive within_sys stays_Rename inc clean_in_path[OF p] split: sum.split)
qed

section \<open>A connection to the transfer port\<close>

lemma harmless_transfer:
  "clean_in R p \<Longrightarrow> ft_Type ft \<noteq> FolderUpload \<Longrightarrow> harmless R (transfer_io x s ft p)"
  by (auto simp: transfer_io_def Let_def harmless_download harmless_folder_download harmless_upload intro!: wi)

lemma begin_finish_files: "sv_files (begin_transfer ty s) = sv_files s" "sv_files (finish_transfer ty s) = sv_files s"
  by (simp_all add: begin_transfer_def finish_transfer_def split: option.split)

lemma delete_files: "FileTransferMgr_Delete i s = Some s' \<Longrightarrow> sv_files s' = sv_files s"
  by (auto simp: FileTransferMgr_Delete_def Let_def same_files split: option.splits)

lemma run_transfer_stays:
  assumes "plain_decoder (x_decode x)" "rooted root" "ft_FileRoot (sv_fts s f) = root" "ft_Type (sv_fts s f) \<noteq> FolderUpload"
    and links: "links_inside (path_segs root) (sv_files s)"
  shows "stays (path_segs root) (sv_files s) (sv_files (snd (snd (run_transfer x f cs room s))))"
proof -
  have "stays (path_segs root) (sv_files s) (xf_files c)"
    if "ReadPath (x_decode x) root a b = Ok p" "transfer_io x s1 (sv_fts s f) p c0 = (r, c)" "xf_files c0 = sv_files s" for a b p r c c0 s1
    using harmless_transfer[OF ReadPath_clean[OF assms(1,2) that(1)] assms(4), of x s1] that(2,3) links
    by (auto simp: within_def dest!: spec[of _ c0])
  then show ?thesis
    using assms(3) by (auto simp: run_transfer_def Let_def begin_finish_files same_files split: outcome.split prod.split)
qed

text \<open>C5: no transfer changes a file outside its file root, folder uploads apart.  A connection to the
  transfer port names one of the pending transfers.  If these are no folder uploads and their roots are
  \<^verbatim>\<open>root\<close>, then whatever the client sends and however the connection ends, every file outside the root
  stays as it is, and the links inside still point inside.\<close>

theorem transfers_outside_unchanged:
  fixes x cs room s root
  defines "s' \<equiv> snd (snd (handleFileTransfer x cs room s))"
  assumes "plain_decoder (x_decode x)" "rooted root" "links_inside (path_segs root) (sv_files s)"
    and "list_all (\<lambda>(i, f). ft_FileRoot (sv_fts s f) = root \<and> ft_Type (sv_fts s f) \<noteq> FolderUpload) (sv_fileTransfers s)"
  shows "links_inside (path_segs root) (sv_files s') \<and>
    (\<forall>q. \<not> in_root (path_segs root) q \<longrightarrow> fs_get (sv_files s') q = fs_get (sv_files s) q)"
proof -
  have "stays (path_segs root) (sv_files s) (sv_files (snd (snd (run_transfer x f cs' room s))))"
    if "FileTransferMgr_Get i s = Some f" for i f cs'
    using that assms(5) by (intro run_transfer_stays[OF assms(2,3) _ _ assms(4)])
      (auto simp: FileTransferMgr_Get_def list_all_iff dest!: map_of_SomeD)
  then have "stays (path_segs root) (sv_files s) (sv_files s')"
    unfolding s'_def handleFileTransfer_def
    by (auto simp: split_beta delete_files split: option.split outcome.split)
  then show ?thesis using assms(4) by (simp add: stays_def kept_def links_inside_def)
qed

text \<open>An upload to \<^verbatim>\<open>../x\<close>.\<close>

definition climbing_upload :: server where
  "climbing_upload = snd (NewFileTransfer 0 FileUpload (go_str ''/srv'') (Some (go_str ''../x'')) None None rooted_server)"

theorem transfers_outside_unchanged_witness:
  "fs_get (sv_files (snd (snd (handleFileTransfer demo_externals [demo_preamble, [1, 2]] None climbing_upload)))) [go_str ''x''] = None"
proof -
  have "links_inside [go_str ''srv''] (sv_files climbing_upload)" by code_simp
  moreover have "list_all (\<lambda>(i, f). ft_FileRoot (sv_fts climbing_upload f) = go_str ''/srv'' \<and>
      ft_Type (sv_fts climbing_upload f) \<noteq> FolderUpload) (sv_fileTransfers climbing_upload)" by code_simp
  moreover have "rooted (go_str ''/srv'')" "\<not> in_root [go_str ''srv''] [go_str ''x'']"
    "fs_get (sv_files climbing_upload) [go_str ''x''] = None" by code_simp+
  ultimately show ?thesis
    using transfers_outside_unchanged[OF rooted_facts(1), of "go_str ''/srv''" climbing_upload "[demo_preamble, [1, 2]]" None] rooted_facts(4)
    by auto
qed

end
