(* ===== verification/HL_Listener.thy ===== *)
theory HL_Listener
  imports HL_Session Complex_Main
begin

text \<open>
  The listeners of \<^verbatim>\<open>hotline/server.go\<close>: accepting connections, limiting the rate of each address, and
  \<^verbatim>\<open>handleNewConnection\<close> from the first byte of a connection to its end.
\<close>

section \<open>The rate of an address\<close>

text \<open>
  The limiter is \<^verbatim>\<open>golang.org/x/time/rate\<close>, a parameter: \<^verbatim>\<open>NewLimiter\<close> and \<^verbatim>\<open>Allow\<close>, which the code
  calls, and \<^verbatim>\<open>TokensAt\<close>, by which the package describes what they do.  Times are in nanoseconds,
  limits in events per second.
\<close>

record 'l rate_lib =
  rl_NewLimiter :: "rat \<Rightarrow> nat \<Rightarrow> 'l"
  rl_Allow :: "time \<Rightarrow> 'l \<Rightarrow> bool \<times> 'l"
  rl_TokensAt :: "'l \<Rightarrow> time \<Rightarrow> rat"

definition perIPRateLimit :: rat where
  "perIPRateLimit = 1 / 2"

type_synonym 'l limiters = "(bytes, 'l) gmap"

definition limiter_of :: "'l rate_lib \<Rightarrow> bytes \<Rightarrow> 'l limiters \<Rightarrow> 'l" where
  "limiter_of lib ipAddr m = (case map_of m ipAddr of Some rl \<Rightarrow> rl | None \<Rightarrow> rl_NewLimiter lib perIPRateLimit 1)"

definition allow_address :: "'l rate_lib \<Rightarrow> time \<Rightarrow> bytes \<Rightarrow> 'l limiters \<Rightarrow> bool \<times> 'l limiters" where
  "allow_address lib now ipAddr m =
     (case rl_Allow lib now (limiter_of lib ipAddr m) of (ok, rl) \<Rightarrow> (ok, mput ipAddr rl m))"

section \<open>The loop that accepts connections\<close>

text \<open>
  What a round of \<^verbatim>\<open>Serve\<close> meets: the server is shut down, \<^verbatim>\<open>Accept\<close> fails, or a connection comes in
  from an address at a time.  The result are the connections that are handed to \<^verbatim>\<open>handleNewConnection\<close>,
  each in a goroutine of its own; the others are closed.  The limiter is asked at the arrival, and in the
  order of arrivals.
\<close>

datatype accepted = Cancelled | AcceptError | Incoming time bytes

fun Serve :: "'l rate_lib \<Rightarrow> accepted list \<Rightarrow> 'l limiters \<Rightarrow> (time \<times> bytes) list \<times> 'l limiters" where
  "Serve lib [] m = ([], m)"
| "Serve lib (Cancelled # es) m = ([], m)"
| "Serve lib (AcceptError # es) m = Serve lib es m"
| "Serve lib (Incoming now remoteAddr # es) m =
     (case allow_address lib now (split_host remoteAddr) m of
        (ok, m1) \<Rightarrow>
          (case Serve lib es m1 of (hs, m2) \<Rightarrow> (if ok then (now, remoteAddr) # hs else hs, m2)))"

text \<open>
  The port for transfers has no limit, and the first failure of \<^verbatim>\<open>Accept\<close> ends its loop.  \<open>Some\<close> is what a
  connection delivers and how much it takes.
\<close>

fun ServeFileTransfers :: "externals \<Rightarrow> (bytes list \<times> nat option) option list \<Rightarrow> server \<Rightarrow> server" where
  "ServeFileTransfers x [] s = s"
| "ServeFileTransfers x (None # es) s = s"
| "ServeFileTransfers x (Some (cs, room) # es) s =
     ServeFileTransfers x es (snd (snd (handleFileTransfer x cs room s)))"

section \<open>A connection from its first byte to its end\<close>

text \<open>
  A connection that the server has closed delivers nothing more, but what the scanner has read already
  is still handled.
\<close>

definition still_reading :: "nat \<Rightarrow> world \<Rightarrow> scanner \<Rightarrow> scanner" where
  "still_reading r w s =
     (if cl_closed (cc (wo_server w) r) then setErr (Msg ''use of closed network connection'') (s\<lparr>sc_src := []\<rparr>) else s)"

text \<open>
  The loop over the transactions of a session, with fuel; \<open>receive\<close> has ended the session if a
  transaction was bad or its handler panicked.
\<close>

fun session_loop :: "externals \<Rightarrow> session \<Rightarrow> nat \<Rightarrow> scanner \<Rightarrow> world \<Rightarrow> world option" where
  "session_loop x se 0 s w = None"
| "session_loop x se (Suc n) s w =
     (case scan transactionScanner s of
        Ok (True, s1) \<Rightarrow>
          let w1 = receive x se (scan_bytes s1) w in
          if se \<in> set (wo_live w1) then session_loop x se n (still_reading (se_conn se) w1 s1) w1 else Some w1
      | _ \<Rightarrow> Some (close_session se w))"

text \<open>
  \<^verbatim>\<open>handleNewConnection\<close>: the handshake, the first token as the login, and the loop if there is a session.
  A first scan without a token gives an empty login transaction.
\<close>

definition handleNewConnection :: "externals \<Rightarrow> nat \<Rightarrow> bytes \<Rightarrow> bytes list \<Rightarrow> world \<Rightarrow> world option" where
  "handleNewConnection x n remoteAddr cs w =
     (case performHandshake cs of
        Ok (response, r) \<Rightarrow>
          (case scan transactionScanner (NewScanner r) of
             Ok (found, s1) \<Rightarrow>
               let w1 = open_session x remoteAddr (if found then scan_bytes s1 else []) w in
               (case drop (length (wo_live w)) (wo_live w1) of
                  [] \<Rightarrow> Some w1
                | se # _ \<Rightarrow> session_loop x se n (still_reading (se_conn se) w1 s1) w1)
           | _ \<Rightarrow> Some w)
      | _ \<Rightarrow> Some w)"

end
