(* ===== verification/HL_Listener_Guarantees.thy ===== *)
theory HL_Listener_Guarantees
  imports HL_Listener HL_Client_Guarantees
begin

text \<open>
  What the listeners promise: an address gets no more connections than its limit, and each its share;
  and a connection always comes to an end, which leaves no session behind.
\<close>

section \<open>Addresses do not share their limits\<close>

definition address :: "accepted \<Rightarrow> bytes option" where
  "address e = (case e of Incoming now a \<Rightarrow> Some (split_host a) | _ \<Rightarrow> None)"

definition from_address :: "bytes \<Rightarrow> accepted \<Rightarrow> bool" where
  "from_address ip e \<longleftrightarrow> (case e of Incoming now a \<Rightarrow> split_host a = ip | _ \<Rightarrow> True)"

lemma limiter_of_other: "ip \<noteq> ip' \<Longrightarrow> limiter_of lib ip (mput ip' l m) = limiter_of lib ip m"
  by (simp add: limiter_of_def)

lemma limiter_of_put [simp]: "limiter_of lib ip (mput ip l m) = l"
  by (simp add: limiter_of_def)

text \<open>The decisions about one address depend on its own limiter and its own connections only.\<close>

lemma Serve_address:
  "limiter_of lib ip m = limiter_of lib ip m' \<Longrightarrow>
   filter (\<lambda>(t, a). split_host a = ip) (fst (Serve lib es m)) = fst (Serve lib (filter (from_address ip) es) m')"
proof (induction lib es m arbitrary: m' rule: Serve.induct)
  case (4 lib now a es m)
  obtain ok m1 where a: "allow_address lib now (split_host a) m = (ok, m1)" by fastforce
  show ?case
  proof (cases "split_host a = ip")
    case True
    obtain m1' where a': "allow_address lib now (split_host a) m' = (ok, m1')" "limiter_of lib ip m1 = limiter_of lib ip m1'"
      using a 4(2) True by (auto simp: allow_address_def split: prod.splits)
    show ?thesis using "4.IH"[OF a[symmetric] a'(2)] a a' True by (auto simp: from_address_def split_beta)
  next
    case False
    then have "limiter_of lib ip m1 = limiter_of lib ip m'"
      using a 4(2) by (auto simp: allow_address_def limiter_of_other split: prod.splits)
    from "4.IH"[OF a[symmetric] this] show ?thesis using a False by (auto simp: from_address_def split_beta)
  qed
qed (auto simp: from_address_def)

section \<open>The limit of one address\<close>

text \<open>
  What the package documents: a limiter is a bucket of \<open>b\<close> tokens, full at first, that fills at the rate
  \<open>r\<close>; \<^verbatim>\<open>Allow\<close> takes a token if there is one.  The clock of a process does not go back, so only limiters
  asked at arrivals in order matter.
\<close>

inductive used_until :: "'l rate_lib \<Rightarrow> rat \<Rightarrow> nat \<Rightarrow> 'l \<Rightarrow> time \<Rightarrow> bool" for lib :: "'l rate_lib" and r :: rat and b :: nat where
  new: "used_until lib r b (rl_NewLimiter lib r b) t"
| asked: "used_until lib r b l t \<Longrightarrow> t \<le> t' \<Longrightarrow> used_until lib r b (snd (rl_Allow lib t' l)) t'"

definition refill :: "rat \<Rightarrow> time \<Rightarrow> rat" where
  "refill r d = r * of_int d / 1000000000"

definition token_bucket :: "'l rate_lib \<Rightarrow> rat \<Rightarrow> nat \<Rightarrow> bool" where
  "token_bucket lib r b \<longleftrightarrow>
     (\<forall>t. rl_TokensAt lib (rl_NewLimiter lib r b) t = of_nat b) \<and>
     (\<forall>l t0 t t'. used_until lib r b l t0 \<longrightarrow> t0 \<le> t \<longrightarrow> t \<le> t' \<longrightarrow>
        (fst (rl_Allow lib t l) \<longleftrightarrow> 1 \<le> rl_TokensAt lib l t) \<and>
        rl_TokensAt lib (snd (rl_Allow lib t l)) t' =
          min (of_nat b) (rl_TokensAt lib l t - of_bool (fst (rl_Allow lib t l)) + refill r (t' - t)))"

lemma refill_add: "refill r (a + b) = refill r a + refill r b"
  by (simp add: refill_def algebra_simps add_divide_distrib)

lemma refill_pos: "0 \<le> r \<Longrightarrow> 0 \<le> d \<Longrightarrow> 0 \<le> refill r d"
  by (simp add: refill_def)

lemma tokens_grow:
  assumes lib: "token_bucket lib r b" "0 \<le> r" and u: "used_until lib r b l t0" and t: "t0 \<le> t" "t \<le> t'"
  shows "rl_TokensAt lib l t' = min (of_nat b) (rl_TokensAt lib l t + refill r (t' - t))"
  using u
proof cases
  case new
  then show ?thesis using lib(1) refill_pos[OF lib(2), of "t' - t"] t by (simp add: token_bucket_def)
next
  case (asked l0 u)
  define A where "A = rl_TokensAt lib l0 t0 - of_bool (fst (rl_Allow lib t0 l0))"
  have "rl_TokensAt lib l s = min (of_nat b) (A + refill r (s - t0))" if "t0 \<le> s" for s
    using lib(1) asked that unfolding token_bucket_def A_def by blast
  moreover have "refill r (t' - t0) = refill r (t - t0) + refill r (t' - t)" using refill_add[of r "t - t0" "t' - t"] by simp
  ultimately show ?thesis using refill_pos[OF lib(2), of "t' - t"] t by simp
qed

lemma tokens_bounds:
  assumes lib: "token_bucket lib r b" "0 \<le> r" and u: "used_until lib r b l t0"
  shows "t0 \<le> t \<Longrightarrow> 0 \<le> rl_TokensAt lib l t \<and> rl_TokensAt lib l t \<le> of_nat b"
  using u
proof (induction arbitrary: t)
  case (new u)
  then show ?case using lib(1) by (simp add: token_bucket_def)
next
  case (asked l0 u t')
  have e: "rl_TokensAt lib (snd (rl_Allow lib t' l0)) t =
      min (of_nat b) (rl_TokensAt lib l0 t' - of_bool (fst (rl_Allow lib t' l0)) + refill r (t - t'))"
    "fst (rl_Allow lib t' l0) \<longleftrightarrow> 1 \<le> rl_TokensAt lib l0 t'"
    using lib(1) asked unfolding token_bucket_def by blast+
  show ?case using asked.IH[OF asked.hyps(2)] refill_pos[OF lib(2), of "t - t'"] asked.prems unfolding e(1)
    by (cases "fst (rl_Allow lib t' l0)") (auto simp: e(2) min_def)
qed

fun arrivals :: "accepted list \<Rightarrow> time list" where
  "arrivals [] = []"
| "arrivals (Incoming now a # es) = now # arrivals es"
| "arrivals (e # es) = arrivals es"

definition handed :: "bytes \<Rightarrow> (time \<times> bytes) list \<Rightarrow> nat" where
  "handed ip hs = length (filter (\<lambda>(t, a). split_host a = ip) hs)"

lemma handed_Cons [simp]: "handed ip (h # hs) = of_bool (split_host (snd h) = ip) + handed ip hs" "handed ip [] = 0"
  by (auto simp: handed_def split: prod.split)

lemma rate_pos: "0 \<le> perIPRateLimit"
  by (simp add: perIPRateLimit_def)

lemma allow_used:
  assumes "used_until lib perIPRateLimit 1 (limiter_of lib ip m) t0" "t0 \<le> now" "allow_address lib now ip' m = (ok, m1)"
  shows "\<exists>t1. t1 \<in> {t0, now} \<and> used_until lib perIPRateLimit 1 (limiter_of lib ip m1) t1"
proof (cases "ip' = ip")
  case True
  then have "limiter_of lib ip m1 = snd (rl_Allow lib now (limiter_of lib ip m))"
    using assms(3) by (auto simp: allow_address_def split: prod.splits)
  then show ?thesis using used_until.asked[OF assms(1,2)] by auto
next
  case False
  then have "limiter_of lib ip m1 = limiter_of lib ip m"
    using assms(3) by (auto simp: allow_address_def limiter_of_other split: prod.splits)
  then show ?thesis using assms(1) by auto
qed

lemma asked_tokens:
  assumes lib: "token_bucket lib perIPRateLimit 1" and u: "used_until lib perIPRateLimit 1 (limiter_of lib ip m) t0" "t0 \<le> now"
    and a: "allow_address lib now ip m = (ok, m1)"
  shows "ok \<longleftrightarrow> 1 \<le> rl_TokensAt lib (limiter_of lib ip m) now"
    "rl_TokensAt lib (limiter_of lib ip m1) now \<le> rl_TokensAt lib (limiter_of lib ip m) now - of_bool ok"
proof -
  have e: "ok = fst (rl_Allow lib now (limiter_of lib ip m))" "limiter_of lib ip m1 = snd (rl_Allow lib now (limiter_of lib ip m))"
    using a by (auto simp: allow_address_def split: prod.splits)
  show "ok \<longleftrightarrow> 1 \<le> rl_TokensAt lib (limiter_of lib ip m) now"
    using lib u unfolding token_bucket_def e(1) by blast
  have "rl_TokensAt lib (snd (rl_Allow lib now (limiter_of lib ip m))) now =
      min (of_nat 1) (rl_TokensAt lib (limiter_of lib ip m) now - of_bool (fst (rl_Allow lib now (limiter_of lib ip m))) +
        refill perIPRateLimit (now - now))"
    using lib u unfolding token_bucket_def by blast
  then show "rl_TokensAt lib (limiter_of lib ip m1) now \<le> rl_TokensAt lib (limiter_of lib ip m) now - of_bool ok"
    unfolding e by (simp add: refill_def)
qed

lemma tokens_pos:
  "token_bucket lib perIPRateLimit 1 \<Longrightarrow> used_until lib perIPRateLimit 1 l t0 \<Longrightarrow> t0 \<le> t \<Longrightarrow> 0 \<le> rl_TokensAt lib l t"
  by (rule tokens_bounds[OF _ rate_pos, THEN conjunct1])

text \<open>The tokens pay for the connections that are let in.\<close>

lemma Serve_bound:
  "token_bucket lib perIPRateLimit 1 \<Longrightarrow> used_until lib perIPRateLimit 1 (limiter_of lib ip m) t0 \<Longrightarrow> t0 \<le> t \<Longrightarrow> sorted (t # arrivals es @ [u]) \<Longrightarrow>
    of_nat (handed ip (fst (Serve lib es m))) \<le> rl_TokensAt lib (limiter_of lib ip m) t + refill perIPRateLimit (u - t)"
proof (induction lib es m arbitrary: t t0 rule: Serve.induct)
  case (4 lib now a es m)
  note lib = "4.prems"(1)
  let ?tok = "\<lambda>m s. rl_TokensAt lib (limiter_of lib ip m) s" and ?r = "refill perIPRateLimit"
  obtain ok m1 where a: "allow_address lib now (split_host a) m = (ok, m1)" by fastforce
  have o: "t \<le> now" "sorted (now # arrivals es @ [u])" "now \<le> u" using "4.prems"(4) by auto
  obtain t1 where t1: "t1 \<in> {t0, now}" "used_until lib perIPRateLimit 1 (limiter_of lib ip m1) t1"
    using allow_used[OF "4.prems"(2) _ a] o(1) "4.prems"(3) by auto
  have ih: "of_nat (handed ip (fst (Serve lib es m1))) \<le> ?tok m1 now + ?r (u - now)"
    using "4.IH"[OF a[symmetric] lib t1(2) _ o(2)] t1(1) o(1) "4.prems"(3) by auto
  have grow: "?tok m now \<le> ?tok m t + ?r (now - t)"
    using tokens_grow[OF lib rate_pos "4.prems"(2,3) o(1)] by simp
  have split: "?r (u - t) = ?r (now - t) + ?r (u - now)" using refill_add[of perIPRateLimit "now - t" "u - now"] by simp
  show ?case
  proof (cases "split_host a = ip")
    case True
    have "?tok m1 now \<le> ?tok m now - of_bool ok"
      using asked_tokens(2)[OF lib "4.prems"(2) _ a[unfolded True]] o(1) "4.prems"(3) by simp
    then show ?thesis using ih grow split a True by (cases ok) (auto simp: split_beta)
  next
    case False
    then have "?tok m1 now = ?tok m now"
      using a by (auto simp: allow_address_def limiter_of_other split: prod.splits)
    then show ?thesis using ih grow split a False by (cases ok) (auto simp: split_beta)
  qed
qed (use refill_pos[OF rate_pos] in \<open>auto intro!: add_nonneg_nonneg tokens_pos simp del: One_nat_def\<close>)

lemma Serve_append:
  "Cancelled \<notin> set es \<Longrightarrow> fst (Serve lib (es @ es') m) = fst (Serve lib es m) @ fst (Serve lib es' (snd (Serve lib es m)))"
proof (induction lib es m rule: Serve.induct)
  case (4 lib now a es m)
  obtain ok m1 where a: "allow_address lib now (split_host a) m = (ok, m1)" by fastforce
  show ?case using "4.IH"[OF a[symmetric]] "4.prems" a by (simp add: split_beta)
qed simp_all

lemma Serve_used:
  "used_until lib perIPRateLimit 1 (limiter_of lib ip m) t0 \<Longrightarrow> t0 \<le> u \<Longrightarrow> sorted (t0 # arrivals es) \<Longrightarrow>
   \<forall>e \<in> set es. \<forall>s a. e = Incoming s a \<longrightarrow> split_host a = ip \<longrightarrow> s \<le> u \<Longrightarrow>
   \<exists>t1 \<le> u. used_until lib perIPRateLimit 1 (limiter_of lib ip (snd (Serve lib es m))) t1"
proof (induction lib es m arbitrary: t0 rule: Serve.induct)
  case (4 lib now a es m)
  obtain ok m1 where a: "allow_address lib now (split_host a) m = (ok, m1)" by fastforce
  have s: "snd (Serve lib (Incoming now a # es) m) = snd (Serve lib es m1)" using a by (simp add: split_beta)
  have o: "t0 \<le> now" "sorted (now # arrivals es)" "sorted (t0 # arrivals es)" using "4.prems"(3) by auto
  show ?case
  proof (cases "split_host a = ip")
    case True
    obtain t1 where t1: "t1 \<in> {t0, now}" "used_until lib perIPRateLimit 1 (limiter_of lib ip m1) t1"
      using allow_used[OF "4.prems"(1) o(1) a] by auto
    then have "t1 \<le> u" "sorted (t1 # arrivals es)" using "4.prems"(2,4) True o by auto
    then show ?thesis using "4.IH"[OF a[symmetric] t1(2)] "4.prems"(4) unfolding s by simp
  next
    case False
    then have "limiter_of lib ip m1 = limiter_of lib ip m"
      using a by (auto simp: allow_address_def limiter_of_other split: prod.splits)
    then show ?thesis using "4.IH"[OF a[symmetric], of t0] "4.prems" o(3) unfolding s by simp
  qed
qed auto

text \<open>C7: an address gets in once every two seconds, on average.  The limiter being the token
  bucket its package describes, in any span of time the connections of an address that are let in number
  at most one plus half the seconds; whatever other addresses do, and whatever was asked before.\<close>

theorem address_rate_limited:
  assumes "token_bucket lib perIPRateLimit 1" "used_until lib perIPRateLimit 1 (limiter_of lib ip m) t"
    and "sorted (t # arrivals es @ [u])"
  shows "of_nat (handed ip (fst (Serve lib es m))) \<le> (1 + of_int (u - t) / 2000000000 :: rat)"
proof -
  have "rl_TokensAt lib (limiter_of lib ip m) t \<le> 1"
    using tokens_bounds[OF assms(1) rate_pos assms(2)] by simp
  then show ?thesis
    using Serve_bound[OF assms(1,2) order.refl assms(3)] by (simp add: refill_def perIPRateLimit_def)
qed

text \<open>C32: a client that waits gets in.  If the server is not shut down and nobody from the client's address
  has come within the last two seconds, let in or not, the client is handed to \<^verbatim>\<open>handleNewConnection\<close>;
  whatever other addresses do, and whatever was asked before.\<close>

theorem patient_address_served:
  assumes "token_bucket lib perIPRateLimit 1" "used_until lib perIPRateLimit 1 (limiter_of lib (split_host a) m) t"
    and "sorted (t # arrivals es @ [u])" "Cancelled \<notin> set es" "t + 2000000000 \<le> u"
    and "\<forall>e \<in> set es. \<forall>s b. e = Incoming s b \<longrightarrow> split_host b = split_host a \<longrightarrow> s + 2000000000 \<le> u"
  shows "fst (Serve lib (es @ [Incoming u a]) m) = fst (Serve lib es m) @ [(u, a)]"
proof -
  let ?ip = "split_host a" and ?m = "snd (Serve lib es m)"
  obtain t1 where t1: "t1 \<le> u - 2000000000" "used_until lib perIPRateLimit 1 (limiter_of lib ?ip ?m) t1"
    using Serve_used[OF assms(2), of "u - 2000000000" es] assms(3,5,6) by (auto simp: sorted_append algebra_simps)
  have "0 \<le> rl_TokensAt lib (limiter_of lib ?ip ?m) (u - 2000000000)" by (rule tokens_pos[OF assms(1) t1(2,1)])
  then have "1 \<le> rl_TokensAt lib (limiter_of lib ?ip ?m) u"
    using tokens_grow[OF assms(1) rate_pos t1(2,1), of u] by (simp add: refill_def perIPRateLimit_def)
  moreover obtain ok m1 where a: "allow_address lib u ?ip ?m = (ok, m1)" by fastforce
  ultimately have "ok" using asked_tokens(1)[OF assms(1) t1(2) _ a] t1(1) by simp
  then show ?thesis unfolding Serve_append[OF assms(4)] using a by (simp add: split_beta)
qed

section \<open>A token bucket\<close>

definition bucket_tokens :: "rat \<times> nat \<times> rat \<times> time \<Rightarrow> time \<Rightarrow> rat" where
  "bucket_tokens l t = (case l of (r, b, k, t0) \<Rightarrow> if t0 \<le> t then min (of_nat b) (k + refill r (t - t0)) else k)"

definition bucket_allow :: "time \<Rightarrow> rat \<times> nat \<times> rat \<times> time \<Rightarrow> bool \<times> rat \<times> nat \<times> rat \<times> time" where
  "bucket_allow t l = (case l of (r, b, k, t0) \<Rightarrow>
     let k' = bucket_tokens l t in if 1 \<le> k' then (True, r, b, k' - 1, t) else (False, r, b, k', t))"

definition bucket_lib :: "(rat \<times> nat \<times> rat \<times> time) rate_lib" where
  "bucket_lib = \<lparr>rl_NewLimiter = \<lambda>r b. (r, b, of_nat b, 0), rl_Allow = bucket_allow, rl_TokensAt = bucket_tokens\<rparr>"

lemma bucket_lib_ok: "token_bucket bucket_lib perIPRateLimit 1"
proof -
  have u: "\<exists>k s. l = (perIPRateLimit, 1, k, s)" if "used_until bucket_lib perIPRateLimit 1 l t" for l t
    using that by induction (auto simp: bucket_lib_def bucket_allow_def Let_def)
  have full: "bucket_tokens (perIPRateLimit, 1, 1, 0) t = 1" for t
    by (simp add: bucket_tokens_def refill_pos[OF rate_pos])
  have step: "(fst (bucket_allow t l) \<longleftrightarrow> 1 \<le> bucket_tokens l t) \<and>
      bucket_tokens (snd (bucket_allow t l)) t' = min 1 (bucket_tokens l t - of_bool (fst (bucket_allow t l)) + refill perIPRateLimit (t' - t))"
    if "l = (perIPRateLimit, 1, k, s)" "t \<le> t'" for l k s t t'
  proof -
    define k' where "k' = bucket_tokens l t"
    have "bucket_allow t l = (1 \<le> k', perIPRateLimit, 1, k' - of_bool (1 \<le> k'), t)"
      by (simp add: bucket_allow_def that(1) k'_def Let_def)
    then show ?thesis using that(2) unfolding k'_def[symmetric] by (simp add: bucket_tokens_def)
  qed
  have lib: "rl_NewLimiter bucket_lib perIPRateLimit 1 = (perIPRateLimit, 1, 1, 0)" "rl_Allow bucket_lib = bucket_allow"
    "rl_TokensAt bucket_lib = bucket_tokens" by (simp_all add: bucket_lib_def)
  show ?thesis unfolding token_bucket_def lib of_nat_1
  proof (intro conjI[OF allI[OF full]] allI impI)
    fix l :: "rat \<times> nat \<times> rat \<times> time" and t0 t t' :: time
    assume "used_until bucket_lib perIPRateLimit 1 l t0" and t: "t \<le> t'"
    then obtain k s where "l = (perIPRateLimit, 1, k, s)" using u by blast
    then show "(fst (bucket_allow t l) \<longleftrightarrow> 1 \<le> bucket_tokens l t) \<and>
      bucket_tokens (snd (bucket_allow t l)) t' = min 1 (bucket_tokens l t - of_bool (fst (bucket_allow t l)) + refill perIPRateLimit (t' - t))"
      using t by (rule step)
  qed
qed

text \<open>Three connections within a second: the first is let in, and one two seconds later again.\<close>

definition hurried :: "accepted list" where
  "hurried = [Incoming 0 (go_str ''7:1''), AcceptError, Incoming 500000000 (go_str ''7:2''), Incoming 500000000 (go_str ''8:1''),
     Incoming 1000000000 (go_str ''7:3'')]"

lemma hurried_facts: "split_host (go_str ''7:4'') = go_str ''7''" "sorted (0 # arrivals hurried @ [3000000000])"
  by code_simp+

theorem address_rate_limited_witness:
  "of_nat (handed (go_str ''7'') (fst (Serve bucket_lib hurried []))) \<le> (1 + of_int (3000000000 - 0) / 2000000000 :: rat)"
  by (rule address_rate_limited[OF bucket_lib_ok _ hurried_facts(2)])
    (simp add: limiter_of_def used_until.new del: One_nat_def)

theorem patient_address_served_witness:
  "fst (Serve bucket_lib (hurried @ [Incoming 3000000000 (go_str ''7:4'')]) []) =
   fst (Serve bucket_lib hurried []) @ [(3000000000, go_str ''7:4'')]"
  by (rule patient_address_served[OF bucket_lib_ok _ hurried_facts(2)])
    (auto simp: limiter_of_def used_until.new hurried_def simp del: One_nat_def)

lemma hurried_served: "fst (Serve bucket_lib hurried []) = [(0, go_str ''7:1''), (500000000, go_str ''8:1'')]"
  by code_simp

section \<open>A connection comes to an end\<close>

lemma still_reading_pending: "length (pending (still_reading r w s)) \<le> length (pending s)"
  by (simp add: still_reading_def pending_def)

lemma close_live: "wo_live w = live @ [se] \<Longrightarrow> se \<notin> set live \<Longrightarrow> wo_live (close_session se w) = live"
  by (simp add: close_session_def removeAll_id)

lemma receive_live:
  assumes "wo_live w = live @ [se]" "se \<notin> set live"
  shows "wo_live (receive x se tok w) = live \<or>
    wo_live (receive x se tok w) = live @ [se] \<and> (\<exists>r. Transaction_Write zero_tran tok = Ok r)"
  using close_live[OF _ assms(2)] assms(1)
  by (auto simp: receive_def split: outcome.split handled.split)

lemma session_loop_ends:
  "length (pending s) < 22 * n \<Longrightarrow> wo_live w = live @ [se] \<Longrightarrow> se \<notin> set live \<Longrightarrow>
   \<exists>w'. session_loop x se n s w = Some w' \<and> wo_live w' = live \<and> (world_step x)\<^sup>*\<^sup>* w w'"
proof (induction n arbitrary: s w)
  case (Suc n)
  have se: "se \<in> set (wo_live w)" using Suc.prems(2) by simp
  show ?case
  proof (cases "\<exists>s1. scan transactionScanner s = Ok (True, s1)")
    case True
    then obtain s1 where s1: "scan transactionScanner s = Ok (True, s1)" by blast
    let ?w = "receive x se (scan_bytes s1) w"
    have step: "world_step x w ?w" by (rule Receive[OF se])
    consider "wo_live ?w = live" | r where "wo_live ?w = live @ [se]" "Transaction_Write zero_tran (scan_bytes s1) = Ok r"
      using receive_live[OF Suc.prems(2,3), of x "scan_bytes s1"] by blast
    then show ?thesis
    proof cases
      case 1
      then show ?thesis using s1 Suc.prems(3) step by (auto simp: Let_def)
    next
      case 2
      have "length (pending (still_reading (se_conn se) ?w s1)) < 22 * n"
        using transaction_consumes[OF s1 2(2)] still_reading_pending[of "se_conn se" ?w s1] Suc.prems(1) by simp
      from Suc.IH[OF this 2(1) Suc.prems(3)] obtain w' where
        "session_loop x se n (still_reading (se_conn se) ?w s1) ?w = Some w'" "wo_live w' = live" "(world_step x)\<^sup>*\<^sup>* ?w w'" by blast
      then show ?thesis using s1 2(1) step by (auto simp: Let_def intro: converse_rtranclp_into_rtranclp)
    qed
  next
    case False
    have "wo_live (close_session se w) = live" by (rule close_live[OF Suc.prems(2,3)])
    moreover have "(world_step x)\<^sup>*\<^sup>* w (close_session se w)" using Hangup[OF se] by blast
    ultimately show ?thesis using False by (auto split: outcome.split bool.split)
  qed
qed simp

lemma open_live:
  "wo_live (open_session x a buf w) = wo_live w \<or>
   (\<exists>se. wo_live (open_session x a buf w) = wo_live w @ [se]) \<and> (\<exists>r. Transaction_Write zero_tran buf = Ok r)"
  by (auto simp: open_session_def Let_def login_step_def split: login_result.split outcome.split)

lemma handshake_rest: "performHandshake cs = Ok (b, r) \<Longrightarrow> length (concat r) \<le> length (concat cs)"
  by (cases cs) (auto simp: performHandshake_def obind_Ok_iff split: if_splits)

text \<open>C6: a connection always ends, and leaves no session behind.  Whatever a client sends before its
  stream ends, from whatever address and in whatever reachable state, \<^verbatim>\<open>handleNewConnection\<close> returns; the
  server is then in a reachable state again, with the sessions it had before and the count of connected
  users it had before.  One round for every 22 bytes is enough.\<close>

theorem connection_ends:
  assumes "reachable x w" "length (concat cs) < 22 * n"
  shows "\<exists>w'. handleNewConnection x n a cs w = Some w' \<and> reachable x w' \<and> wo_live w' = wo_live w \<and>
    Stats_Get StatCurrentlyConnected (sv_stats (wo_server w')) = Stats_Get StatCurrentlyConnected (sv_stats (wo_server w))"
proof -
  have steps: "reachable x w'" if "(world_step x)\<^sup>*\<^sup>* w w'" for w'
    using assms(1) that unfolding reachable_def by (meson rtranclp_trans)
  have count: "Stats_Get StatCurrentlyConnected (sv_stats (wo_server w')) = int (length (wo_live w'))" if "reachable x w'" for w'
    using reachable_inv[OF that] by (simp add: world_inv_def)
  have "\<exists>w'. handleNewConnection x n a cs w = Some w' \<and> (world_step x)\<^sup>*\<^sup>* w w' \<and> wo_live w' = wo_live w"
  proof (cases "\<exists>b r found s1. performHandshake cs = Ok (b, r) \<and> scan transactionScanner (NewScanner r) = Ok (found, s1)")
    case True
    then obtain b r found s1 where h: "performHandshake cs = Ok (b, r)" and s1: "scan transactionScanner (NewScanner r) = Ok (found, s1)"
      by blast
    define buf where "buf = (if found then scan_bytes s1 else [])"
    let ?w = "open_session x a buf w"
    have step: "world_step x w ?w" by (rule Connect)
    consider "wo_live ?w = wo_live w" | se k where "wo_live ?w = wo_live w @ [se]" "Transaction_Write zero_tran buf = Ok k"
      using open_live by blast
    then show ?thesis
    proof cases
      case 1
      then show ?thesis using h s1 step by (auto simp: handleNewConnection_def buf_def[symmetric] Let_def)
    next
      case 2
      have found: "found" using 2(2) by (auto simp: buf_def Transaction_Write_def split: if_splits)
      then have "length (pending s1) + 22 \<le> length (pending (NewScanner r))"
        using transaction_consumes[of "NewScanner r" s1] s1 2(2) by (simp add: buf_def)
      then have p: "length (pending (still_reading (se_conn se) ?w s1)) < 22 * n"
        using still_reading_pending[of "se_conn se" ?w s1] handshake_rest[OF h] assms(2) by simp
      have "world_inv ?w" using reachable_inv[OF steps[of ?w]] step by blast
      then have "se \<notin> set (wo_live w)" using 2(1) by (auto simp: world_inv_def)
      from session_loop_ends[OF p 2(1) this, of x] obtain w' where
        "session_loop x se n (still_reading (se_conn se) ?w s1) ?w = Some w'" "wo_live w' = wo_live w" "(world_step x)\<^sup>*\<^sup>* ?w w'" by blast
      then show ?thesis using h s1 step 2(1)
        by (auto simp: handleNewConnection_def buf_def[symmetric] Let_def intro: converse_rtranclp_into_rtranclp)
    qed
  next
    case False
    then show ?thesis by (auto simp: handleNewConnection_def split: outcome.split)
  qed
  then show ?thesis using steps count assms(1) by metis
qed

theorem connection_ends_witness:
  "\<exists>w'. handleNewConnection demo_externals 5 [50, 58, 49] [ClientHandshake, demo_login, [1, 2, 3]] demo_logged_in = Some w' \<and>
     reachable demo_externals w' \<and> wo_live w' = wo_live demo_logged_in \<and>
     Stats_Get StatCurrentlyConnected (sv_stats (wo_server w')) = Stats_Get StatCurrentlyConnected (sv_stats (wo_server demo_logged_in))"
proof (rule connection_ends[OF demo_reachable])
  show "length (concat [ClientHandshake, demo_login, [1, 2, 3]]) < 22 * 5" by code_simp
qed

end
