(* ===== verification/HL_Setup.thy ===== *)
theory HL_Setup
  imports HL_Startup HL_Tracker HL_Plain_Files
begin

text \<open>
  The rest of \<^verbatim>\<open>cmd/mobius-hotline-server/main.go\<close>: where the configuration is looked for, what \<^verbatim>\<open>-init\<close>
  copies, the options of a new server, signals, and what \<^verbatim>\<open>ListenAndServe\<close> sets going.
\<close>

section \<open>Finding the configuration\<close>

definition ConfigSearchOrder :: "bytes list" where
  "ConfigSearchOrder = [go_str ''config'', go_str ''/usr/local/var/mobius/config'', go_str ''/opt/homebrew/var/mobius/config'']"

text \<open>\<open>isDir\<close>: \<^verbatim>\<open>os.Stat\<close> succeeds and finds a directory.\<close>

definition findConfigPath :: "(bytes \<Rightarrow> bool) \<Rightarrow> bytes" where
  "findConfigPath isDir = (case List.find isDir ConfigSearchOrder of Some cfgPath \<Rightarrow> cfgPath | None \<Rightarrow> go_str ''config'')"

section \<open>Copying the default configuration\<close>

text \<open>
  The embedded files, as \<^verbatim>\<open>ReadDir\<close> lists them: reading what was compiled in does not fail.  On the disk
  directories are implicit; making one fails if there is a file of that name, or by the oracle.
\<close>

datatype embedded = EmbFile bytes bytes | EmbDir bytes "embedded list"

definition os_MkdirAll :: "bytes \<Rightarrow> disk \<Rightarrow> go_error option \<times> disk" where
  "os_MkdirAll p d = (if dk_oracle d 0 = None \<and> dk_get d p = None then None else Some (Msg ''mkdir''), dk_tick d)"

definition os_Stat :: "bytes \<Rightarrow> disk \<Rightarrow> go_error option \<times> disk" where
  "os_Stat p d =
     (if dk_oracle d 0 \<noteq> None then Some (Msg ''stat'') else if dk_get d p = None then Some NotExist else None, dk_tick d)"

text \<open>
  \<^verbatim>\<open>os.Create\<close> empties the file and \<^verbatim>\<open>io.Copy\<close> writes the contents, so a failure comes before the file is
  opened or after some of its bytes, as with \<^verbatim>\<open>os.WriteFile\<close>.
\<close>

definition copyFile :: "bytes \<Rightarrow> bytes \<Rightarrow> disk \<Rightarrow> go_error option \<times> disk" where
  "copyFile src dst d = os_WriteFile dst src d"

fun copyDirRecursive :: "embedded list \<Rightarrow> bytes \<Rightarrow> disk \<Rightarrow> go_error option \<times> disk" where
  "copyDirRecursive [] dst d = (None, d)"
| "copyDirRecursive (EmbDir n src # es) dst d =
     (case os_MkdirAll (path_Join [dst, n]) d of
        (Some e, d1) \<Rightarrow> (Some (Msg ''failed to create directory''), d1)
      | (None, d1) \<Rightarrow>
          (case copyDirRecursive src (path_Join [dst, n]) d1 of
             (Some e, d2) \<Rightarrow> (Some (Msg ''failed to copy subdirectory''), d2)
           | (None, d2) \<Rightarrow> copyDirRecursive es dst d2))"
| "copyDirRecursive (EmbFile n c # es) dst d =
     (case copyFile c (path_Join [dst, n]) d of
        (Some e, d1) \<Rightarrow> (Some (Msg ''failed to copy file''), d1)
      | (None, d1) \<Rightarrow> copyDirRecursive es dst d1)"

definition copyDir :: "embedded list \<Rightarrow> bytes \<Rightarrow> disk \<Rightarrow> go_error option \<times> disk" where
  "copyDir src dst d = copyDirRecursive src dst d"

text \<open>\<^verbatim>\<open>-init\<close>: an error ends the process.\<close>

definition init_config :: "embedded list \<Rightarrow> bytes \<Rightarrow> disk \<Rightarrow> go_error option \<times> disk" where
  "init_config cfgTemplate configDir d =
     (case os_Stat (path_Join [configDir, go_str ''/config.yaml'']) d of
        (Some NotExist, d1) \<Rightarrow>
          (case os_MkdirAll configDir d1 of
             (Some e, d2) \<Rightarrow> (Some e, d2)
           | (None, d2) \<Rightarrow> copyDir cfgTemplate configDir d2)
      | (e, d1) \<Rightarrow> (None, d1))"

section \<open>Options and the start\<close>

type_synonym Option = "server \<Rightarrow> server"

definition WithConfig :: "Config \<Rightarrow> Option" where
  "WithConfig config s = s\<lparr>sv_config := config\<rparr>"

definition WithPort :: "nat \<Rightarrow> Option" where
  "WithPort port s = s\<lparr>sv_Port := port\<rparr>"

definition WithTLS :: "nat \<Rightarrow> Option" where
  "WithTLS port s = s\<lparr>sv_TLSPort := port\<rparr>"

definition apply_options :: "Option list \<Rightarrow> server \<Rightarrow> server" where
  "apply_options options s = fold (\<lambda>opt s. opt s) options s"

text \<open>The order in which options are given does not matter to \<^verbatim>\<open>NewServer\<close>.\<close>

lemma apply_options_NewServer:
  "apply_options [WithPort port, WithConfig config, WithTLS tlsPort] (NewServer c0 0 0 pid rand d fs) =
     NewServer config port tlsPort pid rand d fs"
  "apply_options [WithPort port, WithConfig config] (NewServer c0 0 0 pid rand d fs) = NewServer config port 0 pid rand d fs"
  by (simp_all add: apply_options_def WithPort_def WithConfig_def WithTLS_def NewServer_def)

text \<open>The flags that matter here; \<open>keyPair\<close> is \<^verbatim>\<open>tls.LoadX509KeyPair\<close>.\<close>

record main_flags =
  mf_configDir :: bytes
  mf_init :: bool
  mf_basePort :: nat
  mf_tlsCert :: bytes
  mf_tlsKey :: bytes
  mf_tlsPort :: nat

definition with_tls :: "main_flags \<Rightarrow> bool" where
  "with_tls fl \<longleftrightarrow> mf_tlsCert fl \<noteq> [] \<and> mf_tlsKey fl \<noteq> []"

definition main_start :: "externals \<Rightarrow> loaders \<Rightarrow> embedded list \<Rightarrow> (bytes \<Rightarrow> bytes \<Rightarrow> bool) \<Rightarrow> main_flags \<Rightarrow>
    32 word \<Rightarrow> (nat \<Rightarrow> 32 word) \<Rightarrow> disk \<Rightarrow> filesystem \<Rightarrow> go_error + server" where
  "main_start x lo cfgTemplate keyPair fl passID rand d fs =
     (case (if mf_init fl then init_config cfgTemplate (mf_configDir fl) d else (None, d)) of
        (Some e, d1) \<Rightarrow> Inl e
      | (None, d1) \<Rightarrow>
          (case LoadConfig lo (path_Join [mf_configDir fl, go_str ''config.yaml'']) d1 of
             (Inl e, d2) \<Rightarrow> Inl e
           | (Inr config, d2) \<Rightarrow>
               if with_tls fl \<and> \<not> keyPair (mf_tlsCert fl) (mf_tlsKey fl) then Inl (Msg ''load key pair'')
               else start_up x lo (mf_configDir fl) (mf_basePort fl) (if with_tls fl then mf_tlsPort fl else 0) passID rand d1 fs))"

text \<open>Whatever the flags, a server that runs has come through \<open>start_up\<close>, and announces a TLS port only with a key pair.\<close>

lemma main_start_start_up:
  assumes "main_start x lo t keyPair fl passID rand d fs = Inr s"
  obtains d1 where "start_up x lo (mf_configDir fl) (mf_basePort fl) (if with_tls fl then mf_tlsPort fl else 0) passID rand d1 fs = Inr s"
    "with_tls fl \<longrightarrow> keyPair (mf_tlsCert fl) (mf_tlsKey fl)"
  using assms by (auto simp: main_start_def split: prod.splits option.splits sum.splits if_splits)

section \<open>Running\<close>

text \<open>Signals: \<^verbatim>\<open>SIGHUP\<close> reloads, any other ends the process, which is \<open>None\<close>.\<close>

datatype os_signal = SIGHUP | SIGTERM | SIGINT

fun handle_signals :: "externals \<Rightarrow> loaders \<Rightarrow> bytes \<Rightarrow> os_signal list \<Rightarrow> server \<Rightarrow> server option" where
  "handle_signals x lo configDir [] s = Some s"
| "handle_signals x lo configDir (sig # sigs) s =
     (if sig = SIGHUP then handle_signals x lo configDir sigs (reloadFunc x lo configDir s) else None)"

text \<open>
  Tracker registration: once at the start and then at each tick, with the server as it is by then.
\<close>

definition trackerUpdateFrequency :: nat where
  "trackerUpdateFrequency = 300"

definition registerWithTrackers :: "(bytes \<Rightarrow> bool) \<Rightarrow> server \<Rightarrow> server list \<Rightarrow> (bytes \<times> (go_error + bytes)) list" where
  "registerWithTrackers dial s ticks = registerWithAllTrackers dial s @ concat (map (registerWithAllTrackers dial) ticks)"

text \<open>
  The ports \<^verbatim>\<open>ListenAndServe\<close> opens and the loop that serves each, behind TLS or not; a port that cannot be
  opened ends the process.
\<close>

datatype serving = Transactions | Transfers

definition listeners :: "bool \<Rightarrow> server \<Rightarrow> (nat \<times> serving \<times> bool) list" where
  "listeners tls s =
     [(sv_Port s, Transactions, False), (sv_Port s + 1, Transfers, False)] @
     (if tls then [(sv_TLSPort s, Transactions, True), (sv_TLSPort s + 1, Transfers, True)] else [])"

definition ListenAndServe :: "(nat \<Rightarrow> bool) \<Rightarrow> bool \<Rightarrow> server \<Rightarrow> (nat \<times> serving \<times> bool) list option" where
  "ListenAndServe listen tls s = (if list_all (\<lambda>l. listen (fst l)) (listeners tls s) then Some (listeners tls s) else None)"

section \<open>What \<^verbatim>\<open>-init\<close> leaves\<close>

text \<open>The files of a template, by their names from its root, and what makes a template well formed.\<close>

fun template_files :: "embedded list \<Rightarrow> (bytes list \<times> bytes) list" where
  "template_files [] = []"
| "template_files (EmbDir n ts # es) = map (\<lambda>(p, c). (n # p, c)) (template_files ts) @ template_files es"
| "template_files (EmbFile n c # es) = ([n], c) # template_files es"

fun good_template :: "embedded list \<Rightarrow> bool" where
  "good_template [] = True"
| "good_template (EmbDir n ts # es) = (good_seg n \<and> good_template ts \<and> n \<notin> set (map (hd \<circ> fst) (template_files es)) \<and> good_template es)"
| "good_template (EmbFile n c # es) = (good_seg n \<and> n \<notin> set (map (hd \<circ> fst) (template_files es)) \<and> good_template es)"

lemma template_files_append [simp]: "template_files (es @ fs) = template_files es @ template_files fs"
  by (induction es rule: template_files.induct) simp_all

lemma template_ne: "(p, c) \<in> set (template_files t) \<Longrightarrow> p \<noteq> []"
  by (induction t arbitrary: p rule: template_files.induct) auto

lemma template_good: "good_template t \<Longrightarrow> (p, c) \<in> set (template_files t) \<Longrightarrow> \<forall>s \<in> set p. good_seg s"
  by (induction t arbitrary: p rule: template_files.induct) auto

lemma abs_path_inj: "\<forall>s \<in> set p. good_seg s \<Longrightarrow> \<forall>s \<in> set q. good_seg s \<Longrightarrow> abs_path p = abs_path q \<longleftrightarrow> p = q"
  using path_segs_abs by metis

lemma MkdirAll_files [simp]: "dk_files (snd (os_MkdirAll p d)) = dk_files d"
  by (simp add: os_MkdirAll_def dk_tick_def)

lemma Stat_files [simp]: "dk_files (snd (os_Stat p d)) = dk_files d"
  by (simp add: os_Stat_def dk_tick_def)

text \<open>Copying touches the files of the template only, however it ends.\<close>

lemma copy_frame:
  "good_template t \<Longrightarrow> \<forall>s \<in> set ds. good_seg s \<Longrightarrow> copyDirRecursive t (abs_path ds) d = (e, d') \<Longrightarrow>
   q \<notin> (\<lambda>(p, c). abs_path (ds @ p)) ` set (template_files t) \<Longrightarrow> dk_get d' q = dk_get d q"
proof (induction t arbitrary: ds d e d' rule: template_files.induct)
  case (2 n ts es)
  have j: "path_Join [abs_path ds, n] = abs_path (ds @ [n])" "\<forall>s \<in> set (ds @ [n]). good_seg s"
    using Join_abs[of ds n] 2(3,4) by auto
  obtain e1 d1 where m: "os_MkdirAll (abs_path (ds @ [n])) d = (e1, d1)" by fastforce
  then have f1: "dk_files d1 = dk_files d" using MkdirAll_files[of "abs_path (ds @ [n])" d] by simp
  obtain e2 d2 where c: "copyDirRecursive ts (abs_path (ds @ [n])) d1 = (e2, d2)" by fastforce
  have q: "q \<notin> (\<lambda>(p, c). abs_path ((ds @ [n]) @ p)) ` set (template_files ts)"
    "q \<notin> (\<lambda>(p, c). abs_path (ds @ p)) ` set (template_files es)" using 2(6) by (force simp: image_iff)+
  have "dk_get d2 q = dk_get d q" using "2.IH"(1)[OF _ j(2) c q(1)] 2(3) f1 by simp
  then show ?case using "2.IH"(2)[OF _ 2(4) _ q(2)] 2(3,5) m c f1 j(1)
    by (cases e1; cases e2) auto
next
  case (3 n c es)
  have j: "path_Join [abs_path ds, n] = abs_path (ds @ [n])" using Join_abs[of ds n] 3(2,3) by auto
  obtain e1 d1 where m: "os_WriteFile (abs_path (ds @ [n])) c d = (e1, d1)" by fastforce
  have "dk_get d1 q = dk_get d q" using os_WriteFile_other[of q "abs_path (ds @ [n])" c d] m 3(5) by auto
  then show ?case using "3.IH"[OF _ 3(3)] 3(2,4,5) m j by (cases e1) (auto simp: copyFile_def)
qed simp

text \<open>Siblings do not overwrite each other.\<close>

lemma siblings_apart:
  assumes "good_template t" "\<forall>s \<in> set (ds @ p). good_seg s" "p \<noteq> []" "hd p \<notin> set (map (hd \<circ> fst) (template_files t))"
  shows "abs_path (ds @ p) \<notin> (\<lambda>(p, c). abs_path (ds @ p)) ` set (template_files t)"
proof
  assume "abs_path (ds @ p) \<in> (\<lambda>(p, c). abs_path (ds @ p)) ` set (template_files t)"
  then obtain p2 c2 where p2: "abs_path (ds @ p) = abs_path (ds @ p2)" "(p2, c2) \<in> set (template_files t)" by auto
  then have "p = p2" using abs_path_inj[of "ds @ p" "ds @ p2"] template_good[OF assms(1) p2(2)] assms(2) by auto
  then show False using p2(2) assms(4) by force
qed

text \<open>If it ends well, every file is there.\<close>

lemma copy_complete:
  "good_template t \<Longrightarrow> \<forall>s \<in> set ds. good_seg s \<Longrightarrow> copyDirRecursive t (abs_path ds) d = (None, d') \<Longrightarrow>
   (p, c) \<in> set (template_files t) \<Longrightarrow> dk_get d' (abs_path (ds @ p)) = Some c"
proof (induction t arbitrary: ds d d' p rule: template_files.induct)
  case (2 n ts es)
  have j: "path_Join [abs_path ds, n] = abs_path (ds @ [n])" "\<forall>s \<in> set (ds @ [n]). good_seg s"
    using Join_abs[of ds n] 2(3,4) by auto
  obtain d1 d2 where m: "os_MkdirAll (abs_path (ds @ [n])) d = (None, d1)"
    and c: "copyDirRecursive ts (abs_path (ds @ [n])) d1 = (None, d2)" and r: "copyDirRecursive es (abs_path ds) d2 = (None, d')"
    using 2(5) j(1) by (auto split: prod.splits option.splits)
  have good: "good_template ts" "good_template es" "n \<notin> set (map (hd \<circ> fst) (template_files es))" using 2(3) by auto
  show ?case
  proof (cases "(p, c) \<in> set (template_files es)")
    case True
    then show ?thesis by (rule "2.IH"(2)[OF good(2) 2(4) r])
  next
    case False
    then obtain p' where p: "p = n # p'" "(p', c) \<in> set (template_files ts)" using 2(6) by auto
    have "abs_path (ds @ p) \<notin> (\<lambda>(p, c). abs_path (ds @ p)) ` set (template_files es)"
      by (rule siblings_apart[OF good(2)]) (use template_good[OF good(1) p(2)] good(3) j(2) p(1) in auto)
    then have "dk_get d' (abs_path (ds @ p)) = dk_get d2 (abs_path (ds @ p))" by (rule copy_frame[OF good(2) 2(4) r])
    then show ?thesis using "2.IH"(1)[OF good(1) j(2) c p(2)] p(1) by simp
  qed
next
  case (3 n b es)
  have j: "path_Join [abs_path ds, n] = abs_path (ds @ [n])" "\<forall>s \<in> set (ds @ [n]). good_seg s"
    using Join_abs[of ds n] 3(2,3) by auto
  obtain d1 where m: "os_WriteFile (abs_path (ds @ [n])) b d = (None, d1)" and r: "copyDirRecursive es (abs_path ds) d1 = (None, d')"
    using 3(4) j(1) by (auto simp: copyFile_def split: prod.splits option.splits)
  have good: "good_template es" "n \<notin> set (map (hd \<circ> fst) (template_files es))" using 3(2) by auto
  show ?case
  proof (cases "(p, c) \<in> set (template_files es)")
    case True
    then show ?thesis by (rule "3.IH"[OF good(1) 3(3) r])
  next
    case False
    then have p: "p = [n]" "c = b" using 3(5) by auto
    have "abs_path (ds @ [n]) \<notin> (\<lambda>(p, c). abs_path (ds @ p)) ` set (template_files es)"
      using siblings_apart[OF good(1) j(2)] good(2) by simp
    then have "dk_get d' (abs_path (ds @ [n])) = dk_get d1 (abs_path (ds @ [n]))" by (rule copy_frame[OF good(1) 3(3) r])
    then show ?thesis using os_WriteFile_ok[OF m] p by simp
  qed
qed simp

abbreviation config_yaml :: bytes where
  "config_yaml \<equiv> go_str ''config.yaml''"

lemma config_seg: "good_seg config_yaml"
  by code_simp

lemma config_path:
  assumes "\<forall>s \<in> set ds. good_seg s"
  shows "path_Join [abs_path ds, go_str ''/config.yaml''] = abs_path (ds @ [config_yaml])"
    "path_Join [abs_path ds, config_yaml] = abs_path (ds @ [config_yaml])"
proof -
  have e: "split_slash (go_str ''/config.yaml'') = [[], config_yaml]" "go_str ''/config.yaml'' \<noteq> []" "dotdot \<noteq> config_yaml" "plain_seg [] = False"
    by code_simp+
  have "filter plain_seg [[], config_yaml] = [config_yaml]" using config_seg by (simp add: good_seg_def plain_seg_def)
  then have "path_segs (abs_path ds @ slash # go_str ''/config.yaml'') = ds @ [config_yaml]"
    using e(3) by (subst path_segs_append[OF assms]) (simp_all add: e(1,4))
  then have "path_Clean (abs_path ds @ slash # go_str ''/config.yaml'') = abs_path (ds @ [config_yaml])"
    by (simp add: path_Clean_def) (simp add: abs_path_def)
  then show "path_Join [abs_path ds, go_str ''/config.yaml''] = abs_path (ds @ [config_yaml])" by (simp add: path_Join_def)
  show "path_Join [abs_path ds, config_yaml] = abs_path (ds @ [config_yaml])" by (rule Join_abs[OF assms config_seg])
qed

lemma init_cases:
  assumes "\<forall>s \<in> set ds. good_seg s" "init_config t (abs_path ds) d = (e, d')"
  obtains "dk_files d' = dk_files d" "e = None" "dk_oracle d 0 \<noteq> None \<or> dk_get d (abs_path (ds @ [config_yaml])) \<noteq> None"
  | "dk_files d' = dk_files d" "e \<noteq> None" "dk_get d (abs_path (ds @ [config_yaml])) = None"
  | d1 where "dk_files d1 = dk_files d" "copyDirRecursive t (abs_path ds) d1 = (e, d')"
      "dk_get d (abs_path (ds @ [config_yaml])) = None"
proof -
  obtain m d2 where m: "os_MkdirAll (abs_path ds) (dk_tick d) = (m, d2)" by fastforce
  then have f: "dk_files d2 = dk_files d" using MkdirAll_files[of "abs_path ds" "dk_tick d"] by (simp add: dk_tick_def)
  show thesis
  proof (cases "dk_oracle d 0 = None \<and> dk_get d (abs_path (ds @ [config_yaml])) = None")
    case True
    then show ?thesis using assms(2) m f that(2,3) unfolding init_config_def config_path(1)[OF assms(1)]
      by (cases m) (auto simp: os_Stat_def copyDir_def)
  next
    case False
    then show ?thesis using assms(2) that(1) unfolding init_config_def config_path(1)[OF assms(1)]
      by (auto simp: os_Stat_def dk_tick_def split: if_splits)
  qed
qed

text \<open>C33: \<^verbatim>\<open>-init\<close> installs the default configuration and nothing else.  For a template with proper and
  distinct names and an absolute directory: an existing \<^verbatim>\<open>config.yaml\<close> means that no file changes; no
  file outside the template is ever touched, failures included; and a run without an error that found no
  \<^verbatim>\<open>config.yaml\<close> has every file of the template in its place with its contents.\<close>

theorem init_installs:
  assumes "good_template t" "\<forall>s \<in> set ds. good_seg s" "init_config t (abs_path ds) d = (e, d')"
  shows "(dk_get d (abs_path (ds @ [config_yaml])) \<noteq> None \<longrightarrow> e = None \<and> dk_files d' = dk_files d) \<and>
    (\<forall>q. q \<notin> (\<lambda>(p, c). abs_path (ds @ p)) ` set (template_files t) \<longrightarrow> dk_get d' q = dk_get d q) \<and>
    (e = None \<and> dk_oracle d 0 = None \<and> dk_get d (abs_path (ds @ [config_yaml])) = None \<longrightarrow>
       (\<forall>(p, c) \<in> set (template_files t). dk_get d' (abs_path (ds @ p)) = Some c))"
  using assms(2,3)
proof (cases rule: init_cases)
  case (3 d1)
  then show ?thesis using copy_frame[OF assms(1,2) 3(2)] copy_complete[OF assms(1,2), of d1 d'] by auto
qed auto

text \<open>
  The names of the files that come with the repository; \<^verbatim>\<open>config.yaml\<close> is the last.  A copy that breaks off
  in it leaves a truncated file, and the next \<^verbatim>\<open>-init\<close> takes that for a configuration.
\<close>

definition repo_template :: "(bytes \<Rightarrow> bytes) \<Rightarrow> embedded list" where
  "repo_template c =
     (let f = \<lambda>n. EmbFile (go_str n) (c (go_str n)) in
      [f ''Agreement.txt'', EmbDir (go_str ''Files'') [f ''About This Area.txt''], f ''MessageBoard.txt'', f ''ThreadedNews.yaml'',
       EmbDir (go_str ''Users'') [f ''admin.yaml'', f ''guest.yaml''], f ''banner.jpg'', f ''config.yaml''])"

lemma repo_template_good: "good_template (repo_template c)"
proof -
  have "good_template (repo_template (\<lambda>n. []))" by code_simp
  then show ?thesis by (simp add: repo_template_def Let_def)
qed

lemma copy_append:
  "copyDirRecursive (es @ fs) dst d =
     (case copyDirRecursive es dst d of (Some e, d1) \<Rightarrow> (Some e, d1) | (None, d1) \<Rightarrow> copyDirRecursive fs dst d1)"
  by (induction es dst d rule: copyDirRecursive.induct) (auto split: prod.split option.split)

theorem failed_init_sticks:
  assumes t: "good_template (t @ [EmbFile config_yaml c])" and ds: "\<forall>s \<in> set ds. good_seg s"
    and i: "init_config (t @ [EmbFile config_yaml c]) (abs_path ds) d = (Some e, d')"
    and now: "dk_get d' (abs_path (ds @ [config_yaml])) \<noteq> None"
  shows "\<exists>k. dk_get d' (abs_path (ds @ [config_yaml])) = Some (take k c)"
    "dk_files d2 = dk_files d' \<Longrightarrow> fst (init_config t' (abs_path ds) d2) = None \<and> dk_files (snd (init_config t' (abs_path ds) d2)) = dk_files d'"
proof -
  have j: "path_Join [abs_path ds, config_yaml] = abs_path (ds @ [config_yaml])" by (rule config_path(2)[OF ds])
  show "\<exists>k. dk_get d' (abs_path (ds @ [config_yaml])) = Some (take k c)"
    using ds i
  proof (cases rule: init_cases)
    case (3 d1)
    have t0: "good_template t \<and> config_yaml \<notin> set (map (hd \<circ> fst) (template_files t))"
      using t by (induction t rule: template_files.induct) auto
    obtain e0 d0 where c0: "copyDirRecursive t (abs_path ds) d1 = (e0, d0)" by fastforce
    have "dk_get d0 (abs_path (ds @ [config_yaml])) = dk_get d1 (abs_path (ds @ [config_yaml]))"
      by (rule copy_frame[OF _ ds c0]) (use t0 siblings_apart[of t ds "[config_yaml]"] ds config_seg in auto)
    then have "dk_get d0 (abs_path (ds @ [config_yaml])) = None" using 3 by simp
    then show ?thesis using 3(2) now c0 j
      by (cases e0) (auto simp: copy_append copyFile_def os_WriteFile_def dk_tick_def dk_put_def split: prod.splits option.splits nat.splits)
  qed (use now in simp_all)
  show "dk_files d2 = dk_files d' \<Longrightarrow> fst (init_config t' (abs_path ds) d2) = None \<and> dk_files (snd (init_config t' (abs_path ds) d2)) = dk_files d'"
    using now unfolding init_config_def config_path(1)[OF ds] by (auto simp: os_Stat_def dk_tick_def)
qed

text \<open>
  Where only \<^verbatim>\<open>config.yaml\<close> is missing, the accounts and the board of the template replace those of the
  server.
\<close>

definition used_disk :: disk where
  "used_disk = \<lparr>dk_files = [(go_str ''/c/Users/admin.yaml'', [1])], dk_oracle = \<lambda>n. None\<rparr>"

lemma init_overwrites_accounts:
  "dk_get (snd (init_config (repo_template (\<lambda>n. [7])) (go_str ''/c'') used_disk)) (go_str ''/c/Users/admin.yaml'') = Some [7]"
  by code_simp

definition full_disk :: disk where
  "full_disk = \<lparr>dk_files = [], dk_oracle = \<lambda>n. if n = 11 then Some 3 else None\<rparr>"

lemma init_truncates_config:
  "fst (init_config (repo_template id) (go_str ''/c'') full_disk) \<noteq> None \<and>
   dk_get (snd (init_config (repo_template id) (go_str ''/c'') full_disk)) (go_str ''/c/config.yaml'') = Some (go_str ''co'')"
  by code_simp

definition new_disk :: disk where
  "new_disk = \<lparr>dk_files = [(go_str ''/c/Banlist.yaml'', [1])], dk_oracle = \<lambda>n. None\<rparr>"

lemma new_disk_facts:
  "abs_path [go_str ''c''] = go_str ''/c''" "good_seg (go_str ''c'')"
  by code_simp+

theorem init_installs_witness:
  "dk_get (snd (init_config (repo_template id) (go_str ''/c'') new_disk)) (go_str ''/c/Users/guest.yaml'') = Some (go_str ''guest.yaml'')"
proof -
  have r: "init_config (repo_template id) (abs_path [go_str ''c'']) new_disk =
      (None, snd (init_config (repo_template id) (go_str ''/c'') new_disk))"
  proof -
    have "fst (init_config (repo_template id) (go_str ''/c'') new_disk) = None" by code_simp
    then show ?thesis unfolding new_disk_facts(1) by (metis prod.collapse)
  qed
  have k: "([go_str ''Users'', go_str ''guest.yaml''], go_str ''guest.yaml'') \<in> set (template_files (repo_template id))" by code_simp
  have p: "abs_path ([go_str ''c''] @ [go_str ''Users'', go_str ''guest.yaml'']) = go_str ''/c/Users/guest.yaml''"
    "dk_get new_disk (abs_path ([go_str ''c''] @ [config_yaml])) = None" "dk_oracle new_disk 0 = None" by code_simp+
  have "\<forall>s \<in> set [go_str ''c'']. good_seg s" using new_disk_facts(2) by simp
  note all = init_installs[OF repo_template_good this r, THEN conjunct2, THEN conjunct2]
  have "(None :: go_error option) = None \<and> dk_oracle new_disk 0 = None \<and> dk_get new_disk (abs_path ([go_str ''c''] @ [config_yaml])) = None"
    using p by blast
  from bspec[OF mp[OF all this] k] show ?thesis unfolding prod.case p(1) .
qed

end
