(* ===== verification/Spec2Isabelle.thy ===== *)
theory Spec2Isabelle
  imports HL_Guarantees HL_Client_Guarantees HL_Redis_Bans HL_References HL_Admin HL_Confined_Transfers HL_Listener_Guarantees HL_Setup
begin

text \<open>
  Mobius, a Hotline server and client library in Go.

  \<^bold>\<open>The program.\<close>  \<^verbatim>\<open>hotline/\<close> holds the protocol and the server: the wire formats, the connection loop,
  the managers of clients, chats and transfers, the file transfer port, the tracker protocol and a
  client library.  \<^verbatim>\<open>internal/mobius/\<close> holds the transaction handlers, the stores that keep accounts,
  bans, news and texts in files, a ban list on Redis and an HTTP interface.
  \<^verbatim>\<open>cmd/mobius-hotline-server/\<close> loads everything and serves.

  \<^bold>\<open>The theories\<close>, from the bytes up.

  \<^item> \<^verbatim>\<open>HL_Base\<close>: results (\<open>Ok\<close>, \<open>Err\<close>, \<open>Panic\<close>), slices with nil, big-endian numbers, Go's maps as
    association lists, reading from a stream that arrives in pieces.
  \<^item> \<^verbatim>\<open>HL_Scanner\<close>: \<^verbatim>\<open>bufio.Scanner\<close> with its buffer and its limit of 65536 bytes, and the locale of a split
    function that finds frames, interpreted for transactions, fields, file paths and news paths.
  \<^item> \<^verbatim>\<open>HL_Fields\<close>, \<^verbatim>\<open>HL_Transactions\<close>: \<^verbatim>\<open>field.go\<close> and \<^verbatim>\<open>transaction.go\<close>; \<^verbatim>\<open>HL_Users\<close>, \<^verbatim>\<open>HL_Access\<close>: \<^verbatim>\<open>user.go\<close>
    and \<^verbatim>\<open>access.go\<close>; \<^verbatim>\<open>HL_Flat_File\<close>: flattened files, resume data and \<^verbatim>\<open>receiveFile\<close>; \<^verbatim>\<open>HL_File_Path\<close>:
    Go's \<^verbatim>\<open>path\<close> package and \<^verbatim>\<open>file_path.go\<close>; \<^verbatim>\<open>HL_News_Wire\<close>: article lists and categories.
  \<^item> \<^verbatim>\<open>HL_Accounts\<close>, \<^verbatim>\<open>HL_Bans\<close>, \<^verbatim>\<open>HL_Threaded_News\<close>, \<^verbatim>\<open>HL_Board\<close>: the stores of \<^verbatim>\<open>internal/mobius\<close> over a
    disk whose calls may fail.  \<^verbatim>\<open>HL_Redis_Bans\<close>: \<^verbatim>\<open>redis_ban.go\<close> over a Redis given by its commands.
  \<^item> \<^verbatim>\<open>HL_File_Store\<close>, \<^verbatim>\<open>HL_Files\<close>: a file system with directories, files and symbolic links under
    \<^verbatim>\<open>OSFileStore\<close>, and \<^verbatim>\<open>file_wrapper.go\<close> and \<^verbatim>\<open>files.go\<close> on it.
  \<^item> \<^verbatim>\<open>HL_Server\<close>: the record \<open>server\<close> (the struct \<^verbatim>\<open>Server\<close> with its managers) and the methods of a
    connection.  A pointer to a connection or a transfer is a number into a store.
  \<^item> \<^verbatim>\<open>HL_Chat_Handlers\<close>, \<^verbatim>\<open>HL_User_Handlers\<close>, \<^verbatim>\<open>HL_News_Handlers\<close>, \<^verbatim>\<open>HL_File_Handlers\<close>: the 43 handlers of
    \<^verbatim>\<open>transaction_handlers.go\<close> and their table, panics included.
  \<^item> \<^verbatim>\<open>HL_File_Transfer\<close>: the transfer port, as computations over a connection and the file system;
    \<^verbatim>\<open>HL_Tracker\<close>: \<^verbatim>\<open>tracker.go\<close>; \<^verbatim>\<open>HL_Startup\<close>: configuration, start and reload; \<^verbatim>\<open>HL_Api\<close>: the HTTP interface.
  \<^item> \<^verbatim>\<open>HL_Session\<close>: the handshake and \<^verbatim>\<open>handleNewConnection\<close>, and the server as a transition system
    \<open>world_step\<close>: logins, transactions, hang-ups, idle checks, delayed disconnects, the outbox, transfer
    connections and HTTP requests, in any order.
  \<^item> \<^verbatim>\<open>HL_Listener\<close>: the loops that accept connections, with the rate limit of each address, and
    \<^verbatim>\<open>handleNewConnection\<close> in one piece, from the handshake through the login and the loop over the
    transactions to the end of the connection.
  \<^item> \<^verbatim>\<open>HL_Setup\<close>: the rest of \<^verbatim>\<open>main.go\<close>: the search for a configuration, what \<^verbatim>\<open>-init\<close> copies, options, signals,
    the ports \<^verbatim>\<open>ListenAndServe\<close> opens.
  \<^item> \<^verbatim>\<open>HL_Client\<close>: \<^verbatim>\<open>client.go\<close>.

  \<^bold>\<open>The theorems.\<close>  Those about one store or format stand in its theory: round trips of the wire
  formats, agreement of caches and files, what failing writes leave, and where the code goes wrong.
  \<^verbatim>\<open>HL_Effects\<close> and \<^verbatim>\<open>HL_Handler_Effects\<close> give the abstract specification of a handler, \<open>effect\<close>: a
  sequence of manager operations, each under the privilege it needs; every handler refines it.  The
  refinement is proved for any policy on changes of files that is closed under the calls the handlers
  make, the locale \<open>file_policy\<close>.  \<^verbatim>\<open>HL_Confinement\<close> interprets it with the policy that nothing outside a file
  root changes, which gives that no transaction reaches out of it, and \<^verbatim>\<open>HL_Confined_Transfers\<close> shows the
  same of transfers; the ways out that the code leaves, a rename and a folder upload, are shown in
  \<^verbatim>\<open>HL_Confinement\<close> and \<^verbatim>\<open>HL_Transfers\<close>.
  \<^verbatim>\<open>HL_World\<close> derives the invariant of reachable states from the effects, \<^verbatim>\<open>HL_Small_Server\<close> has a
  small server for the examples, and \<^verbatim>\<open>HL_Guarantees\<close> states what follows: privileges, registry, away
  flags, counts.  \<^verbatim>\<open>HL_References\<close>: no reference of a reachable state dangles.  \<^verbatim>\<open>HL_Plain_Files\<close> and
  \<^verbatim>\<open>HL_Transfers\<close>: downloads and uploads on a file system without links or failures.  \<^verbatim>\<open>HL_Admin\<close>: the HTTP
  interface, reloads and the start.  \<^verbatim>\<open>HL_Client_Guarantees\<close>: the client against the server.
  \<^verbatim>\<open>HL_Listener_Guarantees\<close>: how often an address gets in, and that every connection ends with the server
  in a reachable state.

  \<^bold>\<open>Bounds and fuel.\<close>  The client's read loop has fuel: every round consumes at least 22 bytes of the
  stream, so one more than a twenty-second of them is enough, and this is proved.  The same holds for the
  loop of \<^verbatim>\<open>handleNewConnection\<close>.  Reading a stream
  of transactions has a count that the round trip requires to exceed their number.  Scanning the keys of
  Redis has fuel, as the cursor is the server's choice; the theorem is about a scan that ends.  Resolving
  a path follows 40 symbolic links, as Linux does.  Everything else is structural or has a measure.

  \<^bold>\<open>Parameters.\<close>  Code that is not in the repository is an argument: \<open>externals\<close> (bcrypt, YAML, text
  encodings, the clock, formatting), \<open>loaders\<close> (reading YAML, the validator), \<open>api_env\<close> (JSON), \<open>redis\<close>,
  \<open>rate_lib\<close> (the rate limiter, which is assumed to be the token bucket its package documents).
  Random numbers are a stream, failures of the disk an oracle.

  \<^bold>\<open>Not modelled.\<close>  Sockets and TLS, goroutines below the grain of a handler (a handler, a transfer and a
  request are one step each; \<^verbatim>\<open>handleNewConnection\<close> in one piece runs alone), how single writes to a connection
  are cut, logging, the parsing of flags, the connection to Redis at the start, Bonjour, mocks and tests; the
  macOS application, which is written in Swift and runs the server as a process.
  Shared files and the server's own files are two file systems.
  In the transition system the bans are those of the file; the Redis list is compared with it on its own.
\<close>

end
